(* ===== verification/Prelude.thy ===== *)
theory Prelude
  imports Complex_Main
begin

text \<open>
  Shared vocabulary of the development: JavaScript values, truthiness and decimal printing, the
  pattern \<open>const x = xs.find(p); x.f = v\<close> on a list of mutable objects (\<open>modify_first\<close>), and the
  bounded history buffers the gateway keeps everywhere (\<open>push_shift\<close>, \<open>unshift_pop\<close>), with the
  locale \<open>sliding_window\<close> that says what such a buffer promises.

  JavaScript strings are modelled as \<open>string\<close>, a list of 8-bit characters: Node decodes HTTP header
  bytes as Latin-1, so header values, methods and request targets are such strings.
  Clock readings (\<open>Date.now()\<close>, in milliseconds) are integers passed as arguments; one synchronous
  operation of the gateway reads the clock once.
\<close>

named_theorems adc_frame \<open>what an operation leaves untouched\<close>
named_theorems adc_inv \<open>operations keep the invariants\<close>

type_synonym time = int

section \<open>JavaScript values\<close>

datatype js_value =
    JUndefined
  | JNull
  | JBool bool
  | JNum rat
  | JStr string
  | JArr "js_value list"
  | JObj "(string \<times> js_value) list"

text \<open>\<open>a || b\<close> on strings that may be \<open>undefined\<close>: the empty string is falsy too.\<close>

fun truthy_str :: "string option \<Rightarrow> bool" where
  "truthy_str None = False"
| "truthy_str (Some s) = (s \<noteq> [])"

definition or_else :: "string option \<Rightarrow> string option \<Rightarrow> string option" where
  "or_else a b = (if truthy_str a then a else b)"

lemma or_else_simps [simp]:
  "or_else None b = b"
  "or_else (Some []) b = b"
  "or_else (Some (c # cs)) b = Some (c # cs)"
  by (simp_all add: or_else_def)

section \<open>Finding and updating one object of a list\<close>

fun modify_first :: "('a \<Rightarrow> bool) \<Rightarrow> ('a \<Rightarrow> 'a) \<Rightarrow> 'a list \<Rightarrow> 'a list" where
  "modify_first P f [] = []"
| "modify_first P f (x # xs) = (if P x then f x # xs else x # modify_first P f xs)"

lemma length_modify_first [simp]: "length (modify_first P f xs) = length xs"
  by (induction xs) auto

lemma map_modify_first:
  assumes "\<And>x. g (f x) = g x"
  shows "map g (modify_first P f xs) = map g xs"
  using assms by (induction xs) auto

lemma modify_first_notin: "(\<And>x. x \<in> set xs \<Longrightarrow> \<not> P x) \<Longrightarrow> modify_first P f xs = xs"
  by (induction xs) auto

lemma modify_first_eq_map:
  assumes "distinct (map k xs)"
  shows "modify_first (\<lambda>x. k x = i) f xs = map (\<lambda>x. if k x = i then f x else x) xs"
  using assms
proof (induction xs)
  case (Cons x xs)
  show ?case
  proof (cases "k x = i")
    case True
    with Cons.prems have "\<And>y. y \<in> set xs \<Longrightarrow> k y \<noteq> i" by (force simp: image_iff)
    with True show ?thesis by (auto simp: map_idI)
  qed (use Cons in auto)
qed simp

lemma find_modify_first:
  assumes "\<And>x. k (f x) = k x"
  shows "find (\<lambda>x. k x = i) (modify_first (\<lambda>x. k x = j) f xs) =
         (if i = j then map_option f (find (\<lambda>x. k x = i) xs) else find (\<lambda>x. k x = i) xs)"
  using assms by (induction xs) auto

lemma find_Some_in: "find P xs = Some x \<Longrightarrow> x \<in> set xs \<and> P x"
  by (induction xs) (auto split: if_splits)

lemma find_key_distinct:
  assumes "distinct (map k xs)" and "x \<in> set xs"
  shows "find (\<lambda>y. k y = k x) xs = Some x"
  using assms by (induction xs) (auto simp: rev_image_eqI)

lemma find_None_iff_key: "find (\<lambda>y. k y = i) xs = None \<longleftrightarrow> i \<notin> k ` set xs"
  by (induction xs) auto

section \<open>Bounded history buffers\<close>

text \<open>\<open>xs.push(x); if (xs.length > cap) xs.shift()\<close>: newest entry last.\<close>

definition push_shift :: "nat \<Rightarrow> 'a \<Rightarrow> 'a list \<Rightarrow> 'a list" where
  "push_shift cap x xs = (let ys = xs @ [x] in if cap < length ys then tl ys else ys)"

text \<open>\<open>xs.unshift(x); if (xs.length > cap) xs.pop()\<close>: newest entry first.\<close>

definition unshift_pop :: "nat \<Rightarrow> 'a \<Rightarrow> 'a list \<Rightarrow> 'a list" where
  "unshift_pop cap x xs = (let ys = x # xs in if cap < length ys then butlast ys else ys)"

text \<open>
  What a bounded history promises its reader: after a new entry the visible items, newest first,
  are the new one followed by the old ones, cut to the capacity.
\<close>

locale sliding_window =
  fixes add :: "'a \<Rightarrow> 'w \<Rightarrow> 'w"
    and items :: "'w \<Rightarrow> 'a list"
    and cap :: nat
  assumes add_items: "length (items w) \<le> cap \<Longrightarrow> items (add x w) = take cap (x # items w)"
begin

lemma add_bounded: "length (items w) \<le> cap \<Longrightarrow> length (items (add x w)) \<le> cap"
  by (simp add: add_items)

lemma adds_items:
  "length (items w) \<le> cap \<Longrightarrow> items (fold add xs w) = take cap (rev xs @ items w)"
proof (induction xs arbitrary: w)
  case (Cons x xs)
  have "items (fold add (x # xs) w) = take cap (rev xs @ items (add x w))"
    using Cons.IH [OF add_bounded] Cons.prems by simp
  also have "\<dots> = take cap (rev xs @ take cap (x # items w))"
    using Cons.prems by (simp add: add_items)
  also have "\<dots> = take cap (rev xs @ x # items w)"
    by (simp add: min_def)
  finally show ?case by simp
qed simp

lemma adds_bounded: "length (items w) \<le> cap \<Longrightarrow> length (items (fold add xs w)) \<le> cap"
  by (simp add: adds_items)

lemma newest_kept: "length (items w) \<le> cap \<Longrightarrow> 0 < cap \<Longrightarrow> hd (items (add x w)) = x"
  by (simp add: add_items take_Cons split: nat.splits)

end

lemma push_shift_window:
  assumes "length xs \<le> cap"
  shows "rev (push_shift cap x xs) = take cap (x # rev xs)"
proof (cases "length xs < cap")
  case True
  then show ?thesis by (simp add: push_shift_def)
next
  case False
  with assms show ?thesis by (cases xs) (auto simp: push_shift_def)
qed

lemma unshift_pop_window:
  assumes "length xs \<le> cap"
  shows "unshift_pop cap x xs = take cap (x # xs)"
proof (cases "length xs < cap")
  case True
  then show ?thesis by (simp add: unshift_pop_def)
next
  case False
  with assms have "length xs = cap" by simp
  then show ?thesis by (simp add: unshift_pop_def butlast_conv_take del: butlast.simps)
qed

lemma length_push_shift: "length xs \<le> cap \<Longrightarrow> length (push_shift cap x xs) \<le> cap"
  by (simp add: push_shift_def Let_def)

lemma push_shift_ne [simp]: "0 < cap \<Longrightarrow> push_shift cap x xs \<noteq> []"
  by (cases xs) (auto simp: push_shift_def Let_def)

lemma push_shift_last: "0 < cap \<Longrightarrow> last (push_shift cap x xs) = x"
  by (cases xs) (auto simp: push_shift_def Let_def)

section \<open>Decimal printing\<close>

definition digit :: "nat \<Rightarrow> char" where
  "digit d = char_of (48 + d)"

fun nat_str :: "nat \<Rightarrow> string" where
  "nat_str n = (if n < 10 then [digit n] else nat_str (n div 10) @ [digit (n mod 10)])"

declare nat_str.simps [simp del]

definition int_str :: "int \<Rightarrow> string" where
  "int_str n = (if n < 0 then ''-'' else []) @ nat_str (nat \<bar>n\<bar>)"

definition digits_value :: "string \<Rightarrow> nat" where
  "digits_value s = foldl (\<lambda>a c. 10 * a + (of_char c - 48)) 0 s"

lemma digits_value_nat_str [simp]: "digits_value (nat_str n) = n"
proof (induction n rule: nat_str.induct)
  case (1 n)
  show ?case
  proof (cases "n < 10")
    case True
    then show ?thesis by (simp add: nat_str.simps [of n] digits_value_def digit_def)
  next
    case False
    have "n mod 10 < 10" by simp
    then have "(48 + n mod 10) mod 256 = 48 + n mod 10" by simp
    with False "1.IH" show ?thesis
      by (simp add: nat_str.simps [of n] digits_value_def digit_def)
  qed
qed

lemma inj_nat_str: "inj nat_str"
  by (rule inj_on_inverseI [of _ digits_value]) simp

end
