(* ===== verification/JsNumber.thy ===== *)
theory JsNumber
  imports Prelude "HOL-Library.Log_Nat"
begin

text \<open>
  JavaScript numbers. A finite number is a rational; an arithmetic operation is the exact rational
  operation followed by \<open>fl\<close>, the IEEE 754 binary64 rounding (53-bit significand, least exponent
  \<open>-1074\<close>, ties to even). Overflow to infinity (magnitudes of \<open>2^1024\<close> and more) is not modelled,
  and a division that may have a zero divisor is written out where it occurs.
  The locale \<open>rounding\<close> collects what the proofs use of the rounding; it is interpreted on \<open>fl\<close>.
\<close>

section \<open>Rounding to nearest, ties to even\<close>

definition rne :: "rat \<Rightarrow> int" where
  "rne x = (let f = \<lfloor>x\<rfloor>; d = x - of_int f
            in if d < 1/2 then f else if 1/2 < d then f + 1 else if even f then f else f + 1)"

lemma rne_of_int [simp]: "rne (of_int n) = n"
  by (simp add: rne_def)

lemma rne_floor: "\<lfloor>x\<rfloor> \<le> rne x" "rne x \<le> \<lfloor>x\<rfloor> + 1"
  by (auto simp: rne_def Let_def)

lemma rne_mono: "x \<le> y \<Longrightarrow> rne x \<le> rne y"
proof -
  assume le: "x \<le> y"
  show ?thesis
  proof (cases "\<lfloor>x\<rfloor> = \<lfloor>y\<rfloor>")
    case True
    with le show ?thesis by (auto simp: rne_def Let_def)
  next
    case False
    with floor_mono [OF le] have "\<lfloor>x\<rfloor> + 1 \<le> \<lfloor>y\<rfloor>" by simp
    then show ?thesis using rne_floor(2) [of x] rne_floor(1) [of y] by linarith
  qed
qed

lemma rne_error: "\<bar>of_int (rne x) - x\<bar> \<le> 1/2"
proof -
  have "of_int \<lfloor>x\<rfloor> \<le> x" "x < of_int \<lfloor>x\<rfloor> + 1" by linarith+
  then show ?thesis by (auto simp: rne_def Let_def abs_le_iff)
qed

text \<open>The binary exponent of a positive rational: \<open>2^e \<le> x < 2^(e+1)\<close>.\<close>

definition ilog2 :: "rat \<Rightarrow> int" where
  "ilog2 x = (let (p, q) = quotient_of x; e = bitlen p - bitlen q
              in if x < 2 powi e then e - 1 else e)"

lemma bitlen_rat:
  assumes "0 < (p::int)"
  shows "(2::rat) powi (bitlen p - 1) \<le> of_int p" "of_int p < (2::rat) powi (bitlen p)"
proof -
  have b: "2 ^ nat (bitlen p - 1) \<le> p" "p < 2 ^ nat (bitlen p)"
    using bitlen_bounds [OF assms] by auto
  have pos: "0 < bitlen p" using assms by (simp add: bitlen_eq_zero_iff order_less_le bitlen_nonneg)
  have "(2::rat) powi (bitlen p - 1) = of_int (2 ^ nat (bitlen p - 1))"
    using pos by (simp add: power_int_def)
  also have "\<dots> \<le> of_int p" using b(1) by linarith
  finally show "(2::rat) powi (bitlen p - 1) \<le> of_int p" .
  have "of_int p < (of_int (2 ^ nat (bitlen p)) :: rat)" using b(2) by linarith
  also have "\<dots> = 2 powi (bitlen p)" using pos by (simp add: power_int_def)
  finally show "of_int p < (2::rat) powi (bitlen p)" .
qed

lemma ilog2_bounds:
  assumes "0 < x"
  shows "2 powi (ilog2 x) \<le> x" "x < 2 powi (ilog2 x + 1)"
proof -
  obtain p q where pq: "quotient_of x = (p, q)" by fastforce
  have q: "0 < q" using pq by (rule quotient_of_denom_pos)
  have x: "x = of_int p / of_int q" using pq by (rule quotient_of_div)
  with assms q have p: "0 < p" by (simp add: zero_less_divide_iff)
  let ?e = "bitlen p - bitlen q"
  have split: "(2::rat) powi (a - b) = 2 powi a / 2 powi b" for a b
    by (simp add: power_int_diff)
  have "(2::rat) powi (?e - 1) = 2 powi (bitlen p - 1) / 2 powi (bitlen q)"
    by (simp flip: split add: algebra_simps)
  also have "\<dots> \<le> of_int p / of_int q"
    using bitlen_rat [OF p] bitlen_rat [OF q] p q by (intro frac_le) auto
  finally have lo: "2 powi (?e - 1) \<le> x" using x by simp
  have "of_int p / of_int q < (2::rat) powi (bitlen p) / 2 powi (bitlen q - 1)"
    using bitlen_rat [OF p] bitlen_rat [OF q] p q by (intro frac_less) auto
  also have "\<dots> = 2 powi (?e + 1)"
    by (simp flip: split add: algebra_simps)
  finally have hi: "x < 2 powi (?e + 1)" using x by simp
  show "2 powi (ilog2 x) \<le> x" "x < 2 powi (ilog2 x + 1)"
    using lo hi pq by (simp_all add: ilog2_def Let_def)
qed

lemma powi2_mono: "a \<le> b \<Longrightarrow> (2::rat) powi a \<le> 2 powi b"
  by (rule power_int_increasing) auto

lemma powi2_less_cancel: "(2::rat) powi a < 2 powi b \<Longrightarrow> a < b"
  using powi2_mono [of b a] by linarith

lemma ilog2_mono: "0 < x \<Longrightarrow> x \<le> y \<Longrightarrow> ilog2 x \<le> ilog2 y"
proof -
  assume xy: "0 < x" "x \<le> y"
  have "2 powi (ilog2 x) < (2::rat) powi (ilog2 y + 1)"
    using ilog2_bounds(1) [of x] ilog2_bounds(2) [of y] xy by linarith
  then show ?thesis by (auto dest: powi2_less_cancel)
qed

lemma ilog2_le: "0 < x \<Longrightarrow> x < 2 powi k \<Longrightarrow> ilog2 x < k"
  using ilog2_bounds(1) [of x] powi2_less_cancel [of "ilog2 x" k] by linarith

section \<open>The rounding function\<close>

text \<open>The unit in the last place at \<open>x \<noteq> 0\<close>, subnormal range included.\<close>

definition ulp :: "rat \<Rightarrow> rat" where
  "ulp x = 2 powi (max (ilog2 \<bar>x\<bar> - 52) (-1074))"

definition fl :: "rat \<Rightarrow> rat" where
  "fl x = (if x = 0 then 0 else of_int (rne (x / ulp x)) * ulp x)"

lemma ulp_pos [simp]: "0 < ulp x"
  by (simp add: ulp_def)

lemma fl_0 [simp]: "fl 0 = 0"
  by (simp add: fl_def)

lemma rne_minus [simp]: "rne (- x) = - rne x"
proof (cases "of_int \<lfloor>x\<rfloor> = x")
  case True
  have "rne (of_int (- \<lfloor>x\<rfloor>)) = - rne (of_int \<lfloor>x\<rfloor>)" by (simp only: rne_of_int)
  then show ?thesis by (simp only: of_int_minus True)
next
  case False
  then have "of_int \<lfloor>x\<rfloor> < x" using of_int_floor_le [of x] by linarith
  then have f: "\<lfloor>- x\<rfloor> = - \<lfloor>x\<rfloor> - 1"
    using floor_correct [of x] by (intro floor_unique) auto
  have "even (- \<lfloor>x\<rfloor> - 1) \<longleftrightarrow> odd \<lfloor>x\<rfloor>" by presburger
  with f show ?thesis by (auto simp: rne_def Let_def)
qed

lemma ulp_minus [simp]: "ulp (- x) = ulp x"
  by (simp add: ulp_def)

lemma fl_minus [simp]: "fl (- x) = - fl x"
  by (simp add: fl_def)

text \<open>A multiple of the unit in the last place is rounded to itself.\<close>

lemma fl_multiple: "x = of_int m * ulp x \<Longrightarrow> fl x = x"
proof -
  assume m: "x = of_int m * ulp x"
  then have "x / ulp x = of_int m" by (metis nonzero_mult_div_cancel_right order_less_irrefl ulp_pos)
  with m show ?thesis by (simp add: fl_def)
qed

lemma powi2_int: "0 \<le> k \<Longrightarrow> (2::rat) powi k = of_int (2 ^ nat k)"
  by (simp add: power_int_def)

lemma fl_of_int:
  assumes "\<bar>n\<bar> \<le> 2 ^ 53"
  shows "fl (of_int n) = of_int n"
proof (cases "\<bar>n\<bar> = 2 ^ 53 \<or> n = 0")
  case True
  have "ilog2 ((2::rat) ^ 53) = 53" by code_simp
  then have "fl (2 ^ 53) = 2 ^ 53"
    by (intro fl_multiple [of _ "2 ^ 52"]) (simp add: ulp_def)
  moreover have "n = 0 \<or> n = 2 ^ 53 \<or> n = - (2 ^ 53)" using True by arith
  ultimately show ?thesis by (auto simp del: power_numeral)
next
  case False
  define x :: rat where "x = of_int n"
  have x: "0 < \<bar>x\<bar>" "\<bar>x\<bar> < 2 powi 53"
    using False assms by (auto simp: x_def power_int_def simp flip: of_int_abs)
  have "ilog2 \<bar>x\<bar> - 52 \<le> 0" using ilog2_le [OF x] by simp
  then obtain k where k: "max (ilog2 \<bar>x\<bar> - 52) (-1074) = - k" "0 \<le> k"
    by (metis add.inverse_inverse max.bounded_iff neg_0_le_iff_le neg_numeral_le_zero)
  have "x = of_int (n * 2 ^ nat k) * ulp x"
    by (simp add: x_def ulp_def k(1) power_int_minus powi2_int [OF k(2), symmetric] flip: x_def)
      (simp add: x_def powi2_int [OF k(2)])
  then show ?thesis unfolding x_def [symmetric] by (rule fl_multiple)
qed


lemma fl_nonneg: "0 \<le> x \<Longrightarrow> 0 \<le> fl x"
proof -
  assume "0 \<le> x"
  then have "0 \<le> x / ulp x" by (simp add: order_less_imp_le)
  then have "rne (of_int 0) \<le> rne (x / ulp x)" by (intro rne_mono) simp
  then have "0 \<le> rne (x / ulp x)" by (simp only: rne_of_int)
  then show ?thesis by (simp add: fl_def order_less_imp_le)
qed

lemma ulp_divides:
  assumes "ilog2 \<bar>x\<bar> \<le> k" "-1074 \<le> k"
  shows "2 powi k = of_int (2 ^ nat (k - max (ilog2 \<bar>x\<bar> - 52) (-1074))) * ulp x"
proof -
  let ?e = "max (ilog2 \<bar>x\<bar> - 52) (-1074)"
  have "0 \<le> k - ?e" using assms by auto
  then have "of_int (2 ^ nat (k - ?e)) * (2::rat) powi ?e = 2 powi (k - ?e) * 2 powi ?e"
    by (simp only: powi2_int)
  also have "\<dots> = 2 powi k" by (simp flip: power_int_add)
  finally show ?thesis by (simp add: ulp_def)
qed

lemma fl_le_powi:
  assumes "0 < x" "x \<le> 2 powi k" "ilog2 x \<le> k" "-1074 \<le> k"
  shows "fl x \<le> 2 powi k"
proof -
  obtain N where N: "2 powi k = of_int N * ulp x" using ulp_divides [of x k] assms by auto
  then have "x / ulp x \<le> of_int N" using assms(2) by (simp add: divide_le_eq)
  then have "rne (x / ulp x) \<le> N" using rne_mono by fastforce
  then show ?thesis using assms(1) N by (simp add: fl_def)
qed

lemma fl_ge_powi:
  assumes "0 < x" "-1074 \<le> ilog2 x"
  shows "2 powi (ilog2 x) \<le> fl x"
proof -
  obtain N where N: "2 powi (ilog2 x) = of_int N * ulp x"
    using ulp_divides [of x "ilog2 x"] assms by auto
  then have "of_int N \<le> x / ulp x" using ilog2_bounds(1) [OF assms(1)] by (simp add: le_divide_eq)
  then have "N \<le> rne (x / ulp x)" using rne_mono by fastforce
  then show ?thesis using assms(1) N by (simp add: fl_def)
qed

lemma fl_mono_pos:
  assumes "0 < x" "x \<le> y"
  shows "fl x \<le> fl y"
proof (cases "ulp x = ulp y")
  case True
  have "x / ulp y \<le> y / ulp y" using assms by (simp add: divide_right_mono order_less_imp_le)
  then have "rne (x / ulp y) \<le> rne (y / ulp y)" by (rule rne_mono)
  with True assms show ?thesis by (simp add: fl_def order_less_imp_le mult_right_mono)
next
  case False
  have le: "ilog2 x \<le> ilog2 y" using assms by (rule ilog2_mono)
  with False have k: "ilog2 x < ilog2 y" "-1074 \<le> ilog2 y"
    using assms by (auto simp: ulp_def max_def order_less_le split: if_splits)
  have "x < 2 powi (ilog2 x + 1)" using assms(1) by (rule ilog2_bounds)
  also have "\<dots> \<le> 2 powi (ilog2 y)" using k by (intro powi2_mono) simp
  finally have "fl x \<le> 2 powi (ilog2 y)" using assms le k by (intro fl_le_powi) auto
  also have "\<dots> \<le> fl y" using assms k by (intro fl_ge_powi) auto
  finally show ?thesis .
qed

lemma fl_mono: "x \<le> y \<Longrightarrow> fl x \<le> fl y"
proof -
  assume le: "x \<le> y"
  consider "0 < x" | "x \<le> 0" "0 \<le> y" | "y < 0" by linarith
  then show ?thesis
  proof cases
    case 1 then show ?thesis using le by (rule fl_mono_pos)
  next
    case 2
    then have "0 \<le> fl (- x)" "0 \<le> fl y" by (auto intro: fl_nonneg simp del: fl_minus)
    then show ?thesis by simp
  next
    case 3
    then have "fl (- y) \<le> fl (- x)" using le by (intro fl_mono_pos) auto
    then show ?thesis by simp
  qed
qed

text \<open>The rounding error: relative \<open>2^-53\<close>, plus half the least subnormal.\<close>

definition tiny :: rat where
  "tiny = 2 powi (-1075)"

lemma tiny_bounds: "0 < tiny" "tiny \<le> 1 / 2 ^ 60"
proof -
  show "0 < tiny" unfolding tiny_def by (rule zero_less_power_int) simp
  have "tiny \<le> 2 powi (-60)" unfolding tiny_def by (rule powi2_mono) simp
  also have "(2::rat) powi (-60) = 1 / 2 ^ 60" by (simp add: power_int_def power_one_over)
  finally show "tiny \<le> 1 / 2 ^ 60" .
qed

lemma half_ulp_subnormal: "1 / 2 * 2 powi (-1074) = tiny"
proof -
  have "tiny = 2 powi (-1 + -1074)" by (simp add: tiny_def)
  also have "\<dots> = 2 powi (-1) * 2 powi (-1074)" by (rule power_int_add) simp
  finally show ?thesis by simp
qed

lemma fl_error: "\<bar>fl x - x\<bar> \<le> \<bar>x\<bar> / 2 ^ 53 + tiny"
proof (cases "x = 0")
  case False
  have "\<bar>fl x - x\<bar> = \<bar>of_int (rne (x / ulp x)) - x / ulp x\<bar> * ulp x"
  proof -
    have "fl x - x = (of_int (rne (x / ulp x)) - x / ulp x) * ulp x"
      using False ulp_pos [of x] by (simp add: fl_def left_diff_distrib less_imp_neq [THEN not_sym])
    then show ?thesis using ulp_pos [of x] by (simp add: abs_mult less_imp_le)
  qed
  also have "\<dots> \<le> 1 / 2 * ulp x"
    using ulp_pos [of x] by (intro mult_right_mono rne_error) (simp add: less_imp_le)
  also have "\<dots> \<le> \<bar>x\<bar> / 2 ^ 53 + tiny"
  proof (cases "ilog2 \<bar>x\<bar> - 52 \<le> -1074")
    case True
    then have "ulp x = 2 powi (-1074)" by (simp add: ulp_def max_def)
    then show ?thesis using half_ulp_subnormal by simp
  next
    case big: False
    then have "ulp x = 2 powi (ilog2 \<bar>x\<bar>) / 2 powi 52" by (simp add: ulp_def power_int_diff)
    also have "\<dots> \<le> \<bar>x\<bar> / 2 powi 52" using ilog2_bounds(1) [of "\<bar>x\<bar>"] False by (simp add: divide_right_mono)
    finally have "1 / 2 * ulp x \<le> \<bar>x\<bar> / 2 ^ 53" by (simp add: power_int_def)
    then show ?thesis using tiny_bounds(1) by linarith
  qed
  finally show ?thesis .
qed (use tiny_bounds in simp)

section \<open>What the proofs use of a rounding\<close>

locale rounding =
  fixes r :: "rat \<Rightarrow> rat"
  assumes r_mono: "x \<le> y \<Longrightarrow> r x \<le> r y"
    and r_int: "\<bar>n\<bar> \<le> 2 ^ 53 \<Longrightarrow> r (of_int n) = of_int n"
begin

lemma r_zero: "r 0 = 0"
  using r_int [of 0] by simp

lemma r_le_int: "x \<le> of_int n \<Longrightarrow> \<bar>n\<bar> \<le> 2 ^ 53 \<Longrightarrow> r x \<le> of_int n"
  using r_mono [of x "of_int n"] r_int [of n] by simp

lemma r_ge_int: "of_int n \<le> x \<Longrightarrow> \<bar>n\<bar> \<le> 2 ^ 53 \<Longrightarrow> of_int n \<le> r x"
  using r_mono [of "of_int n" x] r_int [of n] by simp

lemma r_nonneg: "0 \<le> x \<Longrightarrow> 0 \<le> r x"
  using r_ge_int [of 0 x] by simp

lemma r_le_numeral: "x \<le> numeral n \<Longrightarrow> (numeral n :: int) \<le> 2 ^ 53 \<Longrightarrow> r x \<le> numeral n"
  using r_le_int [of x "numeral n"] by simp

lemma r_ge_numeral: "numeral n \<le> x \<Longrightarrow> (numeral n :: int) \<le> 2 ^ 53 \<Longrightarrow> numeral n \<le> r x"
  using r_ge_int [of "numeral n" x] by simp

lemma r_le_1: "x \<le> 1 \<Longrightarrow> r x \<le> 1"
  using r_le_int [of x 1] by simp

lemma r_ge_1: "1 \<le> x \<Longrightarrow> 1 \<le> r x"
  using r_ge_int [of 1 x] by simp

lemma r_nat: "n \<le> 2 ^ 53 \<Longrightarrow> r (of_nat n) = of_nat n"
  using r_int [of "int n"] by (simp flip: of_nat_power)

end

interpretation ieee: rounding fl
  by unfold_locales (auto intro: fl_mono fl_of_int)

section \<open>Operators\<close>

definition fadd :: "rat \<Rightarrow> rat \<Rightarrow> rat" where "fadd x y = fl (x + y)"
definition fsub :: "rat \<Rightarrow> rat \<Rightarrow> rat" where "fsub x y = fl (x - y)"
definition fmul :: "rat \<Rightarrow> rat \<Rightarrow> rat" where "fmul x y = fl (x * y)"
definition fdiv :: "rat \<Rightarrow> rat \<Rightarrow> rat" where "fdiv x y = fl (x / y)"

lemma fsub_mono: "x \<le> x' \<Longrightarrow> y' \<le> y \<Longrightarrow> fsub x y \<le> fsub x' y'"
  by (simp add: fsub_def fl_mono)

lemma fadd_mono: "x \<le> x' \<Longrightarrow> y \<le> y' \<Longrightarrow> fadd x y \<le> fadd x' y'"
  by (simp add: fadd_def fl_mono)

lemma fmul_mono_left: "x \<le> x' \<Longrightarrow> 0 \<le> c \<Longrightarrow> fmul x c \<le> fmul x' c"
  by (simp add: fmul_def fl_mono mult_right_mono)

lemma fdiv_mono_left: "x \<le> x' \<Longrightarrow> 0 \<le> c \<Longrightarrow> fdiv x c \<le> fdiv x' c"
  by (simp add: fdiv_def fl_mono divide_right_mono)

text \<open>\<open>Math.round\<close> rounds a half up, exactly.\<close>

definition js_round :: "rat \<Rightarrow> int" where
  "js_round x = \<lfloor>x + 1/2\<rfloor>"

text \<open>\<open>Math.round(x * k) / 100\<close>, the gateway's two-decimal rounding.\<close>

definition round2 :: "rat \<Rightarrow> rat" where
  "round2 x = fdiv (of_int (js_round (fmul x 100))) 100"

lemma js_round_mono: "x \<le> y \<Longrightarrow> js_round x \<le> js_round y"
  unfolding js_round_def by (rule floor_mono) simp

lemma round2_mono: "x \<le> y \<Longrightarrow> round2 x \<le> round2 y"
  unfolding round2_def by (intro fdiv_mono_left) (simp_all add: js_round_mono fmul_mono_left)

lemma js_round_of_int [simp]: "js_round (of_int n) = n"
  by (simp add: js_round_def floor_eq_iff)

lemma js_round_numeral [simp]:
  "js_round 0 = 0" "js_round 1 = 1" "js_round (numeral n) = numeral n"
  using js_round_of_int [of 0] js_round_of_int [of 1] js_round_of_int [of "numeral n"] by simp_all

lemma js_round_nonneg: "0 \<le> x \<Longrightarrow> 0 \<le> js_round x"
  by (simp add: js_round_def)

lemma fl_eval: "fl (1/10) = 3602879701896397 / 36028797018963968"
  by code_simp

end
