(* ===== verification/Helpers.thy ===== *)
theory Helpers
  imports JsNumber "HOL-Library.Word"
begin

text \<open>
  \<^verbatim>\<open>src/utils/helpers.js\<close> and the string functions of JavaScript it and its callers use: client address
  extraction (\<open>getClientIp\<close>), the 32-bit string hash behind the IP-hash strategy (\<open>simpleHash\<close>),
  elapsed time (\<open>elapsedMs\<close>), byte counts (\<open>formatBytes\<close>), \<open>parseInt\<close> and \<open>toFixed\<close>. The record
  \<open>request\<close> holds the fields of Express's \<open>req\<close> that the gateway reads.
\<close>

section \<open>String functions of the language\<close>

text \<open>White space of \<open>String.prototype.trim\<close> below U+0100.\<close>

definition js_space :: "char \<Rightarrow> bool" where
  "js_space c = (let n = (of_char c :: nat) in 9 \<le> n \<and> n \<le> 13 \<or> n = 32 \<or> n = 160)"

definition js_trim :: "string \<Rightarrow> string" where
  "js_trim s = rev (dropWhile js_space (rev (dropWhile js_space s)))"

fun js_split :: "char \<Rightarrow> string \<Rightarrow> string list" where
  "js_split c [] = [[]]"
| "js_split c (x # xs) =
     (if x = c then [] # js_split c xs
      else case js_split c xs of [] \<Rightarrow> [[x]] | w # ws \<Rightarrow> (x # w) # ws)"

lemma js_split_ne [simp]: "js_split c s \<noteq> []"
  by (induction s) (auto split: list.splits)

lemma hd_js_split [simp]: "hd (js_split c s) = takeWhile (\<lambda>x. x \<noteq> c) s"
  by (induction s) (auto split: list.splits)

definition js_startsWith :: "string \<Rightarrow> string \<Rightarrow> bool" where
  "js_startsWith s p = (take (length p) s = p)"

text \<open>\<open>toUpperCase\<close> and \<open>toLowerCase\<close> on ASCII letters.\<close>

definition js_upper :: "string \<Rightarrow> string" where
  "js_upper = map (\<lambda>c. if 97 \<le> (of_char c :: nat) \<and> (of_char c :: nat) \<le> 122
                       then char_of ((of_char c :: nat) - 32) else c)"

definition js_lower :: "string \<Rightarrow> string" where
  "js_lower = map (\<lambda>c. if 65 \<le> (of_char c :: nat) \<and> (of_char c :: nat) \<le> 90
                       then char_of ((of_char c :: nat) + 32) else c)"

text \<open>
  \<open>parseInt(s, 10)\<close>: leading white space, a sign, then the longest run of digits; \<open>None\<close> is NaN.
  The value is the closest double to the digits read.
\<close>

definition is_digit :: "char \<Rightarrow> bool" where
  "is_digit c = (48 \<le> (of_char c :: nat) \<and> (of_char c :: nat) \<le> 57)"

definition js_parseInt :: "string \<Rightarrow> int option" where
  "js_parseInt s =
     (let t = dropWhile js_space s;
          neg = (t \<noteq> [] \<and> hd t = CHR ''-'');
          u = (if t \<noteq> [] \<and> (hd t = CHR ''-'' \<or> hd t = CHR ''+'') then tl t else t);
          ds = takeWhile is_digit u;
          v = \<lfloor>fl (of_nat (digits_value ds))\<rfloor>
      in if ds = [] then None else Some (if neg then - v else v))"

text \<open>\<open>parseInt(s, 10) || d\<close>: NaN and 0 give the default.\<close>

definition parse_or :: "string option \<Rightarrow> int \<Rightarrow> int" where
  "parse_or s d = (case Option.bind s js_parseInt of None \<Rightarrow> d | Some n \<Rightarrow> if n = 0 then d else n)"

lemma is_digit_digit: "d < 10 \<Longrightarrow> is_digit (digit d)"
  by (simp add: is_digit_def digit_def)

lemma nat_str_digits: "\<forall>c \<in> set (nat_str n). is_digit c"
proof (induction n rule: nat_str.induct)
  case (1 n)
  then show ?case
    by (cases "n < 10") (auto simp: nat_str.simps [of n] intro: is_digit_digit)
qed

lemma nat_str_ne [simp]: "nat_str n \<noteq> []"
  by (subst nat_str.simps) simp

text \<open>\<open>parseInt(String(n), 10) = n\<close> for the integers a double represents exactly.\<close>

lemma js_parseInt_nat_str:
  assumes "n \<le> 2 ^ 53"
  shows "js_parseInt (nat_str n) = Some (int n)"
proof -
  have "is_digit (hd (nat_str n))" using nat_str_digits [of n] by (simp add: hd_in_set)
  then have "\<not> js_space (hd (nat_str n))" "hd (nat_str n) \<noteq> CHR ''-''" "hd (nat_str n) \<noteq> CHR ''+''"
    by (auto simp: is_digit_def js_space_def Let_def)
  moreover from this(1) have "dropWhile js_space (nat_str n) = nat_str n"
    by (cases "nat_str n") auto
  moreover have "takeWhile is_digit (nat_str n) = nat_str n"
    using nat_str_digits [of n] by (simp only: takeWhile_eq_all_conv)
  moreover have "\<lfloor>fl (of_nat n)\<rfloor> = int n" using ieee.r_nat [OF assms] by simp
  ultimately show ?thesis by (simp del: takeWhile_eq_all_conv add: js_parseInt_def Let_def)
qed

section \<open>Requests\<close>

record request =
  headers :: "(string \<times> string) list"
  remoteAddress :: "string option"
  req_ip :: "string option"
  http_method :: "string option"
  originalUrl :: "string option"
  req_path :: string

text \<open>\<open>req.headers[name]\<close>: Node lower-cases the names.\<close>

definition header :: "'a request_scheme \<Rightarrow> string \<Rightarrow> string option" where
  "header req name = map_of (headers req) name"

definition getClientIp :: "'a request_scheme \<Rightarrow> string" where
  "getClientIp req =
     (case header req ''x-forwarded-for'' of
        Some (c # cs) \<Rightarrow> js_trim (hd (js_split (CHR '','') (c # cs)))
      | _ \<Rightarrow> the (or_else (remoteAddress req) (or_else (req_ip req) (Some ''0.0.0.0''))))"

text \<open>
  The address the security layers act on is the client's own claim: with an \<open>X-Forwarded-For\<close>
  header, the socket's address plays no part.
\<close>

lemma getClientIp_forwarded:
  "header req ''x-forwarded-for'' = Some s \<Longrightarrow> s \<noteq> [] \<Longrightarrow>
   getClientIp req = js_trim (takeWhile (\<lambda>c. c \<noteq> CHR '','') s)"
  by (cases s) (auto simp: getClientIp_def simp del: js_split.simps)

lemma getClientIp_direct:
  "header req ''x-forwarded-for'' = None \<Longrightarrow> remoteAddress req = Some (c # cs) \<Longrightarrow>
   getClientIp req = c # cs"
  by (simp add: getClientIp_def)

section \<open>The 32-bit string hash\<close>

text \<open>\<open>ToInt32\<close>, and \<open>h << k\<close> on an int32.\<close>

definition to_int32 :: "int \<Rightarrow> int" where
  "to_int32 n = (n + 2 ^ 31) mod 2 ^ 32 - 2 ^ 31"

definition shl32 :: "int \<Rightarrow> nat \<Rightarrow> int" where
  "shl32 h k = to_int32 (h * 2 ^ k)"

definition hash_step :: "int \<Rightarrow> char \<Rightarrow> int" where
  "hash_step hash c = to_int32 ((shl32 hash 5 - hash) + of_char c)"

definition simpleHash :: "string \<Rightarrow> int" where
  "simpleHash str = \<bar>foldl hash_step 0 str\<bar>"

text \<open>Reference: the polynomial \<open>\<Sum> c\<^sub>i * 31^(n-1-i)\<close> in 32-bit two's complement.\<close>

definition hash_word :: "string \<Rightarrow> 32 word" where
  "hash_word str = foldl (\<lambda>h c. 31 * h + of_char c) 0 str"

lemma to_int32_sint: "to_int32 n = sint (word_of_int n :: 32 word)"
  by (simp add: to_int32_def sint_sbintrunc' signed_take_bit_eq_take_bit_shift take_bit_eq_mod)

lemma word_of_to_int32: "(word_of_int (to_int32 n) :: 32 word) = word_of_int n"
  by (simp add: to_int32_sint)

lemma word_of_int_char: "(word_of_int (of_char c) :: 32 word) = of_char c"
  by (rule of_int_of_char)

lemma hash_step_word:
  "word_of_int (hash_step h c) = (31 * word_of_int h + of_char c :: 32 word)"
proof -
  have "(word_of_int (hash_step h c) :: 32 word) =
        word_of_int (to_int32 (h * 2 ^ 5)) - word_of_int h + word_of_int (of_char c)"
    by (simp add: hash_step_def shl32_def word_of_to_int32 flip: word_of_int_minus)
  also have "\<dots> = word_of_int h * 32 - word_of_int h + of_char c"
    by (simp add: word_of_to_int32 word_of_int_char)
  finally show ?thesis by (simp add: algebra_simps)
qed


lemma foldl_hash_step_word:
  "word_of_int (foldl hash_step h s) = foldl (\<lambda>h c. 31 * h + of_char c :: 32 word) (word_of_int h) s"
  by (induction s arbitrary: h) (simp_all add: hash_step_word del: word_of_int_hom_syms)

lemma to_int32_range: "- (2 ^ 31) \<le> to_int32 n" "to_int32 n < 2 ^ 31"
proof -
  have "0 \<le> (n + 2 ^ 31) mod 2 ^ 32" "(n + 2 ^ 31) mod 2 ^ 32 < 2 ^ 32" by simp_all
  then show "- (2 ^ 31) \<le> to_int32 n" "to_int32 n < 2 ^ 31" by (simp_all add: to_int32_def)
qed

lemma foldl_hash_step_sint: "foldl hash_step 0 s = sint (hash_word s)"
proof (cases s rule: rev_cases)
  case Nil
  then show ?thesis by (simp add: hash_word_def)
next
  case (snoc xs c)
  have "foldl hash_step 0 s = to_int32 (shl32 (foldl hash_step 0 xs) 5 - foldl hash_step 0 xs + of_char c)"
    by (simp add: snoc hash_step_def)
  also have "\<dots> = to_int32 (foldl hash_step 0 s)"
    by (simp add: snoc hash_step_def to_int32_sint)
  also have "\<dots> = sint (hash_word s)"
    using foldl_hash_step_word [of 0 s] by (simp add: to_int32_sint hash_word_def)
  finally show ?thesis .
qed

text \<open>
  The string hash is the polynomial hash of base 31 in 32-bit two's complement, made
  non-negative; it stays within \<open>[0, 2^31]\<close> and no intermediate sum leaves the exact integers of
  a double.
\<close>

theorem simpleHash_correct:
  "simpleHash s = \<bar>sint (hash_word s)\<bar> \<and> 0 \<le> simpleHash s \<and> simpleHash s \<le> 2 ^ 31 \<and>
   \<bar>(shl32 (foldl hash_step 0 s) 5 - foldl hash_step 0 s) + of_char c\<bar> < 2 ^ 53"
proof -
  have r: "- (2 ^ 31) \<le> sint w" "sint w < 2 ^ 31" for w :: "32 word"
    using to_int32_range [of "sint w"] by (simp_all add: to_int32_sint)
  have "(of_char c :: int) = int (of_char c)" by (simp add: of_nat_of_char)
  then have "(of_char c :: int) < 256" "0 \<le> (of_char c :: int)" by simp_all
  moreover note r [of "hash_word s"] to_int32_range [of "foldl hash_step 0 s * 2 ^ 5"]
  ultimately show ?thesis
    by (auto simp: simpleHash_def foldl_hash_step_sint shl32_def)
qed

section \<open>Elapsed time\<close>

text \<open>\<open>process.hrtime.bigint() - startTime\<close> is a number of nanoseconds.\<close>

definition elapsedMs :: "int \<Rightarrow> int \<Rightarrow> rat" where
  "elapsedMs now startTime = round2 (fdiv (fl (of_int (now - startTime))) 1000000)"

lemma round2_nonneg: "0 \<le> x \<Longrightarrow> 0 \<le> round2 x"
  by (simp add: round2_def fdiv_def fmul_def ieee.r_nonneg js_round_nonneg)

lemma elapsedMs_nonneg: "startTime \<le> now \<Longrightarrow> 0 \<le> elapsedMs now startTime"
  by (simp add: elapsedMs_def fdiv_def round2_nonneg ieee.r_nonneg)

section \<open>Formatting\<close>

text \<open>\<open>x.toFixed(2)\<close> below 1e21: the closest number of hundredths to the exact value, the larger one of two.\<close>

definition toFixed2 :: "rat \<Rightarrow> string" where
  "toFixed2 x =
     (let n = nat \<lfloor>100 * \<bar>x\<bar> + 1/2\<rfloor>
      in (if x < 0 then ''-'' else []) @ nat_str (n div 100) @ ''.'' @ [digit (n div 10 mod 10), digit (n mod 10)])"

text \<open>
  \<open>log1024 b\<close> is the value of \<^verbatim>\<open>Math.log(b) / Math.log(1024)\<close>, \<open>None\<close> for NaN (the logarithm of a negative
  number); an index outside the list of units reads \<open>undefined\<close>.
\<close>

definition byte_units :: "string list" where
  "byte_units = [''B'', ''KB'', ''MB'', ''GB'', ''TB'']"

definition unit_at :: "int \<Rightarrow> string" where
  "unit_at i = (if 0 \<le> i \<and> nat i < length byte_units then byte_units ! nat i else ''undefined'')"

definition formatBytes :: "(rat \<Rightarrow> rat option) \<Rightarrow> rat \<Rightarrow> string" where
  "formatBytes log1024 bytes =
     (if bytes = 0 then ''0 B''
      else case log1024 bytes of
          None \<Rightarrow> ''NaN undefined''
        | Some l \<Rightarrow> let i = \<lfloor>l\<rfloor> in toFixed2 (fdiv bytes (1024 powi i)) @ '' '' @ unit_at i)"

text \<open>
  With the exact exponent the figure lies between 1 and 1024 and the unit is right; from 1024 TB on there is none.
\<close>

lemma formatBytes_unit:
  assumes "1024 ^ i \<le> bytes" "bytes < 1024 ^ Suc i" "map_option floor (log1024 bytes) = Some (int i)"
  shows "\<exists>q. formatBytes log1024 bytes = toFixed2 q @ '' '' @ (if i < 5 then byte_units ! i else ''undefined'') \<and>
             1 \<le> q \<and> q \<le> 1024 \<and> q = fl (bytes / 1024 ^ i)"
proof -
  have "(0::rat) < 1024 ^ i" by simp
  with assms(1,2) have b: "0 < bytes" "1 \<le> bytes / 1024 ^ i" "bytes / 1024 ^ i \<le> 1024"
    by (simp_all add: field_simps order_less_le_trans order_less_imp_le)
  then have "1 \<le> fl (bytes / 1024 ^ i)" "fl (bytes / 1024 ^ i) \<le> 1024"
    using ieee.r_ge_1 ieee.r_le_numeral [of "bytes / 1024 ^ i"] by simp_all
  moreover have "formatBytes log1024 bytes = toFixed2 (fl (bytes / 1024 ^ i)) @ '' '' @ (if i < 5 then byte_units ! i else ''undefined'')"
    using assms(3) b(1) by (auto simp: formatBytes_def fdiv_def unit_at_def byte_units_def)
  ultimately show ?thesis by blast
qed

lemma formatBytes_examples:
  "formatBytes (\<lambda>b. Some 1) 1536 = ''1.50 KB''"
  "formatBytes (\<lambda>b. Some 5) (1024 ^ 5) = ''1.00 undefined''"
  "toFixed2 (fl (1005 / 1000)) = ''1.00''"
  by code_simp+

text \<open>\<open>parse\<close> is \<^verbatim>\<open>JSON.parse\<close>, which returns the error it throws.\<close>

definition safeJsonParse :: "(string \<Rightarrow> 'e + js_value) \<Rightarrow> string \<Rightarrow> js_value \<times> 'e option" where
  "safeJsonParse parse str = (case parse str of Inr data \<Rightarrow> (data, None) | Inl err \<Rightarrow> (JNull, Some err))"

end
