(* ===== verification/BackendPool.thy ===== *)
theory BackendPool
  imports Helpers
begin

text \<open>
  \<^verbatim>\<open>src/config/backends.js\<close>: the upstream servers and the pool of them, the one object every other
  component of the gateway reads and mutates. \<open>adc\<close> is the root of the gateway's state record; each
  component extends it with the state it keeps. A JavaScript reference to a pool member is its id:
  the pool never gains or loses members after \<open>createBackendPool\<close>, and the ids are distinct
  (\<open>pool_ok\<close>), which every operation keeps because none writes an id.
\<close>

datatype health_status = Healthy | Degraded | Unhealthy | Draining | Offline

text \<open>
  \<open>adminDisabled\<close>, \<open>drainStartTime\<close> and \<open>onDrainComplete\<close> are fields the gateway attaches later;
  the first is falsy while absent, the last is a callback and is modelled by its presence.
\<close>

record backend =
  bid :: string
  url :: string
  weight :: nat
  healthy :: bool
  status :: health_status
  activeConnections :: nat
  adminDisabled :: bool
  drainStartTime :: "time option"
  onDrainComplete :: bool

record adc =
  pool :: "backend list"

type_synonym backend_id = string

section \<open>Creating the pool\<close>

definition strip_slashes :: "string \<Rightarrow> string" where
  "strip_slashes u = rev (dropWhile (\<lambda>c. c = CHR ''/'') (rev u))"

definition mk_backend :: "nat \<Rightarrow> string \<Rightarrow> backend" where
  "mk_backend index u =
     \<lparr>bid = ''backend-'' @ nat_str (index + 1), url = strip_slashes u,
      weight = (if index = 0 then 3 else if index = 1 then 2 else 1),
      healthy = True, status = Healthy, activeConnections = 0,
      adminDisabled = False, drainStartTime = None, onDrainComplete = False\<rparr>"

definition createBackendPool :: "string list \<Rightarrow> backend list" where
  "createBackendPool urls = map (\<lambda>(index, u). mk_backend index u) (enumerate 0 urls)"

section \<open>Looking up and mutating pool members\<close>

text \<open>\<open>backendPool.find(b => b.id === i)\<close>.\<close>

definition find_backend :: "backend_id \<Rightarrow> backend list \<Rightarrow> backend option" where
  "find_backend i p = find (\<lambda>b. bid b = i) p"

text \<open>Writing fields of the object found (nothing happens when there is none).\<close>

definition update_backend :: "backend_id \<Rightarrow> (backend \<Rightarrow> backend) \<Rightarrow> 'a adc_scheme \<Rightarrow> 'a adc_scheme" where
  "update_backend i f s = s\<lparr>pool := modify_first (\<lambda>b. bid b = i) f (pool s)\<rparr>"

definition get_backend :: "backend_id \<Rightarrow> 'a adc_scheme \<Rightarrow> backend option" where
  "get_backend i s = find_backend i (pool s)"

definition set_health :: "bool \<Rightarrow> health_status \<Rightarrow> backend \<Rightarrow> backend" where
  "set_health h st b = b\<lparr>healthy := h, status := st\<rparr>"

lemma bid_set_health [simp]: "bid (set_health h st b) = bid b"
  by (simp add: set_health_def)

lemma set_health_fields [simp]:
  "healthy (set_health h st b) = h"
  "status (set_health h st b) = st"
  "weight (set_health h st b) = weight b"
  "url (set_health h st b) = url b"
  "activeConnections (set_health h st b) = activeConnections b"
  "adminDisabled (set_health h st b) = adminDisabled b"
  "onDrainComplete (set_health h st b) = onDrainComplete b"
  by (simp_all add: set_health_def)

section \<open>Well-formed pools\<close>

definition pool_ok :: "'a adc_scheme \<Rightarrow> bool" where
  "pool_ok s \<longleftrightarrow> distinct (map bid (pool s))"

definition ids :: "'a adc_scheme \<Rightarrow> backend_id list" where
  "ids s = map bid (pool s)"

text \<open>An update of a member that leaves its id alone keeps the member list.\<close>

lemma ids_update_backend [adc_frame]:
  "(\<And>b. bid (f b) = bid b) \<Longrightarrow> ids (update_backend i f s) = ids s"
  by (simp add: ids_def update_backend_def map_modify_first)

lemma pool_ok_ids: "pool_ok s \<longleftrightarrow> distinct (ids s)"
  by (simp add: pool_ok_def ids_def)

lemma pool_ok_update_backend [adc_inv]:
  "pool_ok s \<Longrightarrow> (\<And>b. bid (f b) = bid b) \<Longrightarrow> pool_ok (update_backend i f s)"
  by (simp add: pool_ok_ids ids_update_backend)

lemma get_update_backend:
  "(\<And>b. bid (f b) = bid b) \<Longrightarrow>
   get_backend i (update_backend j f s) =
     (if i = j then map_option f (get_backend i s) else get_backend i s)"
  by (simp add: get_backend_def find_backend_def update_backend_def find_modify_first)

lemma get_update_backend_same [simp]:
  "(\<And>b. bid (f b) = bid b) \<Longrightarrow>
   get_backend i (update_backend i f s) = map_option f (get_backend i s)"
  by (simp add: get_update_backend)

lemma get_update_backend_other [simp]:
  "(\<And>b. bid (f b) = bid b) \<Longrightarrow> i \<noteq> j \<Longrightarrow>
   get_backend i (update_backend j f s) = get_backend i s"
  by (simp add: get_update_backend)

lemma get_backend_bid: "get_backend i s = Some b \<Longrightarrow> bid b = i"
  by (auto simp: get_backend_def find_backend_def dest: find_Some_in)

lemma get_backend_in: "get_backend i s = Some b \<Longrightarrow> b \<in> set (pool s)"
  by (auto simp: get_backend_def find_backend_def dest: find_Some_in)

lemma get_backend_member: "pool_ok s \<Longrightarrow> b \<in> set (pool s) \<Longrightarrow> get_backend (bid b) s = Some b"
  by (simp add: get_backend_def find_backend_def pool_ok_def find_key_distinct)

lemma get_backend_None: "get_backend i s = None \<longleftrightarrow> i \<notin> set (ids s)"
  by (simp add: get_backend_def find_backend_def find_None_iff_key ids_def)

lemma update_backend_None [simp]:
  assumes "get_backend i s = None"
  shows "update_backend i f s = s"
proof -
  have "modify_first (\<lambda>b. bid b = i) f (pool s) = pool s"
    using assms by (intro modify_first_notin) (auto simp: get_backend_None ids_def)
  then show ?thesis by (simp add: update_backend_def)
qed

lemma pool_update_backend:
  "pool_ok s \<Longrightarrow>
   pool (update_backend i f s) = map (\<lambda>b. if bid b = i then f b else b) (pool s)"
  by (simp add: pool_ok_def update_backend_def modify_first_eq_map)

lemma get_backend_pool_cong: "pool s = pool t \<Longrightarrow> get_backend i s = get_backend i (t :: 'b adc_scheme)"
  by (simp add: get_backend_def)

lemma createBackendPool_nth:
  "i < length urls \<Longrightarrow> createBackendPool urls ! i = mk_backend i (urls ! i)"
  by (simp add: createBackendPool_def nth_enumerate_eq)

lemma length_createBackendPool [simp]: "length (createBackendPool urls) = length urls"
  by (simp add: createBackendPool_def)

lemma createBackendPool_ids:
  "map bid (createBackendPool urls) = map (\<lambda>i. ''backend-'' @ nat_str (i + 1)) [0..<length urls]"
  by (rule nth_equalityI) (simp_all add: createBackendPool_nth mk_backend_def)

lemma createBackendPool_ok: "distinct (map bid (createBackendPool urls))"
  by (auto simp: createBackendPool_ids distinct_map inj_on_def dest: injD [OF inj_nat_str])

end
