(* ===== verification/SecurityLog.thy ===== *)
theory SecurityLog
  imports BackendPool
begin

text \<open>
  \<^verbatim>\<open>src/security/securityLogger.js\<close>: the in-memory audit trail of the last 100 security events,
  newest first. The event's random id suffix and its printed timestamp are left out; the time of
  the event is the clock reading.
\<close>

record sec_event =
  ev_type :: string
  ev_ip :: string
  ev_path :: "string option"
  ev_method :: "string option"
  ev_userAgent :: string
  ev_details :: "(string \<times> js_value) list"
  ev_timestamp :: time

record adc_log = adc +
  events :: "sec_event list"

definition event_limit :: nat where
  "event_limit = 100"

definition mk_event :: "time \<Rightarrow> string \<Rightarrow> 'r request_scheme \<Rightarrow> (string \<times> js_value) list \<Rightarrow> sec_event" where
  "mk_event now type req details =
     \<lparr>ev_type = type, ev_ip = getClientIp req, ev_path = originalUrl req,
      ev_method = http_method req,
      ev_userAgent = the (or_else (header req ''user-agent'') (Some ''unknown'')),
      ev_details = details, ev_timestamp = now\<rparr>"

definition logEvent ::
  "time \<Rightarrow> string \<Rightarrow> 'r request_scheme \<Rightarrow> (string \<times> js_value) list \<Rightarrow> 'a adc_log_scheme \<Rightarrow> 'a adc_log_scheme"
  where
  "logEvent now type req details s =
     s\<lparr>events := unshift_pop event_limit (mk_event now type req details) (events s)\<rparr>"

definition clearLogs :: "'a adc_log_scheme \<Rightarrow> 'a adc_log_scheme" where
  "clearLogs s = s\<lparr>events := []\<rparr>"

text \<open>
  Internal callers pass an object literal \<open>{ path, headers: {}, ip }\<close> for \<open>req\<close>: it has no
  \<open>originalUrl\<close> and no \<open>method\<close>.
\<close>

definition internal_req :: "string \<Rightarrow> string \<Rightarrow> request" where
  "internal_req p ip =
     \<lparr>headers = [], remoteAddress = None, req_ip = Some ip, http_method = None,
      originalUrl = None, req_path = p\<rparr>"

lemma logEvent_frame [adc_frame, simp]:
  "pool (logEvent now type req details s) = pool s"
  "get_backend i (logEvent now type req details s) = get_backend i s"
  "ids (logEvent now type req details s) = ids s"
  "pool_ok (logEvent now type req details s) = pool_ok s"
  by (simp_all add: logEvent_def get_backend_def ids_def pool_ok_def)

interpretation seclog: sliding_window "\<lambda>e s. s\<lparr>events := unshift_pop event_limit e (events s)\<rparr>"
    "events :: 'a adc_log_scheme \<Rightarrow> sec_event list" event_limit
  by unfold_locales (simp add: unshift_pop_window)

lemma logEvent_events:
  "length (events s) \<le> event_limit \<Longrightarrow>
   events (logEvent now type req details s) = take event_limit (mk_event now type req details # events s)"
  unfolding logEvent_def by (rule seclog.add_items)

lemma logEvent_bounded [adc_inv]:
  "length (events s) \<le> event_limit \<Longrightarrow> length (events (logEvent now type req details s)) \<le> event_limit"
  unfolding logEvent_def by (rule seclog.add_bounded)

text \<open>Logging a run of events leaves the newest hundred, newest first.\<close>

definition log_all :: "sec_event list \<Rightarrow> 'a adc_log_scheme \<Rightarrow> 'a adc_log_scheme" where
  "log_all es s = fold (\<lambda>e s. s\<lparr>events := unshift_pop event_limit e (events s)\<rparr>) es s"

lemma log_all_newest:
  "length (events s) \<le> event_limit \<Longrightarrow> events (log_all es s) = take event_limit (rev es @ events s)"
  unfolding log_all_def by (rule seclog.adds_items)

lemma internal_event_loses_path:
  "ev_path (mk_event now type (internal_req p i) d) = None"
  by (simp add: mk_event_def internal_req_def)

end
