(* ===== verification/CircuitBreaker.thy ===== *)
theory CircuitBreaker
  imports SecurityLog "HOL-Library.AList"
begin

text \<open>
  \<^verbatim>\<open>src/resilience/circuitBreakerManager.js\<close>: one breaker per backend, kept in a \<open>Map\<close> in insertion
  order, and the transitions CLOSED, OPEN, HALF_OPEN, each of which also writes the health flag of
  the pool member. Every operation is stated per call (\<open>canExecute\<close>, \<open>recordSuccess\<close>,
  \<open>recordFailure\<close>, \<open>reset\<close>); the specification \<open>cb_spec\<close> is what one breaker promises, and the
  locale \<open>breaker_spec\<close> derives the behaviour callers rely on from the simulation alone.
\<close>

section \<open>State\<close>

datatype circuit_state = CLOSED | OPEN | HALF_OPEN

record breaker =
  cbUrl :: string
  cbState :: circuit_state
  consecutiveFails :: nat
  lastStateChange :: time
  probeCount :: nat
  lastError :: "string option"

record cb_config =
  cb_enabled :: bool
  failureThreshold :: int
  cooldownMs :: int
  halfOpenMaxProbes :: int

text \<open>\<open>emitted\<close> lists the \<open>state-change\<close> events in the order they were emitted.\<close>

record adc_cb = adc_log +
  breakers :: "(backend_id \<times> breaker) list"
  emitted :: "(backend_id \<times> circuit_state \<times> circuit_state) list"

definition fresh_breaker :: "time \<Rightarrow> string \<Rightarrow> breaker" where
  "fresh_breaker now u =
     \<lparr>cbUrl = u, cbState = CLOSED, consecutiveFails = 0, lastStateChange = now, probeCount = 0,
      lastError = None\<rparr>"

definition put_breaker :: "backend_id \<Rightarrow> breaker \<Rightarrow> 'a adc_cb_scheme \<Rightarrow> 'a adc_cb_scheme" where
  "put_breaker i br s = s\<lparr>breakers := AList.update i br (breakers s)\<rparr>"

definition lookup_breaker :: "backend_id \<Rightarrow> 'a adc_cb_scheme \<Rightarrow> breaker option" where
  "lookup_breaker i s = map_of (breakers s) i"

section \<open>Operations\<close>

definition initBreakers :: "time \<Rightarrow> 'a adc_cb_scheme \<Rightarrow> 'a adc_cb_scheme" where
  "initBreakers now s = fold (\<lambda>b. put_breaker (bid b) (fresh_breaker now (url b))) (pool s) s"

text \<open>\<open>getBreaker\<close> creates a record for an id it has not seen.\<close>

definition getBreaker :: "time \<Rightarrow> backend_id \<Rightarrow> 'a adc_cb_scheme \<Rightarrow> breaker \<times> 'a adc_cb_scheme" where
  "getBreaker now i s =
     (case lookup_breaker i s of
        Some br \<Rightarrow> (br, s)
      | None \<Rightarrow> (fresh_breaker now [], put_breaker i (fresh_breaker now []) s))"

definition trip_details :: "backend_id \<Rightarrow> breaker \<Rightarrow> string \<Rightarrow> (string \<times> js_value) list" where
  "trip_details i br reason =
     [(''backendId'', JStr i), (''url'', JStr (cbUrl br)),
      (''failures'', JNum (of_nat (consecutiveFails br))), (''reason'', JStr reason)]"

text \<open>\<open>transitionTo\<close> gets the breaker object; the caller has just looked it up under \<open>i\<close>.\<close>

definition transitionTo ::
  "time \<Rightarrow> backend_id \<Rightarrow> breaker \<Rightarrow> circuit_state \<Rightarrow> string \<Rightarrow> 'a adc_cb_scheme \<Rightarrow> 'a adc_cb_scheme" where
  "transitionTo now i br newState reason s =
     (let oldState = cbState br in
      if oldState = newState then s
      else
        let s1 = put_breaker i (br\<lparr>cbState := newState, lastStateChange := now\<rparr>) s;
            s2 = (case newState of
                    OPEN \<Rightarrow> logEvent now ''circuit-breaker-tripped'' (internal_req i ''SYSTEM'')
                              (trip_details i br reason) (update_backend i (set_health False Unhealthy) s1)
                  | HALF_OPEN \<Rightarrow> update_backend i (set_health False Degraded) s1
                  | CLOSED \<Rightarrow> update_backend i (set_health True Healthy) s1)
        in s2\<lparr>emitted := emitted s2 @ [(i, oldState, newState)]\<rparr>)"

text \<open>Writing a field of the breaker object stored under \<open>i\<close>.\<close>

definition update_breaker :: "backend_id \<Rightarrow> (breaker \<Rightarrow> breaker) \<Rightarrow> 'a adc_cb_scheme \<Rightarrow> 'a adc_cb_scheme" where
  "update_breaker i f s = (case lookup_breaker i s of None \<Rightarrow> s | Some br \<Rightarrow> put_breaker i (f br) s)"

definition canExecute :: "cb_config \<Rightarrow> time \<Rightarrow> backend_id \<Rightarrow> 'a adc_cb_scheme \<Rightarrow> bool \<times> 'a adc_cb_scheme" where
  "canExecute cfg now i s =
     (if \<not> cb_enabled cfg then (True, s)
      else
        let (br, s) = getBreaker now i s in
        case cbState br of
          CLOSED \<Rightarrow> (True, s)
        | OPEN \<Rightarrow>
            if cooldownMs cfg \<le> now - lastStateChange br
            then (True, update_breaker i (probeCount_update (\<lambda>_. 1))
                    (transitionTo now i br HALF_OPEN
                       ''Cooldown period expired; entering HALF_OPEN probe state'' s))
            else (False, s)
        | HALF_OPEN \<Rightarrow>
            if int (probeCount br) < halfOpenMaxProbes cfg
            then (True, put_breaker i (br\<lparr>probeCount := probeCount br + 1\<rparr>) s)
            else (False, s))"

definition recordSuccess :: "cb_config \<Rightarrow> time \<Rightarrow> backend_id \<Rightarrow> 'a adc_cb_scheme \<Rightarrow> 'a adc_cb_scheme" where
  "recordSuccess cfg now i s =
     (if \<not> cb_enabled cfg then s
      else
        let (br0, s) = getBreaker now i s;
            br = br0\<lparr>consecutiveFails := 0\<rparr>;
            s = put_breaker i br s
        in if cbState br = HALF_OPEN \<or> cbState br = OPEN
           then transitionTo now i br CLOSED ''Successful request probe received'' s
           else s)"

definition half_open_failed :: "string \<Rightarrow> string" where
  "half_open_failed err = ''HALF_OPEN probe failed ('' @ err @ ''). Re-tripping to OPEN.''"

definition threshold_reached :: "nat \<Rightarrow> int \<Rightarrow> string" where
  "threshold_reached n t = nat_str n @ '' consecutive failures reached threshold ('' @ int_str t @ '').''"

definition recordFailure ::
  "cb_config \<Rightarrow> time \<Rightarrow> backend_id \<Rightarrow> string \<Rightarrow> 'a adc_cb_scheme \<Rightarrow> 'a adc_cb_scheme" where
  "recordFailure cfg now i err s =
     (if \<not> cb_enabled cfg then s
      else
        let (br0, s) = getBreaker now i s;
            br = br0\<lparr>consecutiveFails := consecutiveFails br0 + 1, lastError := Some err\<rparr>;
            s = put_breaker i br s
        in if cbState br = HALF_OPEN
           then transitionTo now i br OPEN (half_open_failed err) s
           else if cbState br = CLOSED \<and> failureThreshold cfg \<le> int (consecutiveFails br)
           then transitionTo now i br OPEN
                  (threshold_reached (consecutiveFails br) (failureThreshold cfg)) s
           else s)"

record cb_view =
  v_backendId :: backend_id
  v_url :: string
  v_state :: circuit_state
  v_consecutiveFailures :: nat
  v_lastStateChange :: time
  v_cooldownRemainingMs :: int
  v_lastError :: "string option"
  v_healthyInPool :: bool

definition getAllStates :: "cb_config \<Rightarrow> time \<Rightarrow> 'a adc_cb_scheme \<Rightarrow> cb_view list" where
  "getAllStates cfg now s =
     map (\<lambda>(i, br).
            let b = get_backend i s in
            \<lparr>v_backendId = i,
             v_url = (if cbUrl br \<noteq> [] then cbUrl br else case b of Some b \<Rightarrow> url b | None \<Rightarrow> []),
             v_state = cbState br, v_consecutiveFailures = consecutiveFails br,
             v_lastStateChange = lastStateChange br,
             v_cooldownRemainingMs =
               (if cbState br = OPEN then max 0 (cooldownMs cfg - (now - lastStateChange br)) else 0),
             v_lastError = lastError br,
             v_healthyInPool = (case b of Some b \<Rightarrow> healthy b | None \<Rightarrow> False)\<rparr>)
         (breakers s)"

definition reset_breaker :: "time \<Rightarrow> backend_id \<Rightarrow> 'a adc_cb_scheme \<Rightarrow> 'a adc_cb_scheme" where
  "reset_breaker now i s =
     (let (br, s) = getBreaker now i s
      in update_breaker i (\<lambda>br. br\<lparr>consecutiveFails := 0, lastError := None\<rparr>)
           (transitionTo now i br CLOSED ''Manual admin reset'' s))"

text \<open>\<open>POST /circuit-breakers/reset-all\<close>: the snapshot is taken once, then each is reset.\<close>

definition reset_all :: "cb_config \<Rightarrow> time \<Rightarrow> 'a adc_cb_scheme \<Rightarrow> 'a adc_cb_scheme" where
  "reset_all cfg now s = fold (\<lambda>v. reset_breaker now (v_backendId v)) (getAllStates cfg now s) s"

section \<open>Frames\<close>

lemma put_breaker_frame [adc_frame, simp]:
  "pool (put_breaker i br s) = pool s"
  "events (put_breaker i br s) = events s"
  "emitted (put_breaker i br s) = emitted s"
  "get_backend j (put_breaker i br s) = get_backend j s"
  by (simp_all add: put_breaker_def get_backend_def)

lemma lookup_put_breaker [simp]:
  "lookup_breaker j (put_breaker i br s) = (if j = i then Some br else lookup_breaker j s)"
  by (simp add: lookup_breaker_def put_breaker_def update_conv')

lemma lookup_breaker_frame [adc_frame, simp]:
  "lookup_breaker j (update_backend i f s) = lookup_breaker j s"
  "lookup_breaker j (logEvent now type req d s) = lookup_breaker j s"
  "lookup_breaker j (s\<lparr>emitted := e\<rparr>) = lookup_breaker j s"
  by (simp_all add: lookup_breaker_def update_backend_def logEvent_def)

lemma get_backend_emitted [adc_frame, simp]: "get_backend j (s\<lparr>emitted := e\<rparr>) = get_backend j s"
  by (simp add: get_backend_def)

lemma getBreaker_eq:
  "getBreaker now i s =
     (case lookup_breaker i s of
        Some br \<Rightarrow> (br, s)
      | None \<Rightarrow> (fresh_breaker now [], put_breaker i (fresh_breaker now []) s))"
  by (rule getBreaker_def)

lemma fresh_breaker_simps [simp]:
  "cbState (fresh_breaker now u) = CLOSED"
  "consecutiveFails (fresh_breaker now u) = 0"
  "probeCount (fresh_breaker now u) = 0"
  by (simp_all add: fresh_breaker_def)

lemma lookup_update_breaker [simp]:
  "lookup_breaker j (update_breaker i f s) =
     (if j = i then map_option f (lookup_breaker i s) else lookup_breaker j s)"
  by (simp add: update_breaker_def split: option.split)

lemma lookup_transitionTo [simp]:
  "lookup_breaker j (transitionTo now i br st r s) =
     (if j = i \<and> cbState br \<noteq> st then Some (br\<lparr>cbState := st, lastStateChange := now\<rparr>)
      else lookup_breaker j s)"
  by (simp add: transitionTo_def Let_def split: circuit_state.split)

section \<open>The specification of one breaker\<close>

datatype cb_spec = SClosed nat | SOpen time | SHalf nat
datatype cb_event = Ask | Success | Failure string | Reset

fun spec_next :: "cb_config \<Rightarrow> time \<Rightarrow> cb_event \<Rightarrow> cb_spec \<Rightarrow> bool \<times> cb_spec" where
  "spec_next cfg now Success _ = (True, SClosed 0)"
| "spec_next cfg now Reset _ = (True, SClosed 0)"
| "spec_next cfg now (Failure _) (SClosed n) =
     (True, if failureThreshold cfg \<le> int (n + 1) then SOpen now else SClosed (n + 1))"
| "spec_next cfg now (Failure _) (SOpen t) = (True, SOpen t)"
| "spec_next cfg now (Failure _) (SHalf k) = (True, SOpen now)"
| "spec_next cfg now Ask (SClosed n) = (True, SClosed n)"
| "spec_next cfg now Ask (SOpen t) =
     (if cooldownMs cfg \<le> now - t then (True, SHalf 1) else (False, SOpen t))"
| "spec_next cfg now Ask (SHalf k) =
     (if int k < halfOpenMaxProbes cfg then (True, SHalf (k + 1)) else (False, SHalf k))"

text \<open>The breaker's view of \<open>i\<close>: the failure count matters only while it is closed.\<close>

definition cb_abs :: "backend_id \<Rightarrow> 'a adc_cb_scheme \<Rightarrow> cb_spec" where
  "cb_abs i s =
     (case lookup_breaker i s of
        None \<Rightarrow> SClosed 0
      | Some br \<Rightarrow> (case cbState br of
            CLOSED \<Rightarrow> SClosed (consecutiveFails br)
          | OPEN \<Rightarrow> SOpen (lastStateChange br)
          | HALF_OPEN \<Rightarrow> SHalf (probeCount br)))"

fun cb_apply :: "cb_config \<Rightarrow> time \<Rightarrow> cb_event \<Rightarrow> backend_id \<Rightarrow> 'a adc_cb_scheme \<Rightarrow> bool \<times> 'a adc_cb_scheme" where
  "cb_apply cfg now Ask i s = canExecute cfg now i s"
| "cb_apply cfg now Success i s = (True, recordSuccess cfg now i s)"
| "cb_apply cfg now (Failure e) i s = (True, recordFailure cfg now i e s)"
| "cb_apply cfg now Reset i s = (True, reset_breaker now i s)"

lemmas cb_op_defs =
  canExecute_def recordSuccess_def recordFailure_def reset_breaker_def getBreaker_def

lemma cb_apply_simulates:
  assumes "cb_enabled cfg"
  shows "map_prod id (cb_abs i) (cb_apply cfg now ev i s) = spec_next cfg now ev (cb_abs i s)"
proof (cases "lookup_breaker i s")
  case None
  with assms show ?thesis by (cases ev) (auto simp: cb_op_defs cb_abs_def Let_def)
next
  case (Some br)
  with assms show ?thesis
    by (cases ev; cases "cbState br") (auto simp: cb_op_defs cb_abs_def Let_def)
qed

lemma cb_apply_other: "j \<noteq> i \<Longrightarrow> cb_abs j (snd (cb_apply cfg now ev i s)) = cb_abs j s"
  by (cases ev) (auto simp: cb_op_defs cb_abs_def Let_def split: option.split circuit_state.split)


lemma get_backend_transitionTo:
  "get_backend j (transitionTo now i br st r s) =
     (if j = i \<and> cbState br \<noteq> st
      then map_option (set_health (st = CLOSED)
             (case st of CLOSED \<Rightarrow> Healthy | OPEN \<Rightarrow> Unhealthy | HALF_OPEN \<Rightarrow> Degraded)) (get_backend i s)
      else get_backend j s)"
  by (simp add: transitionTo_def Let_def get_update_backend split: circuit_state.split)

lemma get_backend_update_breaker [simp]: "get_backend j (update_breaker i f s) = get_backend j s"
  by (simp add: update_breaker_def split: option.split)

lemma cb_apply_other_backend:
  "j \<noteq> i \<Longrightarrow> get_backend j (snd (cb_apply cfg now ev i s)) = get_backend j s"
  by (cases ev)
    (auto simp: cb_op_defs get_backend_transitionTo Let_def split: option.split circuit_state.split)

lemma cb_apply_member:
  "get_backend i (snd (cb_apply cfg now ev i s)) = None \<longleftrightarrow> get_backend i s = None"
  by (cases ev)
    (auto simp: cb_op_defs get_backend_transitionTo Let_def split: option.splits circuit_state.splits)

text \<open>With nobody else writing the member, its health flag says whether the breaker is closed.\<close>

definition cb_sync :: "backend_id \<Rightarrow> 'a adc_cb_scheme \<Rightarrow> bool" where
  "cb_sync i s \<longleftrightarrow>
     (case get_backend i s of
        None \<Rightarrow> True
      | Some b \<Rightarrow> healthy b \<longleftrightarrow> (case cb_abs i s of SClosed n \<Rightarrow> True | _ \<Rightarrow> False))"

lemma cb_apply_sync [adc_inv]: "cb_sync i s \<Longrightarrow> cb_sync i (snd (cb_apply cfg now ev i s))"
  by (cases ev; cases "lookup_breaker i s"; cases "cbState (the (lookup_breaker i s))";
      cases "get_backend i s")
    (auto simp: cb_sync_def cb_op_defs cb_abs_def get_backend_transitionTo Let_def)

section \<open>What a breaker promises\<close>

fun runs :: "(time \<Rightarrow> cb_event \<Rightarrow> 's \<Rightarrow> bool \<times> 's) \<Rightarrow> (time \<times> cb_event) list \<Rightarrow> 's \<Rightarrow> 's" where
  "runs app [] s = s"
| "runs app ((t, e) # es) s = runs app es (snd (app t e s))"

fun answers :: "(time \<Rightarrow> cb_event \<Rightarrow> 's \<Rightarrow> bool \<times> 's) \<Rightarrow> (time \<times> cb_event) list \<Rightarrow> 's \<Rightarrow> bool list" where
  "answers app [] s = []"
| "answers app ((t, e) # es) s = fst (app t e s) # answers app es (snd (app t e s))"

fun is_outcome :: "cb_event \<Rightarrow> bool" where
  "is_outcome Success = True"
| "is_outcome (Failure _) = True"
| "is_outcome _ = False"

fun is_failure :: "cb_event \<Rightarrow> bool" where
  "is_failure (Failure _) = True"
| "is_failure _ = False"

text \<open>The length of the run of failures a history ends with.\<close>

definition trailing_failures :: "(time \<times> cb_event) list \<Rightarrow> nat" where
  "trailing_failures es = length (takeWhile is_failure (rev (map snd es)))"

lemma runs_append: "runs app (es @ fs) s = runs app fs (runs app es s)"
  by (induction es arbitrary: s) auto

lemma runs_inv: "(\<And>t e s. I s \<Longrightarrow> I (snd (app t e s))) \<Longrightarrow> I s \<Longrightarrow> I (runs app es s)"
  by (induction es arbitrary: s) auto

locale breaker_spec =
  fixes app :: "time \<Rightarrow> cb_event \<Rightarrow> 's \<Rightarrow> bool \<times> 's"
    and view :: "'s \<Rightarrow> cb_spec"
    and cfg :: cb_config
  assumes simulates: "cb_enabled cfg \<Longrightarrow> map_prod id view (app t e s) = spec_next cfg t e (view s)"
begin

lemma view_step: "cb_enabled cfg \<Longrightarrow> view (snd (app t e s)) = snd (spec_next cfg t e (view s))"
  using simulates [of t e s] by (metis snd_map_prod)

lemma answer_step: "cb_enabled cfg \<Longrightarrow> fst (app t e s) = fst (spec_next cfg t e (view s))"
  using simulates [of t e s] by (metis fst_map_prod id_apply)

lemma view_trip:
  assumes "cb_enabled cfg" "0 < failureThreshold cfg"
    and "\<forall>(t, e) \<in> set es. is_outcome e" and "view s = SClosed 0"
  shows "if int (trailing_failures es) < failureThreshold cfg
         then view (runs app es s) = SClosed (trailing_failures es)
         else \<exists>t. view (runs app es s) = SOpen t"
  using assms(3)
proof (induction es rule: rev_induct)
  case Nil
  with assms show ?case by (simp add: trailing_failures_def)
next
  case (snoc te es)
  obtain t e where te: "te = (t, e)" by fastforce
  with snoc assms(1,2) show ?case
    by (cases e) (auto simp: trailing_failures_def runs_append view_step split: if_splits)
qed

lemma fast_fail:
  assumes "cb_enabled cfg" "view s = SOpen t0" "\<forall>t \<in> set ts. t - t0 < cooldownMs cfg"
  shows "answers app (map (\<lambda>t. (t, Ask)) ts) s = replicate (length ts) False"
  using assms(2,3)
  by (induction ts arbitrary: s) (auto simp: answer_step [OF assms(1)] view_step [OF assms(1)])

lemma half_open_budget:
  assumes "cb_enabled cfg" "view s = SHalf k"
  shows "length (filter id (answers app (map (\<lambda>t. (t, Ask)) ts) s)) =
         min (length ts) (nat (halfOpenMaxProbes cfg - int k))"
  using assms(2)
proof (induction ts arbitrary: s k)
  case (Cons t ts)
  then show ?case
    by (cases "int k < halfOpenMaxProbes cfg")
      (auto simp: answer_step [OF assms(1)] view_step [OF assms(1)] Suc_nat_eq_nat_zadd1
         min_def nat_diff_distrib')
qed simp

lemma probe_budget:
  assumes "cb_enabled cfg" "view s = SOpen t0" "\<forall>t \<in> set ts. cooldownMs cfg \<le> t - t0"
  shows "length (filter id (answers app (map (\<lambda>t. (t, Ask)) ts) s)) =
         min (length ts) (max 1 (nat (halfOpenMaxProbes cfg)))"
proof (cases ts)
  case (Cons t ts')
  with assms have "view (snd (app t Ask s)) = SHalf 1" "fst (app t Ask s)"
    by (simp_all add: view_step answer_step)
  with half_open_budget [OF assms(1), of _ 1 ts'] Cons show ?thesis
    by (auto simp: min_def max_def)
qed simp

end

interpretation breaker: breaker_spec "\<lambda>now ev. cb_apply cfg now ev i" "cb_abs i" cfg
  for cfg :: cb_config and i :: backend_id
  by unfold_locales (rule cb_apply_simulates)


section \<open>The emitted transitions\<close>

fun legal_edge :: "circuit_state \<Rightarrow> circuit_state \<Rightarrow> bool" where
  "legal_edge CLOSED OPEN = True"
| "legal_edge OPEN HALF_OPEN = True"
| "legal_edge OPEN CLOSED = True"
| "legal_edge HALF_OPEN OPEN = True"
| "legal_edge HALF_OPEN CLOSED = True"
| "legal_edge _ _ = False"

fun is_path :: "circuit_state \<Rightarrow> (circuit_state \<times> circuit_state) list \<Rightarrow> circuit_state \<Rightarrow> bool" where
  "is_path a [] z = (a = z)"
| "is_path a ((x, y) # es) z = (x = a \<and> legal_edge x y \<and> is_path y es z)"

lemma is_path_snoc: "is_path a (es @ [(x, y)]) z \<longleftrightarrow> is_path a es x \<and> legal_edge x y \<and> y = z"
  by (induction a es z rule: is_path.induct) auto

definition transitions_of :: "backend_id \<Rightarrow> 'a adc_cb_scheme \<Rightarrow> (circuit_state \<times> circuit_state) list" where
  "transitions_of i s = map snd (filter (\<lambda>(j, _). j = i) (emitted s))"

definition current_state :: "backend_id \<Rightarrow> 'a adc_cb_scheme \<Rightarrow> circuit_state" where
  "current_state i s = (case lookup_breaker i s of None \<Rightarrow> CLOSED | Some br \<Rightarrow> cbState br)"

lemma emitted_transitionTo:
  "emitted (transitionTo now i br st r s) =
     (if cbState br = st then emitted s else emitted s @ [(i, cbState br, st)])"
  by (simp add: transitionTo_def Let_def update_backend_def logEvent_def split: circuit_state.split)

lemma emitted_update_breaker [simp]: "emitted (update_breaker i f s) = emitted s"
  by (simp add: update_breaker_def split: option.split)

definition path_inv :: "'a adc_cb_scheme \<Rightarrow> bool" where
  "path_inv s \<longleftrightarrow> (\<forall>i. is_path CLOSED (transitions_of i s) (current_state i s))"

lemmas path_defs = path_inv_def transitions_of_def current_state_def

lemma cb_apply_path [adc_inv]: "path_inv s \<Longrightarrow> path_inv (snd (cb_apply cfg now ev i s))"
  by (cases ev; cases "lookup_breaker i s"; cases "cbState (the (lookup_breaker i s))")
    (auto simp: path_defs cb_op_defs emitted_transitionTo is_path_snoc Let_def
      split: option.split dest: spec [of _ i])

text \<open>A history of operations on any breakers, at any times.\<close>

fun cb_history ::
  "cb_config \<Rightarrow> (backend_id \<times> time \<times> cb_event) list \<Rightarrow> 'a adc_cb_scheme \<Rightarrow> 'a adc_cb_scheme" where
  "cb_history cfg [] s = s"
| "cb_history cfg ((i, t, e) # h) s = cb_history cfg h (snd (cb_apply cfg t e i s))"

lemma cb_history_inv:
  "(\<And>i t e s. I s \<Longrightarrow> I (snd (cb_apply cfg t e i s))) \<Longrightarrow> I s \<Longrightarrow> I (cb_history cfg h s)"
  by (induction h arbitrary: s) auto

definition demo_cb :: adc_cb where
  "demo_cb = initBreakers 0
     \<lparr>pool = createBackendPool [''http://localhost:4001'', ''http://localhost:4002''],
      events = [], breakers = [], emitted = []\<rparr>"

definition demo_cfg :: cb_config where
  "demo_cfg = \<lparr>cb_enabled = True, failureThreshold = 5, cooldownMs = 15000, halfOpenMaxProbes = 1\<rparr>"

lemma lookup_fold_put:
  "lookup_breaker i (fold (\<lambda>b. put_breaker (bid b) (fresh_breaker now (url b))) bs s) = Some br \<Longrightarrow>
   lookup_breaker i s = Some br \<or> (\<exists>u. br = fresh_breaker now u)"
  by (induction bs arbitrary: s) (fastforce split: if_splits)+

lemma emitted_fold_put [simp]:
  "emitted (fold (\<lambda>b. put_breaker (bid b) (fresh_breaker now (url b))) bs s) = emitted s"
  by (induction bs arbitrary: s) auto

lemma path_inv_init: "breakers s = [] \<Longrightarrow> emitted s = [] \<Longrightarrow> path_inv (initBreakers now s)"
  by (auto simp: path_defs initBreakers_def split: option.split dest!: lookup_fold_put)
    (simp add: lookup_breaker_def)

section \<open>Properties\<close>



lemma demo_cb_facts:
  "lookup_breaker ''backend-1'' demo_cb = Some (fresh_breaker 0 ''http://localhost:4001'')"
  "get_backend ''backend-1'' demo_cb = Some (mk_backend 0 ''http://localhost:4001'')"
  by (code_simp, code_simp)

definition demo_failures :: "(time \<times> cb_event) list" where
  "demo_failures = [(1, Failure ''HTTP 500''), (2, Success)] @ map (\<lambda>t. (t, Failure ''ECONNREFUSED'')) [3..7]"

lemma demo_failures_facts:
  "trailing_failures demo_failures = 5" "\<forall>(t, e) \<in> set demo_failures. is_outcome e"
  by (code_simp, code_simp)


text \<open>
  C11: an open breaker fails fast. Until the cooldown is over every \<open>canExecute\<close> answers no and
  changes nothing; once it is over, and until an outcome is recorded, exactly
  \<open>max 1 halfOpenMaxProbes\<close> of any number of calls answer yes.
\<close>

theorem breaker_probe_budget:
  assumes "cb_enabled cfg" "lookup_breaker i s = Some br" "cbState br = OPEN"
  shows "(\<forall>now. now - lastStateChange br < cooldownMs cfg \<longrightarrow> canExecute cfg now i s = (False, s)) \<and>
         (\<forall>ts. (\<forall>t \<in> set ts. cooldownMs cfg \<le> t - lastStateChange br) \<longrightarrow>
            length (filter id (answers (\<lambda>now ev. cb_apply cfg now ev i) (map (\<lambda>t. (t, Ask)) ts) s)) =
            min (length ts) (max 1 (nat (halfOpenMaxProbes cfg))))"
proof -
  have "cb_abs i s = SOpen (lastStateChange br)" using assms by (simp add: cb_abs_def)
  note budget = breaker.probe_budget [OF assms(1), of i s, OF this]
  have "now - lastStateChange br < cooldownMs cfg \<Longrightarrow> canExecute cfg now i s = (False, s)" for now
    using assms by (simp add: canExecute_def getBreaker_def)
  with budget show ?thesis by blast
qed

definition demo_open :: adc_cb where
  "demo_open = runs (\<lambda>now ev. cb_apply demo_cfg now ev ''backend-1'') demo_failures demo_cb"

lemma demo_open_facts:
  "map_option cbState (lookup_breaker ''backend-1'' demo_open) = Some OPEN"
  "map_option lastStateChange (lookup_breaker ''backend-1'' demo_open) = Some 7"
  by (code_simp, code_simp)

theorem breaker_probe_budget_witness:
  "canExecute demo_cfg 15006 ''backend-1'' demo_open = (False, demo_open) \<and>
   length (filter id (answers (\<lambda>now ev. cb_apply demo_cfg now ev ''backend-1'')
     (map (\<lambda>t. (t, Ask)) [15007, 15008, 20000]) demo_open)) = 1"
proof -
  obtain br where br: "lookup_breaker ''backend-1'' demo_open = Some br" "cbState br = OPEN"
      "lastStateChange br = 7"
    using demo_open_facts by auto
  have en: "cb_enabled demo_cfg" by (simp add: demo_cfg_def)
  note budget = breaker_probe_budget [OF en br(1,2)]
  have "15006 - lastStateChange br < cooldownMs demo_cfg" by (simp add: demo_cfg_def br)
  with budget have "canExecute demo_cfg 15006 ''backend-1'' demo_open = (False, demo_open)" by blast
  moreover have "\<forall>t \<in> set [15007, 15008, 20000]. cooldownMs demo_cfg \<le> t - lastStateChange br"
    by (simp add: demo_cfg_def br)
  with budget have "length (filter id (answers (\<lambda>now ev. cb_apply demo_cfg now ev ''backend-1'')
      (map (\<lambda>t. (t, Ask)) [15007, 15008, 20000]) demo_open)) =
     min (length [15007, 15008, 20000 :: time]) (max 1 (nat (halfOpenMaxProbes demo_cfg)))"
    by blast
  ultimately show ?thesis by (simp add: demo_cfg_def)
qed

text \<open>
  C12: the emitted \<open>state-change\<close> events of every backend form a path of the three-state machine
  from CLOSED to the breaker's current state, over any history of operations on any breakers; in
  particular no breaker goes from CLOSED to HALF_OPEN directly.
\<close>

theorem breaker_state_machine:
  assumes "breakers s = []" "emitted s = []"
  shows "is_path CLOSED (transitions_of i (cb_history cfg h (initBreakers now s)))
           (current_state i (cb_history cfg h (initBreakers now s)))"
proof -
  have "path_inv (cb_history cfg h (initBreakers now s))"
    by (rule cb_history_inv [OF cb_apply_path path_inv_init [OF assms]])
  then show ?thesis by (simp add: path_inv_def)
qed

definition demo_history :: "(backend_id \<times> time \<times> cb_event) list" where
  "demo_history = map (\<lambda>t. (''backend-2'', t, Failure ''HTTP 503'')) [1..5] @
     [(''backend-2'', 15005, Ask), (''backend-2'', 15100, Success)]"

theorem breaker_state_machine_witness:
  "is_path CLOSED [(CLOSED, OPEN), (OPEN, HALF_OPEN), (HALF_OPEN, CLOSED)] CLOSED \<and>
   transitions_of ''backend-2'' (cb_history demo_cfg demo_history demo_cb) =
     [(CLOSED, OPEN), (OPEN, HALF_OPEN), (HALF_OPEN, CLOSED)]"
proof -
  have t: "transitions_of ''backend-2'' (cb_history demo_cfg demo_history demo_cb) =
      [(CLOSED, OPEN), (OPEN, HALF_OPEN), (HALF_OPEN, CLOSED)]"
    and c: "current_state ''backend-2'' (cb_history demo_cfg demo_history demo_cb) = CLOSED"
    by (code_simp, code_simp)
  show ?thesis
    using breaker_state_machine [of "\<lparr>pool = createBackendPool [''http://localhost:4001'', ''http://localhost:4002''],
        events = [], breakers = [], emitted = []\<rparr>" "''backend-2''" demo_cfg demo_history 0]
    by (simp add: demo_cb_def [symmetric] t c)
qed

end
