(* ===== verification/HealthStore.thy ===== *)
theory HealthStore
  imports CircuitBreaker
begin

text \<open>
  \<^verbatim>\<open>src/health/healthStore.js\<close>, \<^verbatim>\<open>src/health/healthMonitor.js\<close> and the override route of
  \<^verbatim>\<open>src/health/healthRoutes.js\<close>: the rolling window of health-check results per backend, the verdict
  written into the pool, and one completed probe (\<open>checkBackend\<close>), which reports to the health store
  first and to the circuit breaker second. \<open>fetch\<close> is the environment: a probe's outcome is an
  argument.
\<close>

section \<open>State\<close>

record check =
  chk_success :: bool
  chk_latency :: rat
  chk_timestamp :: time

text \<open>\<open>successRate\<close> does not exist before the first check.\<close>

record health_stats =
  checks :: "check list"
  consecutiveFailures :: nat
  consecutiveSuccesses :: nat
  totalChecks :: nat
  successfulChecks :: nat
  averageLatency :: rat
  uptimePercentage :: rat
  successRate :: "rat option"
  lastCheckTime :: "time option"

record adc_hs = adc_cb +
  hstats :: "(backend_id \<times> health_stats) list"

definition historyLimit :: nat where
  "historyLimit = 20"

definition fresh_stats :: health_stats where
  "fresh_stats = \<lparr>checks = [], consecutiveFailures = 0, consecutiveSuccesses = 0, totalChecks = 0,
     successfulChecks = 0, averageLatency = 0, uptimePercentage = 100, successRate = None,
     lastCheckTime = None\<rparr>"

definition init_hstats :: "'a adc_hs_scheme \<Rightarrow> 'a adc_hs_scheme" where
  "init_hstats s = s\<lparr>hstats := map (\<lambda>b. (bid b, fresh_stats)) (pool s)\<rparr>"

definition get_stats :: "backend_id \<Rightarrow> 'a adc_hs_scheme \<Rightarrow> health_stats option" where
  "get_stats i s = map_of (hstats s) i"

definition put_stats :: "backend_id \<Rightarrow> health_stats \<Rightarrow> 'a adc_hs_scheme \<Rightarrow> 'a adc_hs_scheme" where
  "put_stats i st s = s\<lparr>hstats := AList.update i st (hstats s)\<rparr>"

section \<open>Recording a result\<close>

definition mean_latency :: "check list \<Rightarrow> rat" where
  "mean_latency cs =
     round2 (fdiv (foldl (\<lambda>sum c. fadd sum (chk_latency c)) 0 cs) (of_nat (length cs)))"

definition rate_of :: "check list \<Rightarrow> rat" where
  "rate_of cs = fmul (fdiv (of_nat (length (filter chk_success cs))) (of_nat (length cs))) 100"

definition uptime_of :: "nat \<Rightarrow> nat \<Rightarrow> rat" where
  "uptime_of ok n = fdiv (of_int (js_round (fmul (fdiv (of_nat ok) (of_nat n)) 10000))) 100"

definition note_result :: "time \<Rightarrow> bool \<Rightarrow> rat \<Rightarrow> health_stats \<Rightarrow> health_stats" where
  "note_result now success latency st =
     (let st = st\<lparr>totalChecks := totalChecks st + 1, lastCheckTime := Some now\<rparr>;
          st = (if success
                then st\<lparr>successfulChecks := successfulChecks st + 1, consecutiveFailures := 0,
                        consecutiveSuccesses := consecutiveSuccesses st + 1\<rparr>
                else st\<lparr>consecutiveFailures := consecutiveFailures st + 1, consecutiveSuccesses := 0\<rparr>);
          cs = push_shift historyLimit
                 \<lparr>chk_success = success, chk_latency = latency, chk_timestamp = now\<rparr> (checks st)
      in st\<lparr>checks := cs, successRate := Some (rate_of cs), averageLatency := mean_latency cs,
            uptimePercentage := uptime_of (successfulChecks st) (totalChecks st)\<rparr>)"

definition updateBackendHealthState :: "health_stats \<Rightarrow> backend \<Rightarrow> backend" where
  "updateBackendHealthState st b =
     (if adminDisabled b then set_health False Unhealthy b
      else if 3 \<le> consecutiveFailures st then set_health False Unhealthy b
      else if 2 \<le> consecutiveSuccesses st \<and> \<not> healthy b then set_health True Healthy b
      else if 0 < consecutiveFailures st \<or> (case successRate st of Some r \<Rightarrow> r < 90 | None \<Rightarrow> False)
      then set_health (consecutiveFailures st < 3) Degraded b
      else set_health True Healthy b)"

definition recordResult ::
  "time \<Rightarrow> backend_id \<Rightarrow> bool \<Rightarrow> rat \<Rightarrow> 'a adc_hs_scheme \<Rightarrow> 'a adc_hs_scheme" where
  "recordResult now i success latency s =
     (case get_stats i s of
        None \<Rightarrow> s
      | Some st \<Rightarrow>
          let st' = note_result now success latency st
          in update_backend i (updateBackendHealthState st') (put_stats i st' s))"

section \<open>Reading the store\<close>

record backend_health =
  bh_id :: backend_id
  bh_url :: string
  bh_healthy :: bool
  bh_status :: health_status
  bh_weight :: nat
  bh_activeConnections :: nat
  bh_stats :: health_stats

definition getBackendHealth :: "backend_id \<Rightarrow> 'a adc_hs_scheme \<Rightarrow> backend_health option" where
  "getBackendHealth i s =
     (case (get_stats i s, get_backend i s) of
        (Some st, Some b) \<Rightarrow>
          Some \<lparr>bh_id = bid b, bh_url = url b, bh_healthy = healthy b, bh_status = status b,
                bh_weight = weight b, bh_activeConnections = activeConnections b, bh_stats = st\<rparr>
      | _ \<Rightarrow> None)"

definition getAllBackendHealth :: "'a adc_hs_scheme \<Rightarrow> backend_health option list" where
  "getAllBackendHealth s = map (\<lambda>b. getBackendHealth (bid b) s) (pool s)"

datatype overall = Green | Yellow | Red

definition getGatewayOverallHealth :: "'a adc_hs_scheme \<Rightarrow> overall" where
  "getGatewayOverallHealth s =
     (let healthyCount = length (filter (\<lambda>b. healthy b \<and> status b = Healthy) (pool s));
          totalCount = length (pool s)
      in if healthyCount = totalCount then Green else if 0 < healthyCount then Yellow else Red)"

text \<open>
  \<open>POST /api/health/:id/override\<close>: the body's \<open>healthy\<close> field as sent, errors as status codes.
\<close>

definition overrideHealth ::
  "backend_id \<Rightarrow> js_value \<Rightarrow> 'a adc_hs_scheme \<Rightarrow> (nat + backend_health option) \<times> 'a adc_hs_scheme" where
  "overrideHealth i v s =
     (case v of
        JBool h \<Rightarrow>
          (case get_backend i s of
             None \<Rightarrow> (Inl 404, s)
           | Some _ \<Rightarrow>
               let s1 = update_backend i
                          (\<lambda>b. set_health h (if h then Healthy else Unhealthy) (b\<lparr>adminDisabled := \<not> h\<rparr>)) s;
                   s2 = (case get_stats i s1 of
                           None \<Rightarrow> s1
                         | Some st \<Rightarrow> put_stats i (st\<lparr>consecutiveFailures := (if h then 0 else 3),
                                                     consecutiveSuccesses := (if h then 2 else 0)\<rparr>) s1)
               in (Inr (getBackendHealth i s2), s2))
      | _ \<Rightarrow> (Inl 400, s))"

section \<open>One completed probe\<close>

datatype fetch_outcome = Responded nat | FetchFailed string string

definition checkBackend ::
  "cb_config \<Rightarrow> time \<Rightarrow> rat \<Rightarrow> backend_id \<Rightarrow> fetch_outcome \<Rightarrow> 'a adc_hs_scheme \<Rightarrow> 'a adc_hs_scheme" where
  "checkBackend cfg now elapsed i outcome s =
     (case outcome of
        Responded st \<Rightarrow>
          if 200 \<le> st \<and> st \<le> 299
          then recordSuccess cfg now i (recordResult now i True elapsed s)
          else recordFailure cfg now i (''HTTP '' @ nat_str st) (recordResult now i False elapsed s)
      | FetchFailed name message \<Rightarrow>
          recordFailure cfg now i (if name = ''AbortError'' then ''Request timeout'' else message)
            (recordResult now i False elapsed s))"

definition probe_passed :: "fetch_outcome \<Rightarrow> bool" where
  "probe_passed outcome = (case outcome of Responded st \<Rightarrow> 200 \<le> st \<and> st \<le> 299 | _ \<Rightarrow> False)"

text \<open>\<open>checkAll\<close> starts a probe of every member; the probes complete one by one in any order.\<close>

fun checkAll ::
  "cb_config \<Rightarrow> (time \<times> rat \<times> backend_id \<times> fetch_outcome) list \<Rightarrow> 'a adc_hs_scheme \<Rightarrow> 'a adc_hs_scheme" where
  "checkAll cfg [] s = s"
| "checkAll cfg ((now, elapsed, i, outcome) # cs) s = checkAll cfg cs (checkBackend cfg now elapsed i outcome s)"

section \<open>Frames\<close>

lemma put_stats_frame [adc_frame, simp]:
  "pool (put_stats i st s) = pool s"
  "get_backend j (put_stats i st s) = get_backend j s"
  "lookup_breaker j (put_stats i st s) = lookup_breaker j s"
  by (simp_all add: put_stats_def get_backend_def lookup_breaker_def)

lemma get_put_stats [simp]:
  "get_stats j (put_stats i st s) = (if j = i then Some st else get_stats j s)"
  by (simp add: get_stats_def put_stats_def update_conv')

lemma get_stats_frame [adc_frame, simp]:
  "get_stats j (update_backend i f s) = get_stats j s"
  "get_stats j (put_breaker i br s) = get_stats j s"
  "get_stats j (logEvent now type req d s) = get_stats j s"
  "get_stats j (s\<lparr>emitted := e\<rparr>) = get_stats j s"
  by (simp_all add: get_stats_def update_backend_def put_breaker_def logEvent_def)

lemma get_stats_cb [adc_frame, simp]:
  "get_stats j (transitionTo now i br st r s) = get_stats j s"
  "get_stats j (update_breaker i f s) = get_stats j s"
  "get_stats j (snd (canExecute cfg now i s)) = get_stats j s"
  "get_stats j (recordSuccess cfg now i s) = get_stats j s"
  "get_stats j (recordFailure cfg now i e s) = get_stats j s"
  by (auto simp: transitionTo_def update_breaker_def cb_op_defs Let_def
      split: circuit_state.split option.split)

lemma bid_updateBackendHealthState [simp]: "bid (updateBackendHealthState st b) = bid b"
  by (simp add: updateBackendHealthState_def)

lemma lookup_recordResult [adc_frame, simp]:
  "lookup_breaker j (recordResult now i ok l s) = lookup_breaker j s"
  by (simp add: recordResult_def Let_def split: option.split)

lemma healthy_updateBackendHealthState:
  "healthy (updateBackendHealthState st b) \<longleftrightarrow> \<not> adminDisabled b \<and> consecutiveFailures st < 3"
  by (simp add: updateBackendHealthState_def)

lemma adminDisabled_updateBackendHealthState [simp]:
  "adminDisabled (updateBackendHealthState st b) = adminDisabled b"
  "activeConnections (updateBackendHealthState st b) = activeConnections b"
  "onDrainComplete (updateBackendHealthState st b) = onDrainComplete b"
  by (simp_all add: updateBackendHealthState_def)

lemma note_result_counts [simp]:
  "consecutiveFailures (note_result now ok l st) = (if ok then 0 else consecutiveFailures st + 1)"
  "consecutiveSuccesses (note_result now ok l st) = (if ok then consecutiveSuccesses st + 1 else 0)"
  "totalChecks (note_result now ok l st) = totalChecks st + 1"
  "successfulChecks (note_result now ok l st) = successfulChecks st + (if ok then 1 else 0)"
  by (simp_all add: note_result_def Let_def)

lemma note_result_checks:
  "checks (note_result now ok l st) =
     push_shift historyLimit \<lparr>chk_success = ok, chk_latency = l, chk_timestamp = now\<rparr> (checks st)"
  by (simp add: note_result_def Let_def)

lemma get_recordResult:
  "get_backend j (recordResult now i ok l s) =
     (case get_stats i s of
        Some st \<Rightarrow> if j = i then map_option (updateBackendHealthState (note_result now ok l st)) (get_backend i s)
                   else get_backend j s
      | None \<Rightarrow> get_backend j s)"
  by (simp add: recordResult_def Let_def get_update_backend split: option.split)

lemma get_stats_recordResult:
  "get_stats j (recordResult now i ok l s) =
     (if j = i then map_option (note_result now ok l) (get_stats i s) else get_stats j s)"
  by (simp add: recordResult_def Let_def split: option.split)


section \<open>The window and the verdict\<close>

interpretation checks_window: sliding_window "push_shift historyLimit" rev historyLimit
  by unfold_locales (simp add: push_shift_window)

definition record_results ::
  "backend_id \<Rightarrow> (time \<times> bool \<times> rat) list \<Rightarrow> 'a adc_hs_scheme \<Rightarrow> 'a adc_hs_scheme" where
  "record_results i rs s = fold (\<lambda>(now, ok, l). recordResult now i ok l) rs s"

definition note_results :: "(time \<times> bool \<times> rat) list \<Rightarrow> health_stats \<Rightarrow> health_stats" where
  "note_results rs st = fold (\<lambda>(now, ok, l). note_result now ok l) rs st"

definition as_check :: "time \<times> bool \<times> rat \<Rightarrow> check" where
  "as_check r = (case r of (now, ok, l) \<Rightarrow> \<lparr>chk_success = ok, chk_latency = l, chk_timestamp = now\<rparr>)"

definition failed_run :: "(time \<times> bool \<times> rat) list \<Rightarrow> nat" where
  "failed_run rs = length (takeWhile (\<lambda>(_, ok, _). \<not> ok) (rev rs))"

lemma get_stats_record_results:
  "get_stats i (record_results i rs s) = map_option (note_results rs) (get_stats i s)"
proof (induction rs arbitrary: s)
  case Nil
  show ?case by (cases "get_stats i s") (simp_all add: record_results_def note_results_def)
next
  case (Cons r rs)
  obtain now ok l where r: "r = (now, ok, l)" by (cases r) auto
  from Cons.IH [of "recordResult now i ok l s"] show ?case
    by (cases "get_stats i s")
      (simp_all add: r record_results_def note_results_def get_stats_recordResult)
qed

lemma note_results_failures:
  "consecutiveFailures st = 0 \<Longrightarrow> consecutiveFailures (note_results rs st) = failed_run rs"
  by (induction rs rule: rev_induct) (auto simp: note_results_def failed_run_def)

lemma note_results_checks:
  "checks (note_results rs st) = fold (push_shift historyLimit) (map as_check rs) (checks st)"
  by (induction rs arbitrary: st) (auto simp: note_results_def note_result_checks as_check_def)

lemma get_backend_record_results:
  assumes "get_backend i s = Some b" "get_stats i s = Some st"
  shows "\<exists>b'. get_backend i (record_results i rs s) = Some b' \<and> adminDisabled b' = adminDisabled b"
  using assms
proof (induction rs arbitrary: s b st)
  case (Cons r rs)
  obtain now ok l where r: "r = (now, ok, l)" by (cases r) auto
  let ?s = "recordResult now i ok l s"
  have "get_backend i ?s = Some (updateBackendHealthState (note_result now ok l st) b)"
    "get_stats i ?s = Some (note_result now ok l st)"
    using Cons.prems by (simp_all add: get_recordResult get_stats_recordResult)
  from Cons.IH [OF this] show ?case by (simp add: record_results_def r)
qed (simp add: record_results_def)

section \<open>Properties\<close>

text \<open>
  C23: the health verdict. After any non-empty series of recorded check results, a backend is in
  rotation exactly when it is not administratively disabled and the series does not end in three
  failures; its previous flags (draining or offline included) and the rule of two consecutive
  successes play no part. The window holds the newest twenty results, in order.
\<close>

theorem health_verdict:
  assumes "get_backend i s = Some b" "get_stats i s = Some st"
    and "consecutiveFailures st = 0" "length (checks st) \<le> historyLimit" "rs \<noteq> []"
  shows "(\<exists>b'. get_backend i (record_results i rs s) = Some b' \<and>
            (healthy b' \<longleftrightarrow> \<not> adminDisabled b \<and> failed_run rs < 3)) \<and>
         (\<exists>st'. get_stats i (record_results i rs s) = Some st' \<and>
            rev (checks st') = take historyLimit (rev (map as_check rs) @ rev (checks st)))"
proof -
  obtain qs r where rs: "rs = qs @ [r]" using assms(5) by (cases rs rule: rev_cases) auto
  obtain now ok l where r: "r = (now, ok, l)" by (cases r) auto
  let ?t = "record_results i qs s"
  obtain b1 where b1: "get_backend i ?t = Some b1" "adminDisabled b1 = adminDisabled b"
    using get_backend_record_results [OF assms(1,2)] by blast
  have st1: "get_stats i ?t = Some (note_results qs st)" using assms by (simp add: get_stats_record_results)
  have step: "record_results i rs s = recordResult now i ok l ?t" by (simp add: record_results_def rs r)
  have "note_results rs st = note_result now ok l (note_results qs st)"
    by (simp add: note_results_def rs r)
  then have "get_backend i (record_results i rs s) = Some (updateBackendHealthState (note_results rs st) b1)"
    using b1 st1 by (simp add: step get_recordResult)
  moreover have "rev (checks (note_results rs st)) = take historyLimit (rev (map as_check rs) @ rev (checks st))"
    using checks_window.adds_items [of "checks st" "map as_check rs"] assms(4)
    by (simp add: note_results_checks)
  ultimately show ?thesis
    using assms(2,3) b1(2)
    by (simp add: healthy_updateBackendHealthState note_results_failures get_stats_record_results)
qed

definition demo_hs :: adc_hs where
  "demo_hs = init_hstats (initBreakers 0
     \<lparr>pool = createBackendPool [''http://localhost:4001'', ''http://localhost:4002''],
      events = [], breakers = [], emitted = [], hstats = []\<rparr>)"

lemma demo_hs_facts:
  "get_backend ''backend-1'' demo_hs = Some (mk_backend 0 ''http://localhost:4001'')"
  "get_stats ''backend-1'' demo_hs = Some fresh_stats"
  by (code_simp, code_simp)

text \<open>One success after three failures is enough to rejoin.\<close>

theorem health_verdict_witness:
  "\<exists>b'. get_backend ''backend-1'' (record_results ''backend-1''
      [(0, False, 5), (1, False, 5), (2, False, 5), (3, True, 5)] demo_hs) = Some b' \<and> healthy b'"
  using health_verdict [OF demo_hs_facts, of "[(0, False, 5), (1, False, 5), (2, False, 5), (3, True, 5)]"]
  by (simp add: fresh_stats_def mk_backend_def failed_run_def)

definition trips_now :: "cb_config \<Rightarrow> cb_spec \<Rightarrow> bool" where
  "trips_now cfg v = (case v of SClosed n \<Rightarrow> failureThreshold cfg \<le> int (n + 1) | SHalf k \<Rightarrow> True | SOpen t \<Rightarrow> False)"

lemma healthy_recordSuccess:
  assumes "cb_enabled cfg" "get_backend i s = Some b"
  shows "\<exists>b'. get_backend i (recordSuccess cfg now i s) = Some b' \<and>
           (healthy b' \<longleftrightarrow> healthy b \<or> (\<forall>n. cb_abs i s \<noteq> SClosed n)) \<and>
           adminDisabled b' = adminDisabled b"
  using assms
  by (auto simp: recordSuccess_def getBreaker_def get_backend_transitionTo cb_abs_def Let_def
      split: option.split circuit_state.split)

lemma healthy_recordFailure:
  assumes "cb_enabled cfg" "get_backend i s = Some b"
  shows "\<exists>b'. get_backend i (recordFailure cfg now i e s) = Some b' \<and>
           (healthy b' \<longleftrightarrow> healthy b \<and> \<not> trips_now cfg (cb_abs i s)) \<and>
           adminDisabled b' = adminDisabled b"
  using assms
  by (auto simp: recordFailure_def getBreaker_def get_backend_transitionTo cb_abs_def trips_now_def
      Let_def split: option.split circuit_state.split)

lemma cb_abs_recordResult [simp]: "cb_abs j (recordResult now i ok l s) = cb_abs j s"
  by (simp add: cb_abs_def)

text \<open>
  What one completed probe does to the rotation. A passing probe puts the backend in rotation
  unless it is administratively disabled, and even then when its breaker was not closed; a failing
  probe leaves it in rotation exactly when it is not disabled, it has failed fewer than three times
  in a row and this failure does not trip the breaker (an already open breaker does not keep it out).
\<close>

theorem checkBackend_verdict:
  assumes "cb_enabled cfg" "get_backend i s = Some b" "get_stats i s = Some st"
  shows "\<exists>b'. get_backend i (checkBackend cfg now elapsed i outcome s) = Some b' \<and>
           (healthy b' \<longleftrightarrow>
              (if probe_passed outcome
               then \<not> adminDisabled b \<or> (\<forall>n. cb_abs i s \<noteq> SClosed n)
               else \<not> adminDisabled b \<and> consecutiveFailures st < 2 \<and> \<not> trips_now cfg (cb_abs i s)))"
proof -
  let ?ok = "probe_passed outcome"
  let ?s = "recordResult now i ?ok elapsed s"
  let ?b = "updateBackendHealthState (note_result now ?ok elapsed st) b"
  have b: "get_backend i ?s = Some ?b" using assms by (simp add: get_recordResult)
  have h: "healthy ?b \<longleftrightarrow> \<not> adminDisabled b \<and> (?ok \<or> consecutiveFailures st < 2)"
    by (auto simp: healthy_updateBackendHealthState)
  show ?thesis
  proof (cases ?ok)
    case True
    then have "checkBackend cfg now elapsed i outcome s = recordSuccess cfg now i ?s"
      by (auto simp: checkBackend_def probe_passed_def split: fetch_outcome.splits)
    with healthy_recordSuccess [OF assms(1) b, of now] h True show ?thesis by auto
  next
    case False
    then obtain e where "checkBackend cfg now elapsed i outcome s = recordFailure cfg now i e ?s"
      by (auto simp: checkBackend_def probe_passed_def split: fetch_outcome.splits if_splits)
    with healthy_recordFailure [OF assms(1) b, of now e] h False show ?thesis by auto
  qed
qed


text \<open>A draining backend whose probe passes is put back in rotation.\<close>

theorem checkBackend_verdict_witness:
  "\<exists>b'. get_backend ''backend-1'' (checkBackend demo_cfg 9 3 ''backend-1'' (Responded 200)
      (update_backend ''backend-1'' (set_health False Draining) demo_hs)) = Some b' \<and> healthy b'"
proof -
  let ?s = "update_backend ''backend-1'' (set_health False Draining) demo_hs"
  have b: "get_backend ''backend-1'' ?s = Some (set_health False Draining (mk_backend 0 ''http://localhost:4001''))"
    and st: "get_stats ''backend-1'' ?s = Some fresh_stats"
    by (simp_all add: demo_hs_facts)
  have "probe_passed (Responded 200)" by (simp add: probe_passed_def)
  with checkBackend_verdict [OF _ b st, of demo_cfg 9 3 "Responded 200"]
  show ?thesis by (simp add: demo_cfg_def mk_backend_def)
qed

definition stats_ok :: "health_stats \<Rightarrow> bool" where
  "stats_ok st \<longleftrightarrow>
     length (checks st) \<le> historyLimit \<and> successfulChecks st \<le> totalChecks st \<and>
     (\<forall>c \<in> set (checks st). 0 \<le> chk_latency c) \<and> 0 \<le> averageLatency st \<and>
     0 \<le> uptimePercentage st \<and> uptimePercentage st \<le> 100 \<and>
     (case successRate st of None \<Rightarrow> True | Some r \<Rightarrow> 0 \<le> r \<and> r \<le> 100)"

lemma ratio_bounds:
  assumes "(k::nat) \<le> n"
  shows "0 \<le> fdiv (of_nat k) (of_nat n)" "fdiv (of_nat k) (of_nat n) \<le> 1"
proof -
  have "(of_nat k :: rat) / of_nat n \<le> 1" using assms by (cases "n = 0") (simp_all add: divide_le_eq)
  then show "fdiv (of_nat k) (of_nat n) \<le> 1" by (simp add: fdiv_def ieee.r_le_1)
qed (simp add: fdiv_def ieee.r_nonneg)

lemma rate_of_bounds: "0 \<le> rate_of cs" "rate_of cs \<le> 100"
  using ratio_bounds [of "length (filter chk_success cs)" "length cs"]
  by (auto simp: rate_of_def fmul_def intro: ieee.r_nonneg ieee.r_le_numeral)

lemma uptime_of_bounds:
  assumes "k \<le> n"
  shows "0 \<le> uptime_of k n" "uptime_of k n \<le> 100"
proof -
  let ?x = "fmul (fdiv (of_nat k) (of_nat n)) 10000"
  have x: "0 \<le> ?x" "?x \<le> of_int 10000"
    using ratio_bounds [OF assms] by (auto simp: fmul_def intro: ieee.r_nonneg ieee.r_le_numeral)
  then have "0 \<le> js_round ?x" "js_round ?x \<le> 10000"
    using js_round_mono [OF x(2)] x(1) by (simp_all add: js_round_nonneg)
  then show "0 \<le> uptime_of k n" "uptime_of k n \<le> 100"
    by (auto simp: uptime_of_def fdiv_def intro!: ieee.r_nonneg ieee.r_le_numeral divide_nonneg_pos)
qed

lemma foldl_fadd_nonneg:
  "0 \<le> a \<Longrightarrow> (\<forall>c \<in> set cs. 0 \<le> g c) \<Longrightarrow> 0 \<le> foldl (\<lambda>sum c. fadd sum (g c)) a cs"
  by (induction cs arbitrary: a) (auto simp: fadd_def ieee.r_nonneg)

lemma mean_latency_nonneg: "(\<forall>c \<in> set cs. 0 \<le> chk_latency c) \<Longrightarrow> 0 \<le> mean_latency cs"
  by (simp add: mean_latency_def fdiv_def round2_nonneg ieee.r_nonneg foldl_fadd_nonneg)

lemma set_push_shift: "set (push_shift cap x xs) \<subseteq> insert x (set xs)"
  by (cases xs) (auto simp: push_shift_def Let_def)

lemma stats_ok_note_result:
  assumes "stats_ok st" "0 \<le> l"
  shows "stats_ok (note_result now ok l st)"
proof -
  let ?cs = "push_shift historyLimit \<lparr>chk_success = ok, chk_latency = l, chk_timestamp = now\<rparr> (checks st)"
  have "\<forall>c \<in> set ?cs. 0 \<le> chk_latency c"
    using assms set_push_shift by (fastforce simp: stats_ok_def)
  moreover have "length ?cs \<le> historyLimit" using assms by (simp add: stats_ok_def length_push_shift)
  moreover note uptime_of_bounds [of "successfulChecks (note_result now ok l st)" "totalChecks (note_result now ok l st)"]
  ultimately show ?thesis
    using assms(1) by (auto simp: stats_ok_def note_result_def Let_def rate_of_bounds mean_latency_nonneg)
qed

text \<open>
  The published figures stay in range. From a fresh record, after any series of results with
  non-negative latencies, the window never exceeds twenty entries, successes never exceed checks,
  and (under IEEE rounding) success rate and uptime lie in \<open>[0, 100]\<close> and the mean latency is not
  negative.
\<close>

theorem health_figures_bounded:
  assumes "\<forall>(now, ok, l) \<in> set rs. 0 \<le> l"
  shows "stats_ok (note_results rs fresh_stats)"
  using assms
proof (induction rs rule: rev_induct)
  case Nil
  show ?case by (simp add: note_results_def fresh_stats_def stats_ok_def historyLimit_def)
next
  case (snoc r rs)
  then show ?case by (auto simp: note_results_def intro: stats_ok_note_result)
qed

theorem health_figures_bounded_witness:
  "stats_ok (note_results [(7, False, 12), (8, True, 1), (9, True, 3)] fresh_stats)"
  using health_figures_bounded [of "[(7, False, 12), (8, True, 1), (9, True, 3)]"] by simp

end
