(* ===== verification/ConnectionDrain.thy ===== *)
theory ConnectionDrain
  imports HealthStore
begin

text \<open>
  \<^verbatim>\<open>src/admin/connectionDrainManager.js\<close>, and the connection counter of \<^verbatim>\<open>src/proxy/proxyMiddleware.js\<close>
  that drives it: a drained backend leaves the rotation, waits for its in-flight requests and goes
  offline when the last one ends or the deadline timer fires. A timer is its deadline, the number of
  seconds asked for and whether it is still pending; the callback \<open>onDrainComplete\<close> closes over the backend's id.
\<close>

record adc_dr = adc_hs +
  drainTimers :: "(backend_id \<times> (time \<times> int \<times> bool)) list"

datatype drain_reply = AlreadyDraining | WentOffline | DrainInitiated nat int

definition not_found :: "backend_id \<Rightarrow> string" where
  "not_found i = ''Backend with ID \"'' @ i @ ''\" not found''"

text \<open>Node runs a timer with a delay outside \<open>[1, 2^31 - 1]\<close> milliseconds after one millisecond.\<close>

definition node_delay :: "int \<Rightarrow> int" where
  "node_delay d = (if d < 1 \<or> 2147483647 < d then 1 else d)"

definition clear_timer :: "backend_id \<Rightarrow> 'a adc_dr_scheme \<Rightarrow> 'a adc_dr_scheme" where
  "clear_timer i s = s\<lparr>drainTimers := AList.delete i (drainTimers s)\<rparr>"

definition completeDrain :: "time \<Rightarrow> backend_id \<Rightarrow> string \<Rightarrow> 'a adc_dr_scheme \<Rightarrow> 'a adc_dr_scheme" where
  "completeDrain now i reason s =
     logEvent now ''backend-drain-completed'' (internal_req i ''ADMIN'')
       [(''backendId'', JStr i), (''reason'', JStr reason)]
       (update_backend i (\<lambda>b. b\<lparr>status := Offline, healthy := False, onDrainComplete := False\<rparr>)
         (clear_timer i s))"

definition drainBackend ::
  "time \<Rightarrow> backend_id \<Rightarrow> int \<Rightarrow> 'a adc_dr_scheme \<Rightarrow> (string + drain_reply) \<times> 'a adc_dr_scheme" where
  "drainBackend now i timeoutSec s =
     (case get_backend i s of
        None \<Rightarrow> (Inl (not_found i), s)
      | Some b \<Rightarrow>
          if status b = Draining then (Inr AlreadyDraining, s)
          else
            let s1 = update_backend i
                       (\<lambda>b. b\<lparr>healthy := False, status := Draining, drainStartTime := Some now\<rparr>) s;
                s2 = logEvent now ''backend-drain-started'' (internal_req i ''ADMIN'')
                       [(''backendId'', JStr i), (''activeConnections'', JNum (of_nat (activeConnections b))),
                        (''timeoutSec'', JNum (of_int timeoutSec))] s1
            in if activeConnections b = 0
               then (Inr WentOffline, completeDrain now i ''Immediate drain (0 active connections)'' s2)
               else
                 let s3 = s2\<lparr>drainTimers :=
                            AList.update i (now + node_delay (timeoutSec * 1000), timeoutSec, True) (drainTimers s2)\<rparr>;
                     s4 = update_backend i (onDrainComplete_update (\<lambda>_. True)) s3
                 in (Inr (DrainInitiated (activeConnections b) timeoutSec), s4))"

definition undrainBackend :: "backend_id \<Rightarrow> 'a adc_dr_scheme \<Rightarrow> (string + unit) \<times> 'a adc_dr_scheme" where
  "undrainBackend i s =
     (case get_backend i s of
        None \<Rightarrow> (Inl (not_found i), s)
      | Some b \<Rightarrow>
          (Inr (),
           update_backend i
             (\<lambda>b. b\<lparr>onDrainComplete := False, drainStartTime := None, status := Healthy, healthy := True\<rparr>)
             (clear_timer i s)))"

section \<open>Callbacks\<close>

text \<open>The deadline timer of \<open>i\<close>, when it is pending and due.\<close>

definition timer_due :: "time \<Rightarrow> backend_id \<Rightarrow> 'a adc_dr_scheme \<Rightarrow> bool" where
  "timer_due now i s = (case map_of (drainTimers s) i of Some (d, sec, live) \<Rightarrow> live \<and> d \<le> now | None \<Rightarrow> False)"

definition drain_expired :: "int \<Rightarrow> nat \<Rightarrow> string" where
  "drain_expired sec n =
     ''Drain timeout expired ('' @ int_str sec @ ''s) with '' @ nat_str n @ '' remaining connections''"

definition fire_timer :: "time \<Rightarrow> backend_id \<Rightarrow> 'a adc_dr_scheme \<Rightarrow> 'a adc_dr_scheme" where
  "fire_timer now i s =
     (case map_of (drainTimers s) i of
        None \<Rightarrow> s
      | Some (d, sec, live) \<Rightarrow>
          let s1 = s\<lparr>drainTimers := AList.update i (d, sec, False) (drainTimers s)\<rparr>
          in case get_backend i s1 of
               Some b \<Rightarrow> if status b = Draining then completeDrain now i (drain_expired sec (activeConnections b)) s1 else s1
             | None \<Rightarrow> s1)"

definition onDrainComplete_cb :: "time \<Rightarrow> backend_id \<Rightarrow> 'a adc_dr_scheme \<Rightarrow> 'a adc_dr_scheme" where
  "onDrainComplete_cb now i s =
     (case get_backend i s of
        Some b \<Rightarrow> if status b = Draining \<and> activeConnections b = 0
                  then completeDrain now i ''All in-flight connections completed cleanly'' s else s
      | None \<Rightarrow> s)"

section \<open>The connection counter\<close>

definition open_connection :: "backend_id \<Rightarrow> 'a adc_dr_scheme \<Rightarrow> 'a adc_dr_scheme" where
  "open_connection i s = update_backend i (\<lambda>b. b\<lparr>activeConnections := activeConnections b + 1\<rparr>) s"

text \<open>\<open>Math.max(0, (activeConnections || 1) - 1)\<close>, then the drain callback at zero.\<close>

definition decrement_connection :: "time \<Rightarrow> backend_id \<Rightarrow> 'a adc_dr_scheme \<Rightarrow> 'a adc_dr_scheme" where
  "decrement_connection now i s =
     (let s1 = update_backend i
                 (\<lambda>b. b\<lparr>activeConnections :=
                     max 0 ((if activeConnections b = 0 then 1 else activeConnections b) - 1)\<rparr>) s
      in case get_backend i s1 of
           Some b \<Rightarrow> if onDrainComplete b \<and> activeConnections b = 0 then onDrainComplete_cb now i s1 else s1
         | None \<Rightarrow> s1)"

section \<open>Frames\<close>

lemma clear_timer_frame [adc_frame, simp]:
  "pool (clear_timer i s) = pool s"
  "get_backend j (clear_timer i s) = get_backend j s"
  "map_of (drainTimers (clear_timer i s)) j = (if j = i then None else map_of (drainTimers s) j)"
  by (simp_all add: clear_timer_def get_backend_def delete_conv')

lemma get_backend_drainTimers [adc_frame, simp]:
  "get_backend j (s\<lparr>drainTimers := t\<rparr>) = get_backend j s"
  by (simp add: get_backend_def)

lemma drainTimers_frame [adc_frame, simp]:
  "drainTimers (update_backend i f s) = drainTimers s"
  "drainTimers (logEvent now type req d s) = drainTimers s"
  by (simp_all add: update_backend_def logEvent_def)

definition offline_backend :: "backend \<Rightarrow> backend" where
  "offline_backend b = b\<lparr>status := Offline, healthy := False, onDrainComplete := False\<rparr>"

lemma offline_backend_fields [simp]:
  "status (offline_backend b) = Offline"
  "healthy (offline_backend b) = False"
  "activeConnections (offline_backend b) = activeConnections b"
  "onDrainComplete (offline_backend b) = False"
  "bid (offline_backend b) = bid b"
  by (simp_all add: offline_backend_def)

lemma get_completeDrain:
  "get_backend j (completeDrain now i r s) =
     (if j = i then map_option offline_backend (get_backend i s) else get_backend j s)"
  by (simp add: completeDrain_def get_update_backend offline_backend_def [abs_def])

lemma timers_completeDrain [simp]:
  "map_of (drainTimers (completeDrain now i r s)) j = (if j = i then None else map_of (drainTimers s) j)"
  by (simp add: completeDrain_def)

lemma get_open_connection:
  "get_backend j (open_connection i s) =
     (if j = i then map_option (\<lambda>b. b\<lparr>activeConnections := activeConnections b + 1\<rparr>) (get_backend i s)
      else get_backend j s)"
  by (simp add: open_connection_def get_update_backend)

text \<open>One decrement, seen from the backend.\<close>

definition decremented :: "backend \<Rightarrow> backend" where
  "decremented b =
     (let b' = b\<lparr>activeConnections := activeConnections b - 1\<rparr>
      in if onDrainComplete b \<and> activeConnections b \<le> 1 \<and> status b = Draining then offline_backend b' else b')"

lemma get_decrement_connection:
  "get_backend j (decrement_connection now i s) =
     (if j = i then map_option decremented (get_backend i s) else get_backend j s)"
proof (cases "get_backend i s")
  case (Some b)
  have "max 0 ((if activeConnections b = 0 then 1 else activeConnections b) - 1) = activeConnections b - 1"
    by simp
  with Some show ?thesis
    by (auto simp: decrement_connection_def decremented_def onDrainComplete_cb_def Let_def
        get_completeDrain get_update_backend split: option.split)
qed (simp add: decrement_connection_def)

lemma timers_decrement_connection:
  "get_backend i s = Some b \<Longrightarrow>
   map_of (drainTimers (decrement_connection now i s)) i =
     (if onDrainComplete b \<and> activeConnections b \<le> 1 \<and> status b = Draining then None
      else map_of (drainTimers s) i)"
  by (auto simp: decrement_connection_def onDrainComplete_cb_def Let_def split: option.split)

fun decrements :: "time list \<Rightarrow> backend_id \<Rightarrow> 'a adc_dr_scheme \<Rightarrow> 'a adc_dr_scheme" where
  "decrements [] i s = s"
| "decrements (t # ts) i s = decrements ts i (decrement_connection t i s)"

section \<open>Properties\<close>

definition drained_by :: "nat \<Rightarrow> backend_id \<Rightarrow> nat \<Rightarrow> 'a adc_dr_scheme \<Rightarrow> bool" where
  "drained_by n i k s \<longleftrightarrow>
     (\<exists>b'. get_backend i s = Some b' \<and> \<not> healthy b' \<and> activeConnections b' = n - k \<and>
        status b' = (if k = n then Offline else Draining) \<and>
        (k = n \<longrightarrow> map_of (drainTimers s) i = None))"

lemma decrements_draining:
  assumes "get_backend i s = Some b" "status b = Draining" "onDrainComplete b" "\<not> healthy b"
    and "0 < activeConnections b" "length ts \<le> activeConnections b"
  shows "drained_by (activeConnections b) i (length ts) (decrements ts i s)"
  using assms
proof (induction ts arbitrary: s b)
  case Nil
  then show ?case by (simp add: drained_by_def)
next
  case (Cons t ts)
  let ?s = "decrement_connection t i s"
  have b: "get_backend i ?s = Some (decremented b)"
    using Cons.prems(1) by (simp add: get_decrement_connection)
  show ?case
  proof (cases "activeConnections b = 1")
    case True
    with Cons.prems b show ?thesis
      by (simp add: decremented_def timers_decrement_connection drained_by_def)
  next
    case False
    with Cons.prems have d: "decremented b = b\<lparr>activeConnections := activeConnections b - 1\<rparr>"
      by (simp add: decremented_def)
    have "drained_by (activeConnections b - 1) i (length ts) (decrements ts i ?s)"
      using Cons.IH [OF b] Cons.prems False by (simp add: d)
    moreover have "drained_by (activeConnections b - 1) i k u \<Longrightarrow> drained_by (activeConnections b) i (Suc k) u" for k u
      using Cons.prems(5) unfolding drained_by_def by (cases "activeConnections b") auto
    ultimately show ?thesis by simp
  qed
qed


definition demo_dr :: adc_dr where
  "demo_dr = adc_hs.extend demo_hs \<lparr>drainTimers = []\<rparr>"



lemma status_updateBackendHealthState:
  "status (updateBackendHealthState st b) \<in> {Healthy, Degraded, Unhealthy}"
  by (simp add: updateBackendHealthState_def)

lemma decrements_not_draining:
  assumes "get_backend i s = Some b" "status b \<noteq> Draining"
  shows "\<exists>b'. get_backend i (decrements ts i s) = Some b' \<and> status b' = status b \<and> healthy b' = healthy b"
  using assms
proof (induction ts arbitrary: s b)
  case (Cons t ts)
  have "get_backend i (decrement_connection t i s) = Some (decremented b)"
    using Cons.prems(1) by (simp add: get_decrement_connection)
  moreover have "decremented b = b\<lparr>activeConnections := activeConnections b - 1\<rparr>"
    using Cons.prems(2) by (simp add: decremented_def)
  ultimately show ?case using Cons.IH [of "decrement_connection t i s" "decremented b"] Cons.prems(2)
    by simp
qed simp

lemma get_stats_dr [adc_frame, simp]:
  "get_stats j (clear_timer i s) = get_stats j s"
  "get_stats j (s\<lparr>drainTimers := t\<rparr>) = get_stats j s"
  by (simp_all add: clear_timer_def get_stats_def)

lemma lookup_breaker_dr [adc_frame, simp]:
  "lookup_breaker j (clear_timer i s) = lookup_breaker j s"
  "lookup_breaker j (s\<lparr>drainTimers := t\<rparr>) = lookup_breaker j s"
  by (simp_all add: clear_timer_def lookup_breaker_def)

lemma drainBackend_frame [adc_frame]:
  "get_stats j (snd (drainBackend now i t s)) = get_stats j s"
  "lookup_breaker j (snd (drainBackend now i t s)) = lookup_breaker j s"
  by (simp_all add: drainBackend_def completeDrain_def Let_def split: option.split)

text \<open>
  C22: a passing health probe cancels a drain. If a backend with a closed breaker is drained while
  requests are in flight and one health probe passes before they end, the backend is back in
  rotation, it stays there when the requests end, and it never goes OFFLINE.
\<close>

theorem probe_cancels_drain:
  assumes "get_backend i s = Some b" "status b \<noteq> Draining" "0 < activeConnections b"
    and "\<not> adminDisabled b" "get_stats i s = Some st"
    and "lookup_breaker i s = Some br" "cbState br = CLOSED" "probe_passed outcome"
  shows "let s' = decrements ts i (checkBackend cfg t1 elapsed i outcome (snd (drainBackend now i timeoutSec s)))
         in \<exists>b'. get_backend i s' = Some b' \<and> healthy b' \<and> status b' \<in> {Healthy, Degraded}"
proof -
  let ?b = "b\<lparr>healthy := False, status := Draining, drainStartTime := Some now, onDrainComplete := True\<rparr>"
  let ?d = "snd (drainBackend now i timeoutSec s)"
  let ?r = "recordResult t1 i True elapsed ?d"
  let ?c = "checkBackend cfg t1 elapsed i outcome ?d"
  let ?u = "updateBackendHealthState (note_result t1 True elapsed st) ?b"
  have "get_backend i ?d = Some ?b" using assms by (simp add: drainBackend_def Let_def)
  then have r: "get_backend i ?r = Some ?u"
    using assms(5) by (simp add: get_recordResult drainBackend_frame)
  have "?c = recordSuccess cfg t1 i ?r"
    using assms(8) by (auto simp: checkBackend_def probe_passed_def split: fetch_outcome.splits)
  then have c: "get_backend i ?c = Some ?u"
    using r assms(6,7) by (simp add: recordSuccess_def getBreaker_def drainBackend_frame)
  have u: "healthy ?u" "status ?u \<in> {Healthy, Degraded}"
    using assms(4) by (simp_all add: updateBackendHealthState_def)
  then show ?thesis using decrements_not_draining [OF c, of ts] by (auto simp: Let_def)
qed

theorem probe_cancels_drain_witness:
  "let s' = decrements [60] ''backend-1'' (checkBackend demo_cfg 50 3 ''backend-1'' (Responded 200)
       (snd (drainBackend 40 ''backend-1'' 30 (open_connection ''backend-1'' demo_dr))))
   in \<exists>b'. get_backend ''backend-1'' s' = Some b' \<and> healthy b' \<and> status b' \<in> {Healthy, Degraded}"
proof -
  let ?s = "open_connection ''backend-1'' demo_dr"
  have "get_backend ''backend-1'' demo_dr = Some (mk_backend 0 ''http://localhost:4001'')" by code_simp
  then have b: "get_backend ''backend-1'' ?s = Some ((mk_backend 0 ''http://localhost:4001'')\<lparr>activeConnections := 1\<rparr>)"
    by (simp add: get_open_connection mk_backend_def)
  have st: "get_stats ''backend-1'' ?s = Some fresh_stats"
    and br: "lookup_breaker ''backend-1'' ?s = Some (fresh_breaker 0 ''http://localhost:4001'')"
    by (code_simp, code_simp)
  show ?thesis
    by (rule probe_cancels_drain [OF b _ _ _ st br]) (simp_all add: mk_backend_def probe_passed_def)
qed

text \<open>The safety deadline: a due timer takes a backend that is still draining offline.\<close>

lemma drain_deadline:
  assumes "get_backend i s = Some b" "status b = Draining" "timer_due now i s"
  shows "\<exists>b'. get_backend i (fire_timer now i s) = Some b' \<and> status b' = Offline \<and> \<not> healthy b' \<and>
           map_of (drainTimers (fire_timer now i s)) i = None"
  using assms
  by (auto simp: timer_due_def fire_timer_def get_completeDrain Let_def split: option.splits)

lemma undrain_restores:
  assumes "get_backend i s = Some b"
  shows "fst (undrainBackend i s) = Inr () \<and>
         get_backend i (snd (undrainBackend i s)) =
           Some (b\<lparr>onDrainComplete := False, drainStartTime := None, status := Healthy, healthy := True\<rparr>) \<and>
         map_of (drainTimers (snd (undrainBackend i s))) i = None"
  using assms by (simp add: undrainBackend_def)

end
