(* ===== verification/Metrics.thy ===== *)
theory Metrics
  imports ConnectionDrain
begin

text \<open>
  \<^verbatim>\<open>src/metrics/metricsStore.js\<close> and \<^verbatim>\<open>src/metrics/metricsCollector.js\<close>: the last minute of traffic per
  backend (at most 100 transactions) and the performance score from 0 to 100 that the weighted and
  least-connections strategies read. Latencies are non-negative (\<open>elapsedMs\<close>).
\<close>

record tx =
  tx_latency :: rat
  tx_error :: bool
  tx_timestamp :: time

record adc_mt = adc_dr +
  history :: "(backend_id \<times> tx list) list"

definition metricsWindowMs :: int where
  "metricsWindowMs = 60000"

definition metricsLimit :: nat where
  "metricsLimit = 100"

definition init_history :: "'a adc_mt_scheme \<Rightarrow> 'a adc_mt_scheme" where
  "init_history s = s\<lparr>history := map (\<lambda>b. (bid b, [])) (pool s)\<rparr>"

definition get_history :: "backend_id \<Rightarrow> 'a adc_mt_scheme \<Rightarrow> tx list option" where
  "get_history i s = map_of (history s) i"

definition put_history :: "backend_id \<Rightarrow> tx list \<Rightarrow> 'a adc_mt_scheme \<Rightarrow> 'a adc_mt_scheme" where
  "put_history i l s = s\<lparr>history := AList.update i l (history s)\<rparr>"

definition trim_history :: "time \<Rightarrow> tx list \<Rightarrow> tx list" where
  "trim_history now l =
     (let cutoff = now - metricsWindowMs;
          filtered = filter (\<lambda>t. cutoff < tx_timestamp t) l
      in if metricsLimit < length filtered then drop (length filtered - metricsLimit) filtered else filtered)"

definition cleanup :: "time \<Rightarrow> backend_id \<Rightarrow> 'a adc_mt_scheme \<Rightarrow> 'a adc_mt_scheme" where
  "cleanup now i s =
     (case get_history i s of None \<Rightarrow> s | Some l \<Rightarrow> put_history i (trim_history now l) s)"

definition recordTransaction ::
  "time \<Rightarrow> backend_id \<Rightarrow> rat \<Rightarrow> bool \<Rightarrow> 'a adc_mt_scheme \<Rightarrow> 'a adc_mt_scheme" where
  "recordTransaction now i latency err s =
     (case get_history i s of
        None \<Rightarrow> s
      | Some l \<Rightarrow>
          cleanup now i (put_history i (l @ [\<lparr>tx_latency = latency, tx_error = err, tx_timestamp = now\<rparr>]) s))"

definition calculateScore :: "bool \<Rightarrow> rat \<Rightarrow> rat \<Rightarrow> nat \<Rightarrow> int" where
  "calculateScore is_healthy avgLatency errorRate active =
     (if \<not> is_healthy then 0
      else
        let score = 100;
            latencyPenalty = min 40 (fdiv avgLatency 10);
            score = fsub score latencyPenalty;
            errorPenalty = fmul (fdiv errorRate 100) 50;
            score = fsub score errorPenalty;
            connPenalty = min 30 (of_nat (active * 5));
            score = fsub score connPenalty
        in max 0 (js_round score))"

record metrics =
  m_id :: backend_id
  m_url :: string
  m_healthy :: bool
  m_status :: health_status
  m_requestCount :: nat
  m_averageLatency :: rat
  m_errorRate :: rat
  m_activeConnections :: nat
  m_score :: int

definition tx_mean :: "tx list \<Rightarrow> rat" where
  "tx_mean l =
     (if l = [] then 0
      else round2 (fdiv (foldl (\<lambda>sum t. fadd sum (tx_latency t)) 0 l) (of_nat (length l))))"

definition tx_error_rate :: "tx list \<Rightarrow> rat" where
  "tx_error_rate l = (if l = [] then 0 else uptime_of (length (filter tx_error l)) (length l))"

definition getBackendMetrics ::
  "time \<Rightarrow> backend_id \<Rightarrow> 'a adc_mt_scheme \<Rightarrow> metrics option \<times> 'a adc_mt_scheme" where
  "getBackendMetrics now i s =
     (let s = cleanup now i s in
      case (get_backend i s, get_history i s) of
        (Some b, Some l) \<Rightarrow>
          (Some \<lparr>m_id = i, m_url = url b, m_healthy = healthy b, m_status = status b,
                 m_requestCount = length l, m_averageLatency = tx_mean l,
                 m_errorRate = tx_error_rate l, m_activeConnections = activeConnections b,
                 m_score = calculateScore (healthy b) (tx_mean l) (tx_error_rate l) (activeConnections b)\<rparr>, s)
      | _ \<Rightarrow> (None, s))"

fun getAllMetrics_loop :: "time \<Rightarrow> backend_id list \<Rightarrow> 'a adc_mt_scheme \<Rightarrow> metrics option list \<times> 'a adc_mt_scheme" where
  "getAllMetrics_loop now [] s = ([], s)"
| "getAllMetrics_loop now (i # is) s =
     (let (m, s) = getBackendMetrics now i s; (ms, s) = getAllMetrics_loop now is s in (m # ms, s))"

definition getAllMetrics :: "time \<Rightarrow> 'a adc_mt_scheme \<Rightarrow> metrics option list \<times> 'a adc_mt_scheme" where
  "getAllMetrics now s = getAllMetrics_loop now (ids s) s"

text \<open>
  \<open>collectProxyResponse\<close> and \<open>collectProxyError\<close>: nothing is recorded without a selected backend or
  a start time. \<open>nowNs\<close> is the high-resolution clock.
\<close>

definition collectProxyResponse ::
  "time \<Rightarrow> int \<Rightarrow> backend_id option \<Rightarrow> int option \<Rightarrow> nat \<Rightarrow> 'a adc_mt_scheme \<Rightarrow> 'a adc_mt_scheme" where
  "collectProxyResponse now nowNs backendId startTime statusCode s =
     (case (backendId, startTime) of
        (Some i, Some t) \<Rightarrow> recordTransaction now i (elapsedMs nowNs t) (500 \<le> statusCode) s
      | _ \<Rightarrow> s)"

definition collectProxyError ::
  "time \<Rightarrow> int \<Rightarrow> backend_id option \<Rightarrow> int option \<Rightarrow> 'a adc_mt_scheme \<Rightarrow> 'a adc_mt_scheme" where
  "collectProxyError now nowNs backendId startTime s =
     (case (backendId, startTime) of
        (Some i, Some t) \<Rightarrow> recordTransaction now i (elapsedMs nowNs t) True s
      | _ \<Rightarrow> s)"

section \<open>Frames\<close>

lemma put_history_frame [adc_frame, simp]:
  "pool (put_history i l s) = pool s"
  "get_backend j (put_history i l s) = get_backend j s"
  "get_history j (put_history i l s) = (if j = i then Some l else get_history j s)"
  "lookup_breaker j (put_history i l s) = lookup_breaker j s"
  by (simp_all add: put_history_def get_backend_def get_history_def update_conv' lookup_breaker_def)

lemma cleanup_frame [adc_frame, simp]:
  "pool (cleanup now i s) = pool s"
  "get_backend j (cleanup now i s) = get_backend j s"
  "lookup_breaker j (cleanup now i s) = lookup_breaker j s"
  by (simp_all add: cleanup_def split: option.split)

lemma get_history_cleanup:
  "get_history j (cleanup now i s) = (if j = i then map_option (trim_history now) (get_history i s) else get_history j s)"
  by (simp add: cleanup_def split: option.split)

lemma getBackendMetrics_frame [adc_frame, simp]:
  "pool (snd (getBackendMetrics now i s)) = pool s"
  "get_backend j (snd (getBackendMetrics now i s)) = get_backend j s"
  "lookup_breaker j (snd (getBackendMetrics now i s)) = lookup_breaker j s"
  by (simp_all add: getBackendMetrics_def Let_def split: option.split)

lemma recordTransaction_frame [adc_frame, simp]:
  "pool (recordTransaction now i l e s) = pool s"
  "get_backend j (recordTransaction now i l e s) = get_backend j s"
  "lookup_breaker j (recordTransaction now i l e s) = lookup_breaker j s"
  by (simp_all add: recordTransaction_def split: option.split)

lemma collect_frame [adc_frame, simp]:
  "pool (collectProxyResponse now ns b t c s) = pool s"
  "pool (collectProxyError now ns b t s) = pool s"
  by (simp_all add: collectProxyResponse_def collectProxyError_def split: option.split)

section \<open>The window\<close>

lemma trim_history_last:
  "trim_history now l =
     (let f = filter (\<lambda>t. now - metricsWindowMs < tx_timestamp t) l in drop (length f - metricsLimit) f)"
  by (simp add: trim_history_def Let_def)

lemma length_trim_history: "length (trim_history now l) \<le> metricsLimit"
  by (simp add: trim_history_last Let_def)

lemma trim_history_recent: "t \<in> set (trim_history now l) \<Longrightarrow> now - metricsWindowMs < tx_timestamp t"
  by (auto simp: trim_history_last Let_def dest: in_set_dropD)

lemma trim_history_idem: "trim_history now (trim_history now l) = trim_history now l"
proof -
  have "filter (\<lambda>t. now - metricsWindowMs < tx_timestamp t) (trim_history now l) = trim_history now l"
    using trim_history_recent by (simp add: filter_id_conv)
  then show ?thesis using length_trim_history [of now l] by (subst trim_history_last) (simp add: Let_def)
qed

section \<open>Properties\<close>

lemma fsub_le_100: "x \<le> 100 \<Longrightarrow> 0 \<le> y \<Longrightarrow> fsub x y \<le> 100"
  unfolding fsub_def by (rule ieee.r_le_numeral) simp_all

text \<open>
  C25: the performance score. It is an integer from 0 to 100, 0 for a backend out of rotation, and
  never rises with latency, error rate or concurrency, rounding errors included.
\<close>

theorem score_bounded_antitone:
  assumes "0 \<le> lat" "0 \<le> err" "lat \<le> lat'" "err \<le> err'" "c \<le> c'"
  shows "calculateScore h lat err c \<in> {0..100} \<and> calculateScore False lat err c = 0 \<and>
         calculateScore h lat' err' c' \<le> calculateScore h lat err c"
proof -
  let ?raw = "\<lambda>l e (n::nat). fsub (fsub (fsub 100 (min 40 (fdiv l 10))) (fmul (fdiv e 100) 50)) (min 30 (of_nat (n * 5)))"
  have pos: "0 \<le> fdiv lat 10" "0 \<le> fmul (fdiv err 100) 50"
    using assms by (simp_all add: fdiv_def fmul_def ieee.r_nonneg)
  have "?raw lat err c \<le> 100" using pos by (intro fsub_le_100) auto
  then have "js_round (?raw lat err c) \<le> 100" using js_round_mono [of _ 100] by fastforce
  moreover have "?raw lat' err' c' \<le> ?raw lat err c"
    using assms by (intro fsub_mono min.mono fdiv_mono_left fmul_mono_left) auto
  then have "js_round (?raw lat' err' c') \<le> js_round (?raw lat err c)" by (rule js_round_mono)
  ultimately show ?thesis by (auto simp: calculateScore_def Let_def le_max_iff_disj)
qed

theorem score_bounded_antitone_witness:
  "calculateScore True 120 2 3 \<in> {0..100} \<and> calculateScore True 250 10 4 \<le> calculateScore True 120 2 3 \<and>
   calculateScore True 120 2 3 = 72"
proof -
  have "calculateScore True 120 2 3 = 72" by code_simp
  then show ?thesis using score_bounded_antitone [of 120 2 250 10 3 4 True] by simp
qed

fun record_all :: "backend_id \<Rightarrow> (time \<times> rat \<times> bool) list \<Rightarrow> 'a adc_mt_scheme \<Rightarrow> 'a adc_mt_scheme" where
  "record_all i [] s = s"
| "record_all i ((now, l, e) # ts) s = record_all i ts (recordTransaction now i l e s)"

lemma get_history_recordTransaction:
  "get_history i (recordTransaction now i l e s) =
     map_option (\<lambda>h. trim_history now (h @ [\<lparr>tx_latency = l, tx_error = e, tx_timestamp = now\<rparr>])) (get_history i s)"
  by (simp add: recordTransaction_def get_history_cleanup split: option.split)

lemma record_all_bounded:
  "get_history i s = Some h \<Longrightarrow> length h \<le> metricsLimit \<Longrightarrow>
   \<exists>h'. get_history i (record_all i ts s) = Some h' \<and> length h' \<le> metricsLimit"
proof (induction ts arbitrary: s h)
  case (Cons t ts)
  obtain now l e where t: "t = (now, l, e)" by (cases t) auto
  have "get_history i (recordTransaction now i l e s) =
      Some (trim_history now (h @ [\<lparr>tx_latency = l, tx_error = e, tx_timestamp = now\<rparr>]))"
    using Cons.prems by (simp add: get_history_recordTransaction)
  from Cons.IH [OF this length_trim_history] show ?case by (simp add: t)
qed simp

text \<open>
  The traffic window. After any series of recorded transactions a backend's history holds at
  most 100 entries, and after a read at time \<open>now\<close> only entries of the last 60 seconds; the published
  error rate is within \<open>[0, 100]\<close>.
\<close>

theorem traffic_window:
  assumes "get_history i s = Some []" "get_backend i s = Some b"
  shows "(\<exists>h. get_history i (record_all i ts s) = Some h \<and> length h \<le> 100) \<and>
         (\<exists>m h. fst (getBackendMetrics now i (record_all i ts s)) = Some m \<and>
            get_history i (snd (getBackendMetrics now i (record_all i ts s))) = Some h \<and>
            m_requestCount m = length h \<and> length h \<le> 100 \<and>
            (\<forall>t \<in> set h. now - 60000 < tx_timestamp t) \<and> 0 \<le> m_errorRate m \<and> m_errorRate m \<le> 100)"
proof -
  obtain h where h: "get_history i (record_all i ts s) = Some h" "length h \<le> 100"
    using record_all_bounded [OF assms(1)] by (auto simp: metricsLimit_def)
  have "pool (record_all i ts s) = pool s"
    by (induction ts arbitrary: s) auto
  then have "get_backend i (record_all i ts s) = Some b" using assms(2) by (simp add: get_backend_def)
  moreover have "0 \<le> tx_error_rate l" "tx_error_rate l \<le> 100" for l
    using uptime_of_bounds [of "length (filter tx_error l)" "length l"] by (simp_all add: tx_error_rate_def)
  moreover have "length (trim_history now h) \<le> 100"
    using length_trim_history [of now h] by (simp add: metricsLimit_def)
  moreover have "\<forall>t \<in> set (trim_history now h). now - 60000 < tx_timestamp t"
    using trim_history_recent [of _ now h] by (simp add: metricsWindowMs_def)
  ultimately show ?thesis
    using h by (simp add: getBackendMetrics_def get_history_cleanup)
qed

definition demo_mt :: adc_mt where
  "demo_mt = init_history (adc_dr.extend demo_dr \<lparr>history = []\<rparr>)"

theorem traffic_window_witness:
  "\<exists>h. get_history ''backend-1'' (record_all ''backend-1'' [(100, 7, False), (200, 9, True)] demo_mt) = Some h \<and>
       length h \<le> 100"
proof -
  have h: "get_history ''backend-1'' demo_mt = Some []"
    and b: "get_backend ''backend-1'' demo_mt = Some (mk_backend 0 ''http://localhost:4001'')"
    by (code_simp, code_simp)
  show ?thesis using traffic_window [OF h b, of "[(100, 7, False), (200, 9, True)]" 300] by blast
qed

end
