(* ===== verification/StrategyBase.thy ===== *)
theory StrategyBase
  imports Metrics
begin

text \<open>
  What the five load-balancing strategies share: the state their singleton instances keep
  (\<open>adc_lb\<close>), the data behind the human-readable \<open>req._lbReason\<close>, and the contract \<open>lb_strategy\<close>
  the routing engine relies on. A strategy returns \<open>None\<close> where the code yields \<open>undefined\<close> or
  throws; an index that has become NaN is \<open>None\<close>.
\<close>

datatype lb_reason =
    RoundRobinReason nat
  | LeastConnectionsReason nat int
  | WeightedReason int nat int
  | WeightedFallbackReason
  | IpHashReason string int nat
  | ConsistentHashReason string nat backend_id nat nat
  | DynamicSelection

record adc_lb = adc_mt +
  rrIndex :: "nat option"
  wrrIndex :: "int option"
  wrrWeight :: int

text \<open>
  \<open>select\<close> takes the candidates as the current objects of the pool. From a good state and at least
  one candidate it returns a candidate, leaves the state good and does not touch the pool.
\<close>

locale lb_strategy =
  fixes select :: "time \<Rightarrow> 'r request_scheme \<Rightarrow> backend list \<Rightarrow> 's \<Rightarrow> (backend \<times> lb_reason) option \<times> 's"
    and good :: "'s \<Rightarrow> bool"
    and pool_of :: "'s \<Rightarrow> backend list"
  assumes select_candidate:
    "bs \<noteq> [] \<Longrightarrow> good s \<Longrightarrow>
     \<exists>b r s'. select now req bs s = (Some (b, r), s') \<and> b \<in> set bs \<and> good s' \<and> pool_of s' = pool_of s"
begin

lemma select_defined: "bs \<noteq> [] \<Longrightarrow> good s \<Longrightarrow> fst (select now req bs s) \<noteq> None"
  using select_candidate [of bs s now req] by auto

lemma select_member:
  "bs \<noteq> [] \<Longrightarrow> good s \<Longrightarrow> fst (select now req bs s) = Some (b, r) \<Longrightarrow> b \<in> set bs"
  using select_candidate [of bs s now req] by auto

lemma select_good: "bs \<noteq> [] \<Longrightarrow> good s \<Longrightarrow> good (snd (select now req bs s))"
  using select_candidate [of bs s now req] by auto

lemma select_pool: "bs \<noteq> [] \<Longrightarrow> good s \<Longrightarrow> pool_of (snd (select now req bs s)) = pool_of s"
  using select_candidate [of bs s now req] by auto

lemma select_only:
  "good s \<Longrightarrow> fst (map_prod (map_option fst) id (select now req [b] s)) = Some b"
  using select_candidate [of "[b]" s now req] by auto

end

definition lb_good :: "'a adc_lb_scheme \<Rightarrow> bool" where
  "lb_good s \<longleftrightarrow> rrIndex s \<noteq> None \<and> (case wrrIndex s of Some i \<Rightarrow> -1 \<le> i | None \<Rightarrow> False)"

lemma lb_good_iff: "lb_good s \<longleftrightarrow> rrIndex s \<noteq> None \<and> (\<exists>i. wrrIndex s = Some i \<and> -1 \<le> i)"
  by (auto simp: lb_good_def split: option.splits)

definition init_lb :: "'a adc_lb_scheme \<Rightarrow> 'a adc_lb_scheme" where
  "init_lb s = s\<lparr>rrIndex := Some 0, wrrIndex := Some (-1), wrrWeight := 0\<rparr>"

lemma lb_good_init [adc_inv]: "lb_good (init_lb s)"
  by (simp add: lb_good_iff init_lb_def)

lemma lb_frame [adc_frame, simp]:
  "rrIndex (put_history i l s) = rrIndex s"
  "wrrIndex (put_history i l s) = wrrIndex s"
  "wrrWeight (put_history i l s) = wrrWeight s"
  by (simp_all add: put_history_def)

lemma lb_cleanup_frame [adc_frame, simp]:
  "rrIndex (cleanup now i s) = rrIndex s"
  "wrrIndex (cleanup now i s) = wrrIndex s"
  "wrrWeight (cleanup now i s) = wrrWeight s"
  by (simp_all add: cleanup_def split: option.split)

lemma lb_metrics_frame [adc_frame, simp]:
  "rrIndex (snd (getBackendMetrics now i s)) = rrIndex s"
  "wrrIndex (snd (getBackendMetrics now i s)) = wrrIndex s"
  "wrrWeight (snd (getBackendMetrics now i s)) = wrrWeight s"
  by (simp_all add: getBackendMetrics_def Let_def split: option.split)

section \<open>Scores read by the strategies\<close>

text \<open>\<open>metrics ? metrics.score : 100\<close>, with the clean-up the read performs.\<close>

definition read_score :: "time \<Rightarrow> backend_id \<Rightarrow> 'a adc_mt_scheme \<Rightarrow> int \<times> 'a adc_mt_scheme" where
  "read_score now i s =
     (let (m, s) = getBackendMetrics now i s in (case m of Some m \<Rightarrow> m_score m | None \<Rightarrow> 100, s))"

definition score_of :: "time \<Rightarrow> 'a adc_mt_scheme \<Rightarrow> backend_id \<Rightarrow> int" where
  "score_of now s i = fst (read_score now i s)"

fun read_scores :: "time \<Rightarrow> backend_id list \<Rightarrow> 'a adc_mt_scheme \<Rightarrow> int list \<times> 'a adc_mt_scheme" where
  "read_scores now [] s = ([], s)"
| "read_scores now (i # is) s =
     (let (sc, s) = read_score now i s; (scs, s) = read_scores now is s in (sc # scs, s))"

lemma read_score_frame [adc_frame, simp]:
  "pool (snd (read_score now i s)) = pool s"
  "get_backend j (snd (read_score now i s)) = get_backend j s"
  by (simp_all add: read_score_def case_prod_unfold Let_def)

lemma lb_read_score_frame [adc_frame, simp]:
  "rrIndex (snd (read_score now i s)) = rrIndex s"
  "wrrIndex (snd (read_score now i s)) = wrrIndex s"
  "wrrWeight (snd (read_score now i s)) = wrrWeight s"
  by (simp_all add: read_score_def case_prod_unfold Let_def)

text \<open>Reading one score does not change another: the clean-up is idempotent and per backend.\<close>

lemma score_of_read [simp]: "score_of now (snd (read_score now j s)) i = score_of now s i"
proof -
  have "get_history i (cleanup now i (cleanup now j s)) = get_history i (cleanup now i s)"
    by (auto simp: get_history_cleanup trim_history_idem option.map_comp comp_def)
  then show ?thesis
    by (simp add: score_of_def read_score_def getBackendMetrics_def Let_def case_prod_unfold
        split: option.split)
qed

lemma read_scores_fst: "fst (read_scores now is s) = map (score_of now s) is"
proof (induction "is" arbitrary: s)
  case (Cons i "is")
  have "score_of now (snd (read_score now i s)) = score_of now s" by (rule ext) simp
  then show ?case using Cons [of "snd (read_score now i s)"]
    by (simp add: case_prod_unfold Let_def score_of_def [of now s i])
qed simp

lemma read_scores_frame [adc_frame, simp]:
  "pool (snd (read_scores now is s)) = pool s"
  by (induction "is" arbitrary: s) (simp_all add: case_prod_unfold Let_def)

lemma lb_read_scores_frame [adc_frame, simp]:
  "rrIndex (snd (read_scores now is s)) = rrIndex s"
  "wrrIndex (snd (read_scores now is s)) = wrrIndex s"
  "wrrWeight (snd (read_scores now is s)) = wrrWeight s"
  by (induction "is" arbitrary: s) (simp_all add: case_prod_unfold Let_def)

lemma calculateScore_nonneg: "0 \<le> calculateScore h l e c"
  by (simp add: calculateScore_def Let_def)

lemma score_of_nonneg: "0 \<le> score_of now s i"
  by (auto simp: score_of_def read_score_def getBackendMetrics_def Let_def case_prod_unfold
      calculateScore_nonneg split: option.split)

end
