(* ===== verification/RoundRobin.thy ===== *)
theory RoundRobin
  imports StrategyBase "HOL-Library.Multiset"
begin

text \<open>
  \<^verbatim>\<open>src/routing/strategies/roundRobin.js\<close> and \<^verbatim>\<open>src/routing/strategies/ipHash.js\<close>: the cyclic counter and
  the client-address hash, both reduced modulo the number of candidates.
\<close>

definition rr_select ::
  "time \<Rightarrow> 'r request_scheme \<Rightarrow> backend list \<Rightarrow> 'a adc_lb_scheme \<Rightarrow> (backend \<times> lb_reason) option \<times> 'a adc_lb_scheme" where
  "rr_select now req bs s =
     (case rrIndex s of
        None \<Rightarrow> (None, s)
      | Some index \<Rightarrow>
          if bs = [] then (None, s\<lparr>rrIndex := None\<rparr>)
          else
            let selected = bs ! (index mod length bs);
                index' = (index + 1) mod length bs
            in (Some (selected, RoundRobinReason index'), s\<lparr>rrIndex := Some index'\<rparr>))"

definition ipHash_select ::
  "time \<Rightarrow> 'r request_scheme \<Rightarrow> backend list \<Rightarrow> 'a adc_lb_scheme \<Rightarrow> (backend \<times> lb_reason) option \<times> 'a adc_lb_scheme" where
  "ipHash_select now req bs s =
     (let clientIp = getClientIp req;
          hashValue = simpleHash clientIp;
          index = nat hashValue mod length bs
      in if bs = [] then (None, s)
         else (Some (bs ! index, IpHashReason clientIp hashValue index), s))"

interpretation rr: lb_strategy rr_select lb_good pool
  by unfold_locales (auto simp: rr_select_def lb_good_iff Let_def)

interpretation iph: lb_strategy ipHash_select lb_good pool
  by unfold_locales (auto simp: ipHash_select_def Let_def)

section \<open>Fairness of round robin\<close>

text \<open>The backends chosen by \<open>n\<close> consecutive calls with the same candidates.\<close>

fun rr_run :: "nat \<Rightarrow> time \<Rightarrow> 'r request_scheme \<Rightarrow> backend list \<Rightarrow> 'a adc_lb_scheme \<Rightarrow> backend list" where
  "rr_run 0 now req bs s = []"
| "rr_run (Suc n) now req bs s =
     (case rr_select now req bs s of
        (Some (b, r), s') \<Rightarrow> b # rr_run n now req bs s'
      | (None, s') \<Rightarrow> rr_run n now req bs s')"

lemma rr_run_nth:
  assumes "bs \<noteq> []" "rrIndex s = Some k"
  shows "rr_run n now req bs s = map (\<lambda>j. bs ! ((k + j) mod length bs)) [0..<n]"
  using assms(2)
proof (induction n arbitrary: s k)
  case (Suc n)
  let ?s = "s\<lparr>rrIndex := Some ((k + 1) mod length bs)\<rparr>"
  have "((k + 1) mod length bs + j) mod length bs = (k + Suc j) mod length bs" for j
    by (simp add: mod_add_left_eq)
  then have "rr_run n now req bs ?s = map (\<lambda>j. bs ! ((k + Suc j) mod length bs)) [0..<n]"
    using Suc.IH [of ?s] by simp
  then show ?case
    using Suc.prems assms(1) by (simp add: rr_select_def Let_def map_upt_Suc del: upt_Suc)
qed simp

lemma mset_rotate1: "mset (rotate1 xs) = mset xs"
  by (cases xs) simp_all

lemma mset_rotate: "mset (rotate k xs) = mset xs"
  by (induction k) (simp_all add: mset_rotate1)

lemma mset_rotation: "mset (map (\<lambda>j. xs ! ((k + j) mod length xs)) [0..<length xs]) = mset xs"
proof -
  have "map (\<lambda>j. xs ! ((k + j) mod length xs)) [0..<length xs] = rotate k xs"
    by (rule nth_equalityI) (simp_all add: nth_rotate)
  then show ?thesis by (simp only: mset_rotate)
qed

lemma upt_round: "[0..<Suc m * n] = [0..<m * n] @ map (\<lambda>j. j + m * n) [0..<n]"
  using upt_add_eq_append [of 0 "m * n" n] by (simp add: map_add_upt add.commute)

lemma mset_rounds:
  "mset (map (\<lambda>j. xs ! ((k + j) mod length xs)) [0..<m * length xs]) = repeat_mset m (mset xs)"
proof (induction m)
  case (Suc m)
  let ?f = "\<lambda>j. xs ! ((k + j) mod length xs)"
  have "?f (j + m * length xs) = ?f j" for j
    by (metis add.assoc mod_mult_self1)
  then have "map ?f [0..<Suc m * length xs] = map ?f [0..<m * length xs] @ map ?f [0..<length xs]"
    by (simp only: upt_round map_append map_map comp_def)
  then have "mset (map ?f [0..<Suc m * length xs]) = repeat_mset m (mset xs) + mset xs"
    by (simp only: mset_append Suc mset_rotation)
  then show ?case by (simp only: repeat_mset_Suc add.commute)
qed simp

text \<open>
  C24: round robin is fair. Over any \<open>m\<close> full rounds of requests with the same candidates every
  candidate is chosen exactly \<open>m\<close> times, wherever the counter stood (even beyond the end of a pool
  that has shrunk), and the counter always ends within the pool.
\<close>

theorem round_robin_fair:
  assumes "bs \<noteq> []" "rrIndex s = Some k"
  shows "mset (rr_run (m * length bs) now req bs s) = repeat_mset m (mset bs) \<and>
         (\<exists>k'. rrIndex (snd (rr_select now req bs s)) = Some k' \<and> k' < length bs)"
proof
  show "mset (rr_run (m * length bs) now req bs s) = repeat_mset m (mset bs)"
    unfolding rr_run_nth [OF assms] by (rule mset_rounds)
qed (use assms in \<open>simp add: rr_select_def Let_def\<close>)

definition demo_lb :: adc_lb where
  "demo_lb = init_lb (adc_mt.extend demo_mt \<lparr>rrIndex = None, wrrIndex = None, wrrWeight = 0\<rparr>)"

definition demo_req :: request where
  "demo_req = \<lparr>headers = [(''x-forwarded-for'', ''203.0.113.195, 10.0.0.1''), (''host'', ''adc'')],
     remoteAddress = Some ''127.0.0.1'', req_ip = None, http_method = Some ''GET'',
     originalUrl = Some ''/'', req_path = ''/''\<rparr>"

theorem round_robin_fair_witness:
  "mset (rr_run 6 0 demo_req (pool demo_lb) (demo_lb\<lparr>rrIndex := Some 7\<rparr>)) = repeat_mset 3 (mset (pool demo_lb))"
proof -
  have "length (pool demo_lb) = 2" by code_simp
  then show ?thesis
    using round_robin_fair [of "pool demo_lb" "demo_lb\<lparr>rrIndex := Some 7\<rparr>" 7 3 0 demo_req] by fastforce
qed

text \<open>
  Session affinity of IP hash. Two requests with the same client address and the same
  candidates are sent to the same backend, whatever the state of the gateway, and the index is
  always within the candidates.
\<close>

theorem ip_hash_sticky:
  assumes "bs \<noteq> []" "getClientIp r1 = getClientIp r2"
  shows "fst (ipHash_select t1 r1 bs s1) = fst (ipHash_select t2 r2 bs s2) \<and>
         (\<exists>b h i. fst (ipHash_select t1 r1 bs s1) = Some (b, IpHashReason (getClientIp r1) h i) \<and>
            i < length bs \<and> b = bs ! i)"
  using assms by (simp add: ipHash_select_def Let_def)

theorem ip_hash_sticky_witness:
  "fst (ipHash_select 0 demo_req (pool demo_lb) demo_lb) =
   fst (ipHash_select 5 (demo_req\<lparr>remoteAddress := Some ''10.9.8.7''\<rparr>) (pool demo_lb) (demo_lb\<lparr>rrIndex := None\<rparr>))"
proof -
  have "pool demo_lb \<noteq> []" by code_simp
  moreover have "getClientIp demo_req = getClientIp (demo_req\<lparr>remoteAddress := Some ''10.9.8.7''\<rparr>)"
    by code_simp
  ultimately show ?thesis by (blast dest: ip_hash_sticky)
qed

end
