(* ===== verification/WeightedRR.thy ===== *)
theory WeightedRR
  imports RoundRobin
begin

text \<open>
  \<^verbatim>\<open>src/routing/strategies/weightedRoundRobin.js\<close>: the classic LVS weighted round robin over virtual
  weights, the configured weight scaled by the performance score. The \<open>while (true)\<close> loop is a
  partial function whose \<open>None\<close> means that it never returns; \<open>wrr_loop_returns\<close> shows that it
  always does on the weights the strategy builds.
\<close>

section \<open>The helpers\<close>

function js_gcd :: "nat \<Rightarrow> nat \<Rightarrow> nat" where
  "js_gcd a b = (if b = 0 then a else js_gcd b (a mod b))"
  by auto
termination by (relation "measure snd") auto

declare js_gcd.simps [simp del]

definition getGcdOfWeights :: "nat list \<Rightarrow> nat" where
  "getGcdOfWeights ws =
     foldl (\<lambda>result w. js_gcd result (if w = 0 then 1 else w))
       (case ws of [] \<Rightarrow> 1 | w # _ \<Rightarrow> if w = 0 then 1 else w) (tl ws)"

definition getMaxWeight :: "nat list \<Rightarrow> nat" where
  "getMaxWeight ws = foldl (\<lambda>mx w. if mx < w then w else mx) 0 ws"

text \<open>\<open>Math.max(1, Math.round((backend.weight || 1) * (score / 100)))\<close>.\<close>

definition dynamicWeight :: "nat \<Rightarrow> int \<Rightarrow> nat" where
  "dynamicWeight w score =
     nat (max 1 (js_round (fmul (of_nat (if w = 0 then 1 else w)) (fdiv (of_int score) 100))))"

lemma js_gcd: "js_gcd a b = gcd a b"
proof (induction a b rule: js_gcd.induct)
  case (1 a b)
  show ?case
  proof (cases "b = 0")
    case True
    then show ?thesis by (subst js_gcd.simps) simp
  next
    case False
    with 1 show ?thesis by (subst js_gcd.simps) (simp add: gcd_red_nat [of a b])
  qed
qed

lemma dynamicWeight_pos: "0 < dynamicWeight w score"
  by (simp add: dynamicWeight_def)

lemma getMaxWeight_foldl:
  "mx \<le> foldl (\<lambda>mx w. if mx < w then w else mx) mx ws \<and>
   (\<forall>w \<in> set ws. w \<le> foldl (\<lambda>mx w. if mx < w then w else mx) mx ws) \<and>
   foldl (\<lambda>mx w. if mx < w then w else mx) mx ws \<in> insert mx (set ws)" for mx :: nat
proof (induction ws arbitrary: mx)
  case (Cons w ws)
  show ?case using Cons [of "if mx < w then w else mx"] by (auto split: if_splits)
qed simp

lemma getMaxWeight_upper: "w \<in> set ws \<Longrightarrow> w \<le> getMaxWeight ws"
  using getMaxWeight_foldl [of 0 ws] by (simp add: getMaxWeight_def)

lemma getMaxWeight_in: "ws \<noteq> [] \<Longrightarrow> \<forall>w \<in> set ws. 0 < w \<Longrightarrow> getMaxWeight ws \<in> set ws"
  using getMaxWeight_foldl [of 0 ws] by (cases ws) (auto simp: getMaxWeight_def)

lemma foldl_js_gcd:
  "\<forall>w \<in> set ws. 0 < w \<Longrightarrow>
   foldl (\<lambda>result w. js_gcd result (if w = 0 then 1 else w)) a ws = gcd a (Gcd (set ws))"
proof (induction ws arbitrary: a)
  case (Cons w ws)
  then show ?case by (simp add: js_gcd gcd.assoc)
qed simp

lemma getGcdOfWeights_Gcd:
  "ws \<noteq> [] \<Longrightarrow> \<forall>w \<in> set ws. 0 < w \<Longrightarrow> getGcdOfWeights ws = Gcd (set ws)"
  by (cases ws) (simp_all add: getGcdOfWeights_def foldl_js_gcd)

lemma getGcdOfWeights_dvd:
  "ws \<noteq> [] \<Longrightarrow> \<forall>w \<in> set ws. 0 < w \<Longrightarrow> w \<in> set ws \<Longrightarrow> getGcdOfWeights ws dvd w"
  by (simp add: getGcdOfWeights_Gcd Gcd_dvd)

lemma getGcdOfWeights_pos: "ws \<noteq> [] \<Longrightarrow> \<forall>w \<in> set ws. 0 < w \<Longrightarrow> 0 < getGcdOfWeights ws"
  using getGcdOfWeights_dvd [of ws "hd ws"] by (cases ws) (auto intro: ccontr)

section \<open>The selection loop\<close>

text \<open>One turn of the loop up to the test: the next index and the level in force there.\<close>

definition wrr_advance :: "nat \<Rightarrow> int \<Rightarrow> int \<Rightarrow> int \<times> int \<Rightarrow> int \<times> int" where
  "wrr_advance n g mx st =
     (let ci = (fst st + 1) mod int n;
          cw = (if ci = 0 then (if snd st - g \<le> 0 then mx else snd st - g) else snd st)
      in (ci, cw))"

partial_function (option) wrr_loop :: "nat list \<Rightarrow> int \<Rightarrow> int \<Rightarrow> int \<times> int \<Rightarrow> (int \<times> int) option" where
  "wrr_loop ws g mx st =
     (let st' = wrr_advance (length ws) g mx st in
      if snd st' \<le> int (ws ! nat (fst st')) then Some st' else wrr_loop ws g mx st')"

declare wrr_loop.simps [code]

definition wrr_select ::
  "time \<Rightarrow> 'r request_scheme \<Rightarrow> backend list \<Rightarrow> 'a adc_lb_scheme \<Rightarrow> (backend \<times> lb_reason) option \<times> 'a adc_lb_scheme" where
  "wrr_select now req bs s =
     (let (scores, s) = read_scores now (map bid bs) s;
          ws = map (\<lambda>(b, score). dynamicWeight (weight b) score) (zip bs scores);
          n = length bs;
          maxWeight = getMaxWeight ws;
          gcdWeight = getGcdOfWeights ws
      in case wrrIndex s of
           None \<Rightarrow> (None, s)
         | Some ci \<Rightarrow>
             if n = 0 then (None, s\<lparr>wrrIndex := None\<rparr>)
             else if maxWeight = 0 then
               let ci = (ci + 1) mod int n
               in (Some (bs ! nat ci, WeightedFallbackReason), s\<lparr>wrrIndex := Some ci\<rparr>)
             else (case wrr_loop ws (int gcdWeight) (int maxWeight) (ci, wrrWeight s) of
                     None \<Rightarrow> (None, s)
                   | Some (ci, cw) \<Rightarrow>
                       (Some (bs ! nat ci, WeightedReason (int (ws ! nat ci)) (weight (bs ! nat ci)) cw),
                        s\<lparr>wrrIndex := Some ci, wrrWeight := cw\<rparr>)))"

section \<open>The loop returns\<close>

lemma wrr_advance_range: "0 < n \<Longrightarrow> 0 \<le> fst (wrr_advance n g mx st) \<and> fst (wrr_advance n g mx st) < int n"
  by (simp add: wrr_advance_def Let_def)

lemma wrr_advance_range_pair:
  "wrr_advance n g mx st = (ci, cw) \<Longrightarrow> 0 < n \<Longrightarrow> 0 \<le> ci \<and> ci < int n"
  using wrr_advance_range [of n g mx st] by simp

lemma wrr_advance_inner:
  "-1 \<le> ci \<Longrightarrow> ci + 1 < int n \<Longrightarrow> ci + 1 \<noteq> 0 \<Longrightarrow> wrr_advance n g mx (ci, cw) = (ci + 1, cw)"
  by (simp add: wrr_advance_def Let_def)

text \<open>Within a sweep the loop stops at the latest at a member that carries the level.\<close>

lemma wrr_loop_sweep:
  assumes "0 \<le> ci" "ci < int j" "j < length ws" "cw \<le> int (ws ! j)"
  shows "wrr_loop ws g mx (ci, cw) \<noteq> None"
  using assms
proof (induction "nat (int j - ci)" arbitrary: ci rule: less_induct)
  case less
  then have adv: "wrr_advance (length ws) g mx (ci, cw) = (ci + 1, cw)"
    by (intro wrr_advance_inner) auto
  show ?case
  proof (cases "cw \<le> int (ws ! nat (ci + 1))")
    case True
    then show ?thesis by (subst wrr_loop.simps) (simp add: adv)
  next
    case False
    with less.prems have "ci + 1 \<noteq> int j" by auto
    with less have "wrr_loop ws g mx (ci + 1, cw) \<noteq> None" by simp
    with False show ?thesis by (subst wrr_loop.simps) (simp add: adv)
  qed
qed

lemma wrr_loop_wrap:
  assumes "j < length ws" "snd st' \<le> int (ws ! j)" "wrr_advance (length ws) g mx st = st'" "fst st' = 0"
  shows "wrr_loop ws g mx st \<noteq> None"
proof (cases "j = 0 \<or> snd st' \<le> int (ws ! 0)")
  case True
  with assms show ?thesis by (subst wrr_loop.simps) auto
next
  case False
  with assms wrr_loop_sweep [of 0 j ws "snd st'" g mx] have "wrr_loop ws g mx st' \<noteq> None"
    by (cases st') simp
  with assms False show ?thesis by (subst wrr_loop.simps) simp
qed

lemma wrr_loop_returns_inside:
  assumes "0 < g" "j < length ws" "mx \<le> int (ws ! j)" "-1 \<le> fst st \<and> fst st < int (length ws)"
  shows "wrr_loop ws g mx st \<noteq> None"
  using assms(4)
proof (induction st rule: wf_induct_rule [OF wf_measures
      [of "[\<lambda>st. nat (snd st), \<lambda>st. nat (int (length ws) - fst st)]"]])
  case (1 st)
  let ?st = "wrr_advance (length ws) g mx st"
  have n: "0 < length ws" using assms(2) by linarith
  show ?case
  proof (cases "snd ?st \<le> int (ws ! nat (fst ?st))")
    case True
    then show ?thesis by (subst wrr_loop.simps) simp
  next
    case stays: False
    show ?thesis
    proof (cases "fst ?st = 0 \<and> snd st - g \<le> 0")
      case True
      then have "snd ?st = mx" by (auto simp: wrr_advance_def Let_def)
      with True assms(2,3) show ?thesis by (intro wrr_loop_wrap [OF assms(2) _ refl]) auto
    next
      case False
      have "wrr_loop ws g mx ?st \<noteq> None"
      proof (rule 1)
        show "-1 \<le> fst ?st \<and> fst ?st < int (length ws)" using wrr_advance_range [OF n, of g mx st] by simp
        show "(?st, st) \<in> measures [\<lambda>st. nat (snd st), \<lambda>st. nat (int (length ws) - fst st)]"
        proof (cases "fst ?st = 0")
          case True
          with False have "snd ?st = snd st - g" "0 < snd st - g"
            by (auto simp: wrr_advance_def Let_def)
          with assms(1) show ?thesis by simp
        next
          case nz: False
          have "fst st + 1 < int (length ws)"
            using nz 1(2) by (cases "fst st + 1 = int (length ws)") (auto simp: wrr_advance_def Let_def)
          with nz 1 have "?st = (fst st + 1, snd st)"
            by (cases st) (auto simp: wrr_advance_def Let_def)
          with \<open>fst st + 1 < int (length ws)\<close> show ?thesis by simp
        qed
      qed
      with stays show ?thesis by (subst wrr_loop.simps) (simp add: Let_def)
    qed
  qed
qed

lemma wrr_loop_returns:
  assumes "0 < g" "j < length ws" "mx \<le> int (ws ! j)" "-1 \<le> fst st"
  shows "wrr_loop ws g mx st \<noteq> None"
proof -
  have n: "0 < length ws" using assms(2) by linarith
  have "wrr_loop ws g mx (wrr_advance (length ws) g mx st) \<noteq> None"
    using wrr_advance_range [OF n, of g mx st] by (intro wrr_loop_returns_inside [OF assms(1-3)]) auto
  then show ?thesis by (subst wrr_loop.simps) (simp add: Let_def)
qed

section \<open>One cycle of the algorithm\<close>

text \<open>The states in which \<open>k\<close> consecutive calls of the loop stop, and those among \<open>m\<close> single advances.\<close>

fun wrr_stops :: "nat list \<Rightarrow> int \<Rightarrow> int \<Rightarrow> nat \<Rightarrow> int \<times> int \<Rightarrow> (int \<times> int) list" where
  "wrr_stops ws g mx 0 st = []"
| "wrr_stops ws g mx (Suc k) st =
     (case wrr_loop ws g mx st of None \<Rightarrow> [] | Some st' \<Rightarrow> st' # wrr_stops ws g mx k st')"

fun wrr_picks :: "nat list \<Rightarrow> int \<Rightarrow> int \<Rightarrow> nat \<Rightarrow> int \<times> int \<Rightarrow> (int \<times> int) list" where
  "wrr_picks ws g mx 0 st = []"
| "wrr_picks ws g mx (Suc m) st =
     (let st' = wrr_advance (length ws) g mx st in
      (if snd st' \<le> int (ws ! nat (fst st')) then [st'] else []) @ wrr_picks ws g mx m st')"

lemma wrr_stops_skip:
  assumes "wrr_loop ws g mx st = wrr_loop ws g mx st'"
  shows "wrr_stops ws g mx k st = wrr_stops ws g mx k st'"
  using assms by (cases k) auto

lemma wrr_stops_picks: "wrr_stops ws g mx (length (wrr_picks ws g mx m st)) st = wrr_picks ws g mx m st"
proof (induction m arbitrary: st)
  case (Suc m)
  let ?st = "wrr_advance (length ws) g mx st"
  show ?case
  proof (cases "snd ?st \<le> int (ws ! nat (fst ?st))")
    case True
    then have "wrr_loop ws g mx st = Some ?st" by (subst wrr_loop.simps) simp
    with True Suc show ?thesis by (simp add: Let_def)
  next
    case False
    then have "wrr_loop ws g mx st = wrr_loop ws g mx ?st" by (subst wrr_loop.simps) (simp add: Let_def)
    with False Suc wrr_stops_skip [of ws g mx st ?st] show ?thesis by (simp add: Let_def)
  qed
qed simp

lemma wrr_picks_add:
  "wrr_picks ws g mx (a + b) st =
   wrr_picks ws g mx a st @ wrr_picks ws g mx b ((wrr_advance (length ws) g mx ^^ a) st)"
proof (induction a arbitrary: st)
  case (Suc a)
  then show ?case by (simp add: Let_def funpow_swap1)
qed simp

definition level_row :: "nat list \<Rightarrow> nat \<Rightarrow> (int \<times> int) list" where
  "level_row ws l = map (\<lambda>i. (int i, int l)) (filter (\<lambda>i. l \<le> ws ! i) [0..<length ws])"

lemma wrr_inner_row:
  "c + k < length ws \<Longrightarrow>
   (wrr_advance (length ws) g mx ^^ k) (int c, int l) = (int (c + k), int l) \<and>
   wrr_picks ws g mx k (int c, int l) =
     map (\<lambda>i. (int i, int l)) (filter (\<lambda>i. l \<le> ws ! i) [c + 1..<c + 1 + k])"
proof (induction k arbitrary: c)
  case (Suc k)
  have adv: "wrr_advance (length ws) g mx (int c, int l) = (int (Suc c), int l)"
    using Suc.prems wrr_advance_inner [of "int c" "length ws"] by simp
  have "[c + 1..<c + 1 + Suc k] = (c + 1) # [Suc c + 1..<Suc c + 1 + k]"
    by (simp add: upt_conv_Cons)
  moreover have "nat (int (Suc c)) = Suc c" by simp
  ultimately show ?case using adv Suc.IH [of "Suc c"] Suc.prems
    by (simp add: funpow_Suc_right Let_def del: upt_Suc funpow.simps of_nat_Suc)
qed simp

lemma wrr_row:
  assumes "ws \<noteq> []" "wrr_advance (length ws) g mx st = (0, int l)"
  shows "(wrr_advance (length ws) g mx ^^ length ws) st = (int (length ws) - 1, int l) \<and>
         wrr_picks ws g mx (length ws) st = level_row ws l"
proof -
  obtain n where n: "length ws = Suc n" using assms(1) by (cases ws) auto
  have up: "[0..<Suc n] = 0 # [1..<1 + n]" by (simp add: upt_conv_Cons del: upt_Suc)
  have row: "(wrr_advance (length ws) g mx ^^ n) (0, int l) = (int n, int l)"
    "wrr_picks ws g mx n (0, int l) = map (\<lambda>i. (int i, int l)) (filter (\<lambda>i. l \<le> ws ! i) [1..<1 + n])"
    using wrr_inner_row [of 0 n ws g mx l] n by simp_all
  show ?thesis
    unfolding level_row_def n up using assms(2) row
    by (simp add: funpow_Suc_right Let_def n del: upt_Suc funpow.simps)
qed

lemma wrr_rows:
  assumes "ws \<noteq> []" "0 < g"
  shows "wrr_picks ws (int g) mx (k * length ws) (int (length ws) - 1, int (Suc k * g)) =
           concat (map (\<lambda>j. level_row ws (j * g)) (rev [1..<Suc k])) \<and>
         (wrr_advance (length ws) (int g) mx ^^ (k * length ws)) (int (length ws) - 1, int (Suc k * g)) =
           (int (length ws) - 1, int g)"
proof (induction k)
  case (Suc k)
  let ?adv = "wrr_advance (length ws) (int g) mx"
  let ?st = "(int (length ws) - 1, int (Suc (Suc k) * g))"
  have "?adv ?st = (0, int (Suc k * g))"
    using assms add_pos_nonneg [of "int g" "int g * int k"]
    by (simp add: wrr_advance_def Let_def algebra_simps)
  note row = wrr_row [OF assms(1) this]
  have split: "Suc k * length ws = length ws + k * length ws" by simp
  have pow: "(?adv ^^ (Suc k * length ws)) st = (?adv ^^ (k * length ws)) ((?adv ^^ length ws) st)" for st
    unfolding split by (simp only: add.commute [of "length ws"] funpow_add comp_apply)
  have up: "rev [1..<Suc (Suc k)] = Suc k # rev [1..<Suc k]" by simp
  show ?case unfolding pow unfolding split wrr_picks_add up list.map concat.simps
    using row Suc by (simp only: simp_thms)
qed simp

definition stop_count :: "nat \<Rightarrow> (int \<times> int) list \<Rightarrow> nat" where
  "stop_count i sts = length (filter (\<lambda>st. fst st = int i) sts)"

lemma stop_count_simps [simp]:
  "stop_count i [] = 0"
  "stop_count i (xs @ ys) = stop_count i xs + stop_count i ys"
  by (simp_all add: stop_count_def)

lemma stop_count_row: "i < length ws \<Longrightarrow> stop_count i (level_row ws l) = of_bool (l \<le> ws ! i)"
proof -
  assume i: "i < length ws"
  have "stop_count i (level_row ws l) = length (filter (\<lambda>j. j = i \<and> l \<le> ws ! j) [0..<length ws])"
    by (simp add: stop_count_def level_row_def filter_map comp_def conj_commute)
  also have "\<dots> = card {j. j < length ws \<and> j = i \<and> l \<le> ws ! j}"
    by (simp add: length_filter_conv_card cong: conj_cong)
  also have "{j. j < length ws \<and> j = i \<and> l \<le> ws ! j} = (if l \<le> ws ! i then {i} else {})" using i by auto
  finally show ?thesis by simp
qed

lemma length_row: "length (level_row ws l) = (\<Sum>i<length ws. of_bool (l \<le> ws ! i))"
  by (simp add: level_row_def length_filter_conv_card Int_def lessThan_def cong: conj_cong)

lemma sum_of_bool_card: "finite A \<Longrightarrow> (\<Sum>j\<in>A. of_bool (P j) :: nat) = card {j \<in> A. P j}"
  by (simp add: Int_def)

lemma levels_below:
  assumes "0 < (g::nat)" "w div g \<le> K"
  shows "(\<Sum>j\<leftarrow>rev [1..<Suc K]. of_bool (j * g \<le> w)) = w div g"
proof -
  have "(\<Sum>j\<leftarrow>rev [1..<Suc K]. of_bool (j * g \<le> w)) = (\<Sum>j\<in>{1..<Suc K}. of_bool (j * g \<le> w) :: nat)"
    by (simp only: sum_list_rev rev_map sum_list_distinct_conv_sum_set distinct_upt set_upt distinct_rev set_rev)
  also have "\<dots> = card {j \<in> {1..<Suc K}. j * g \<le> w}"
    by (rule sum_of_bool_card) simp
  also have "{j \<in> {1..<Suc K}. j * g \<le> w} = {1..w div g}"
    unfolding less_eq_div_iff_mult_less_eq [OF assms(1), symmetric] using assms(2) by auto
  finally show ?thesis by simp
qed

lemma stop_count_rows:
  "i < length ws \<Longrightarrow>
   stop_count i (concat (map (\<lambda>j. level_row ws (j * g)) js)) = (\<Sum>j\<leftarrow>js. of_bool (j * g \<le> ws ! i))"
  by (induction js) (simp_all add: stop_count_row)

lemma length_rows:
  "length (concat (map (\<lambda>j. level_row ws (j * g)) js)) =
   (\<Sum>i<length ws. \<Sum>j\<leftarrow>js. of_bool (j * g \<le> ws ! i))"
  by (induction js) (simp_all add: length_row sum.distrib)

definition cycle_levels :: "nat list \<Rightarrow> nat \<Rightarrow> nat \<Rightarrow> (int \<times> int) list" where
  "cycle_levels ws g K = concat (map (\<lambda>j. level_row ws (j * g)) (rev [1..<Suc K]))"

lemma stop_count_cycle:
  assumes "0 < g" "i < length ws" "ws ! i div g \<le> K"
  shows "stop_count i (cycle_levels ws g K) = ws ! i div g"
  unfolding cycle_levels_def stop_count_rows [OF assms(2)] by (rule levels_below [OF assms(1,3)])

lemma length_cycle:
  assumes "0 < g" "\<forall>w \<in> set ws. w div g \<le> K"
  shows "length (cycle_levels ws g K) = (\<Sum>w\<leftarrow>ws. w div g)"
proof -
  have "length (cycle_levels ws g K) = (\<Sum>i<length ws. ws ! i div g)"
    unfolding cycle_levels_def length_rows using assms
    by (intro sum.cong refl levels_below) simp_all
  also have "\<dots> = (\<Sum>w\<leftarrow>ws. w div g)"
    by (simp add: sum_list_sum_nth atLeast0LessThan)
  finally show ?thesis .
qed

text \<open>The two states between cycles: the fresh one and the last of a cycle.\<close>

definition between_cycles :: "nat list \<Rightarrow> int \<times> int \<Rightarrow> bool" where
  "between_cycles ws st \<longleftrightarrow> st = (-1, 0) \<or> st = (int (length ws) - 1, int (getGcdOfWeights ws))"

definition cycle_length :: "nat list \<Rightarrow> nat" where
  "cycle_length ws = (\<Sum>w\<leftarrow>ws. w div getGcdOfWeights ws)"

lemma wrr_cycle:
  assumes "ws \<noteq> []" "\<forall>w \<in> set ws. 0 < w" "between_cycles ws st"
  defines "g \<equiv> getGcdOfWeights ws" and "mx \<equiv> getMaxWeight ws"
  shows "wrr_stops ws (int g) (int mx) (cycle_length ws) st = cycle_levels ws g (mx div g) \<and>
         0 < cycle_length ws \<and>
         last (cycle_levels ws g (mx div g)) = (int (length ws) - 1, int g)"
proof -
  have g: "0 < g" unfolding g_def by (rule getGcdOfWeights_pos [OF assms(1,2)])
  have mx: "mx \<in> set ws" unfolding mx_def by (rule getMaxWeight_in [OF assms(1,2)])
  then have "0 < mx" "g dvd mx"
    using assms(2) getGcdOfWeights_dvd [OF assms(1,2)] by (auto simp: g_def)
  then obtain k where k: "mx div g = Suc k"
    using gr0_implies_Suc [of "mx div g"] by (auto simp: div_greater_zero_iff dvd_imp_le g)
  then have K: "mx div g = Suc k" "mx = Suc k * g"
    using dvd_div_mult_self [OF \<open>g dvd mx\<close>] by simp_all
  have le: "\<forall>w \<in> set ws. w div g \<le> mx div g"
    using getMaxWeight_upper [of _ ws] by (auto simp: mx_def intro: div_le_mono)
  have "wrr_advance (length ws) (int g) (int mx) st = (0, int mx)"
    using assms(1,3) by (auto simp: between_cycles_def wrr_advance_def Let_def g_def)
  note row = wrr_row [OF assms(1) this]
  have up: "rev [1..<Suc (Suc k)] = Suc k # rev [1..<Suc k]" by simp
  have "wrr_picks ws (int g) (int mx) (length ws + k * length ws) st = cycle_levels ws g (mx div g)"
    unfolding wrr_picks_add cycle_levels_def K(1) up list.map concat.simps K(2) [symmetric]
    using row wrr_rows [OF assms(1) g, of "int mx" k, folded K(2)] by (simp only: simp_thms)
  moreover have len: "length (cycle_levels ws g (mx div g)) = cycle_length ws"
    unfolding cycle_length_def g_def [symmetric] by (rule length_cycle [OF g le])
  ultimately have stops: "wrr_stops ws (int g) (int mx) (cycle_length ws) st = cycle_levels ws g (mx div g)"
    using wrr_stops_picks [of ws "int g" "int mx" "length ws + k * length ws" st] by simp
  have "g \<le> ws ! (length ws - 1)"
    using dvd_imp_le [OF getGcdOfWeights_dvd [OF assms(1,2), of "last ws"]] assms(1,2)
    by (simp add: g_def last_conv_nth)
  then have "level_row ws g \<noteq> [] \<and> last (level_row ws g) = (int (length ws) - 1, int g)"
    using assms(1) by (cases ws rule: rev_cases) (simp_all add: level_row_def)
  moreover have "[1..<Suc (Suc k)] = 1 # [2..<Suc (Suc k)]"
    using upt_conv_Cons [of 1 "Suc (Suc k)"] by (simp add: numeral_2_eq_2 del: upt_Suc)
  then have "cycle_levels ws g (mx div g) =
      concat (map (\<lambda>j. level_row ws (j * g)) (rev [2..<Suc (Suc k)])) @ level_row ws g"
    by (simp add: cycle_levels_def K(1) del: upt_Suc)
  ultimately have "cycle_levels ws g (mx div g) \<noteq> [] \<and>
      last (cycle_levels ws g (mx div g)) = (int (length ws) - 1, int g)"
    by (simp del: upt_Suc)
  moreover note stops
  ultimately show ?thesis using len by (metis length_greater_0_conv)
qed

lemma wrr_loop_carries:
  assumes "wrr_loop ws g mx st = Some st'"
  shows "snd st' \<le> int (ws ! nat (fst st'))"
  by (rule wrr_loop.raw_induct [OF _ assms, of "\<lambda>ws g mx st st'. snd st' \<le> int (ws ! nat (fst st'))"])
    (auto simp: Let_def split: if_splits)

section \<open>The strategy\<close>

definition virtual_weights :: "time \<Rightarrow> backend list \<Rightarrow> 'a adc_mt_scheme \<Rightarrow> nat list" where
  "virtual_weights now bs s = map (\<lambda>b. dynamicWeight (weight b) (score_of now s (bid b))) bs"

lemma virtual_weights_pos: "\<forall>w \<in> set (virtual_weights now bs s). 0 < w"
  by (auto simp: virtual_weights_def dynamicWeight_pos)

lemma virtual_weights_ne [simp]: "virtual_weights now bs s = [] \<longleftrightarrow> bs = []"
  by (simp add: virtual_weights_def)

lemma zip_virtual_weights:
  "map (\<lambda>(b, score). dynamicWeight (weight b) score) (zip bs (fst (read_scores now (map bid bs) s))) =
   virtual_weights now bs s"
  unfolding virtual_weights_def read_scores_fst by (induction bs) (simp_all del: read_scores.simps)

lemma wrr_select_eq:
  fixes now :: time
  assumes "bs \<noteq> []" "wrrIndex s = Some ci"
  defines "ws \<equiv> virtual_weights now bs s" and "s' \<equiv> snd (read_scores now (map bid bs) s)"
  shows "wrr_select now req bs s =
     (case wrr_loop ws (int (getGcdOfWeights ws)) (int (getMaxWeight ws)) (ci, wrrWeight s) of
        None \<Rightarrow> (None, s')
      | Some (ci, cw) \<Rightarrow>
          (Some (bs ! nat ci, WeightedReason (int (ws ! nat ci)) (weight (bs ! nat ci)) cw),
           s'\<lparr>wrrIndex := Some ci, wrrWeight := cw\<rparr>))"
proof -
  have "getMaxWeight ws \<in> set ws"
    unfolding ws_def by (rule getMaxWeight_in) (use assms(1) virtual_weights_pos in auto)
  then have "getMaxWeight ws \<noteq> 0" using virtual_weights_pos [of now bs s] by (auto simp: ws_def)
  then show ?thesis
    unfolding ws_def s'_def using assms(1,2) zip_virtual_weights [of bs now s]
    by (simp add: wrr_select_def case_prod_unfold Let_def split: option.split)
qed

lemma wrr_loop_range:
  assumes "0 < length ws" "wrr_loop ws g mx st = Some st'"
  shows "0 \<le> fst st' \<and> fst st' < int (length ws)"
proof -
  have "0 < length ws \<longrightarrow> 0 \<le> fst st' \<and> fst st' < int (length ws)"
    by (rule wrr_loop.raw_induct [OF _ assms(2),
          of "\<lambda>ws g mx st st'. 0 < length ws \<longrightarrow> 0 \<le> fst st' \<and> fst st' < int (length ws)"])
      (auto simp: Let_def dest: wrr_advance_range_pair split: if_splits)
  with assms(1) show ?thesis by blast
qed

lemma score_of_eq:
  "score_of now s i =
     (case (get_backend i s, get_history i s) of
        (Some b, Some l) \<Rightarrow>
          (let l = trim_history now l in
           calculateScore (healthy b) (tx_mean l) (tx_error_rate l) (activeConnections b))
      | _ \<Rightarrow> 100)"
  by (simp add: score_of_def read_score_def getBackendMetrics_def Let_def get_history_cleanup
      split: option.split)

lemma score_of_wrr_frame [simp]:
  "score_of now (s\<lparr>wrrIndex := x\<rparr>) i = score_of now s i"
  "score_of now (s\<lparr>wrrWeight := y\<rparr>) i = score_of now s i"
  by (simp_all add: score_of_eq get_backend_def get_history_def)

lemma score_of_read_scores [simp]: "score_of now (snd (read_scores now is s)) i = score_of now s i"
  by (induction "is" arbitrary: s) (simp_all add: case_prod_unfold Let_def)

lemma virtual_weights_wrr_frame [simp]:
  "virtual_weights now bs (s\<lparr>wrrIndex := x\<rparr>) = virtual_weights now bs s"
  "virtual_weights now bs (s\<lparr>wrrWeight := y\<rparr>) = virtual_weights now bs s"
  "virtual_weights now bs (snd (read_scores now is s)) = virtual_weights now bs s"
  by (simp_all add: virtual_weights_def)

lemma wrr_select_returns:
  fixes now :: time
  assumes "bs \<noteq> []" "wrrIndex s = Some ci" "-1 \<le> ci"
  defines "ws \<equiv> virtual_weights now bs s"
  shows "\<exists>i cw. i < length bs \<and> wrr_loop ws (int (getGcdOfWeights ws)) (int (getMaxWeight ws)) (ci, wrrWeight s)
             = Some (int i, cw) \<and>
           wrr_select now req bs s =
             (Some (bs ! i, WeightedReason (int (ws ! i)) (weight (bs ! i)) cw),
              (snd (read_scores now (map bid bs) s))\<lparr>wrrIndex := Some (int i), wrrWeight := cw\<rparr>) \<and>
           cw \<le> int (ws ! i)"
proof -
  let ?g = "int (getGcdOfWeights ws)" and ?mx = "int (getMaxWeight ws)"
  have ws: "ws \<noteq> []" "\<forall>w \<in> set ws. 0 < w" "length ws = length bs"
    using assms(1) virtual_weights_pos [of now bs s] by (simp_all add: ws_def virtual_weights_def)
  obtain j where "j < length ws" "ws ! j = getMaxWeight ws"
    using getMaxWeight_in [OF ws(1,2)] by (auto simp: in_set_conv_nth)
  then have "wrr_loop ws ?g ?mx (ci, wrrWeight s) \<noteq> None"
    using getGcdOfWeights_pos [OF ws(1,2)] assms(3) by (intro wrr_loop_returns [of _ j]) auto
  then obtain i cw where loop: "wrr_loop ws ?g ?mx (ci, wrrWeight s) = Some (i, cw)" by auto
  have i: "0 \<le> i" "i < int (length bs)" using wrr_loop_range [OF _ loop] ws assms(1) by auto
  have carries: "cw \<le> int (ws ! nat i)" using wrr_loop_carries [OF loop] by simp
  have k: "i = int (nat i)" using i(1) by simp
  have "wrr_select now req bs s =
      (Some (bs ! nat i, WeightedReason (int (ws ! nat i)) (weight (bs ! nat i)) cw),
       (snd (read_scores now (map bid bs) s))\<lparr>wrrIndex := Some (int (nat i)), wrrWeight := cw\<rparr>)"
    using wrr_select_eq [OF assms(1,2), of now req] loop i(1) by (simp add: ws_def)
  with carries loop i show ?thesis by (intro exI [of _ "nat i"] exI [of _ cw]) simp
qed

lemma wrr_select_candidate:
  assumes "bs \<noteq> []" "lb_good s"
  shows "\<exists>b r s'. wrr_select now req bs s = (Some (b, r), s') \<and> b \<in> set bs \<and> lb_good s' \<and> pool s' = pool s"
proof -
  from assms(2) obtain ci where ci: "wrrIndex s = Some ci" "-1 \<le> ci" and rr: "rrIndex s \<noteq> None"
    by (auto simp: lb_good_iff)
  from wrr_select_returns [OF assms(1) ci, of now req] obtain i cw where
    "i < length bs" "wrr_select now req bs s =
      (Some (bs ! i, WeightedReason (int (virtual_weights now bs s ! i)) (weight (bs ! i)) cw),
       (snd (read_scores now (map bid bs) s))\<lparr>wrrIndex := Some (int i), wrrWeight := cw\<rparr>)"
    by blast
  then show ?thesis using rr by (simp add: lb_good_iff)
qed

interpretation wrr: lb_strategy wrr_select lb_good pool
  by unfold_locales (rule wrr_select_candidate)

fun wrr_run ::
  "nat \<Rightarrow> time \<Rightarrow> 'r request_scheme \<Rightarrow> backend list \<Rightarrow> 'a adc_lb_scheme \<Rightarrow> backend option list \<times> 'a adc_lb_scheme" where
  "wrr_run 0 now req bs s = ([], s)"
| "wrr_run (Suc k) now req bs s =
     (let (r, s) = wrr_select now req bs s; (rs, s) = wrr_run k now req bs s in (map_option fst r # rs, s))"

lemma wrr_run_stops:
  fixes now :: time and k :: nat
  assumes "bs \<noteq> []" "wrrIndex s = Some ci" "-1 \<le> ci"
  defines "ws \<equiv> virtual_weights now bs s"
  defines "sts \<equiv> wrr_stops ws (int (getGcdOfWeights ws)) (int (getMaxWeight ws)) k (ci, wrrWeight s)"
  shows "fst (wrr_run k now req bs s) = map (\<lambda>st. Some (bs ! nat (fst st))) sts \<and>
         (let s' = snd (wrr_run k now req bs s); st = last ((ci, wrrWeight s) # sts)
          in wrrIndex s' = Some (fst st) \<and> wrrWeight s' = snd st \<and> virtual_weights now bs s' = ws)"
  using assms(2,3) unfolding sts_def ws_def
proof (induction k arbitrary: s ci)
  case (Suc k)
  from wrr_select_returns [OF assms(1) Suc.prems, of now req] obtain i cw where sel:
    "wrr_loop (virtual_weights now bs s) (int (getGcdOfWeights (virtual_weights now bs s)))
       (int (getMaxWeight (virtual_weights now bs s))) (ci, wrrWeight s) = Some (int i, cw)"
    "wrr_select now req bs s =
      (Some (bs ! i, WeightedReason (int (virtual_weights now bs s ! i)) (weight (bs ! i)) cw),
       (snd (read_scores now (map bid bs) s))\<lparr>wrrIndex := Some (int i), wrrWeight := cw\<rparr>)"
    by blast
  let ?s = "(snd (read_scores now (map bid bs) s))\<lparr>wrrIndex := Some (int i), wrrWeight := cw\<rparr>"
  from Suc.IH [of ?s "int i"] sel show ?case by (simp add: case_prod_unfold Let_def)
qed simp

section \<open>Properties\<close>



lemma filter_stops:
  assumes "distinct bs" "i < length bs" "\<forall>st \<in> set sts. 0 \<le> fst st \<and> fst st < int (length bs)"
  shows "count_list (map (\<lambda>st. Some (bs ! nat (fst st))) sts) (Some (bs ! i)) = stop_count i sts"
  using assms(3)
proof (induction sts)
  case (Cons st sts)
  have "bs ! nat (fst st) = bs ! i \<longleftrightarrow> fst st = int i"
    using Cons.prems assms(1,2) by (auto simp: nth_eq_iff_index_eq)
  with Cons show ?case by (auto simp: stop_count_def)
qed (simp add: stop_count_def)

lemma cycle_levels_range:
  "st \<in> set (cycle_levels ws g K) \<Longrightarrow> 0 \<le> fst st \<and> fst st < int (length ws)"
  by (auto simp: cycle_levels_def level_row_def)

lemma all_less_two: "(\<forall>i < (2::nat). P i) \<longleftrightarrow> P 0 \<and> P 1"
  by (auto simp: less_2_cases_iff)

text \<open>
  C17: weighted round robin is exactly proportional. From a state between two cycles, one cycle of
  calls (the sum of the virtual weights over their greatest common divisor) chooses the \<open>i\<close>-th
  candidate exactly its weight over that divisor times, and ends between two cycles again.
\<close>

theorem weighted_round_robin_proportional:
  assumes "distinct bs" "bs \<noteq> []" "wrrIndex s = Some ci"
    "between_cycles (virtual_weights now bs s) (ci, wrrWeight s)"
  shows "(\<forall>i < length bs.
            count_list (fst (wrr_run (cycle_length (virtual_weights now bs s)) now req bs s)) (Some (bs ! i)) =
              virtual_weights now bs s ! i div getGcdOfWeights (virtual_weights now bs s)) \<and>
         (\<exists>ci' cw'. let s' = snd (wrr_run (cycle_length (virtual_weights now bs s)) now req bs s) in
            wrrIndex s' = Some ci' \<and> wrrWeight s' = cw' \<and> virtual_weights now bs s' = virtual_weights now bs s \<and>
            between_cycles (virtual_weights now bs s) (ci', cw'))"
proof -
  let ?ws = "virtual_weights now bs s"
  let ?g = "getGcdOfWeights ?ws" and ?K = "getMaxWeight ?ws div getGcdOfWeights ?ws"
  have ws: "?ws \<noteq> []" "length ?ws = length bs" using assms(2) by (simp_all add: virtual_weights_def)
  have ci: "-1 \<le> ci" using assms(4) by (auto simp: between_cycles_def)
  note cycle = wrr_cycle [OF ws(1) virtual_weights_pos assms(4)]
  have sts: "wrr_stops ?ws (int ?g) (int (getMaxWeight ?ws)) (cycle_length ?ws) (ci, wrrWeight s) =
      cycle_levels ?ws ?g ?K"
    using cycle by simp
  note run = wrr_run_stops [OF assms(2,3) ci, of "cycle_length ?ws" now req, unfolded sts]
  have "0 < length (cycle_levels ?ws ?g ?K)"
    using cycle length_cycle [OF getGcdOfWeights_pos [OF ws(1) virtual_weights_pos], where K = ?K]
      getMaxWeight_upper [of _ ?ws]
    by (simp add: cycle_length_def div_le_mono)
  then have last: "last ((ci, wrrWeight s) # cycle_levels ?ws ?g ?K) = (int (length ?ws) - 1, int ?g)"
    using cycle by auto
  show ?thesis
  proof (intro conjI allI impI)
    fix i assume i: "i < length bs"
    then have "?ws ! i div ?g \<le> ?K" by (simp add: ws(2) div_le_mono getMaxWeight_upper)
    then show "count_list (fst (wrr_run (cycle_length ?ws) now req bs s)) (Some (bs ! i)) = ?ws ! i div ?g"
      using run i stop_count_cycle [OF getGcdOfWeights_pos [OF ws(1) virtual_weights_pos], where i = i and K = ?K]
        filter_stops [OF assms(1) i, of "cycle_levels ?ws ?g ?K"] cycle_levels_range [of _ ?ws ?g ?K]
      by (simp add: ws(2))
  qed (use run last in \<open>simp add: Let_def between_cycles_def\<close>)
qed

theorem weighted_round_robin_proportional_witness:
  "let run = fst (wrr_run 5 7 demo_req (pool demo_lb) demo_lb) in
   count_list run (Some (pool demo_lb ! 0)) = 3 \<and> count_list run (Some (pool demo_lb ! 1)) = 2"
proof -
  have d: "distinct (map bid (pool demo_lb))" "length (pool demo_lb) = 2" by (code_simp, code_simp)
  have "map (\<lambda>b. (bid b, weight b)) (pool demo_lb) = [(''backend-1'', 3), (''backend-2'', 2)]" by code_simp
  moreover have "score_of 7 demo_lb ''backend-1'' = 100" "score_of 7 demo_lb ''backend-2'' = 100"
    by (code_simp, code_simp)
  moreover have "dynamicWeight 3 100 = 3" "dynamicWeight 2 100 = 2" by (code_simp, code_simp)
  ultimately have ws: "virtual_weights 7 (pool demo_lb) demo_lb = [3, 2]"
    by (auto simp: virtual_weights_def map_eq_Cons_conv)
  have g: "getGcdOfWeights [3, 2] = 1"
    by (simp add: getGcdOfWeights_def js_gcd gcd_non_0_nat)
  then have c: "cycle_length [3, 2] = 5" by (simp add: cycle_length_def)
  have st: "wrrIndex demo_lb = Some (-1)" "wrrWeight demo_lb = 0" by (code_simp, code_simp)
  have "pool demo_lb \<noteq> []" using d(2) by auto
  from weighted_round_robin_proportional [OF _ this st(1), of 7 demo_req] d
  show ?thesis by (simp add: ws g c st between_cycles_def distinct_map all_less_two)
qed

end
