(* ===== verification/LeastConnections.thy ===== *)
theory LeastConnections
  imports WeightedRR
begin

text \<open>
  \<^verbatim>\<open>src/routing/strategies/leastConnections.js\<close>: the candidates with the fewest active connections, the tie
  broken by the performance score. \<open>minConnections\<close> starts at infinity (\<open>None\<close>).
\<close>

definition scan_step :: "nat option \<times> backend list \<Rightarrow> backend \<Rightarrow> nat option \<times> backend list" where
  "scan_step acc b =
     (case acc of (minConnections, selectedBackends) \<Rightarrow>
        let active = activeConnections b in
        case minConnections of
          None \<Rightarrow> (Some active, [b])
        | Some m \<Rightarrow> if active < m then (Some active, [b])
                    else if active = m then (Some m, selectedBackends @ [b])
                    else (Some m, selectedBackends))"

definition scan_min :: "backend list \<Rightarrow> nat option \<times> backend list" where
  "scan_min bs = foldl scan_step (None, []) bs"

fun break_tie ::
  "time \<Rightarrow> backend list \<Rightarrow> backend option \<times> int \<Rightarrow> 'a adc_lb_scheme \<Rightarrow> (backend option \<times> int) \<times> 'a adc_lb_scheme" where
  "break_tie now [] acc s = (acc, s)"
| "break_tie now (b # bs) acc s =
     (let (score, s) = read_score now (bid b) s
      in break_tie now bs (if snd acc < score then (Some b, score) else acc) s)"

definition lc_select ::
  "time \<Rightarrow> 'r request_scheme \<Rightarrow> backend list \<Rightarrow> 'a adc_lb_scheme \<Rightarrow> (backend \<times> lb_reason) option \<times> 'a adc_lb_scheme" where
  "lc_select now req bs s =
     (let (minConnections, selectedBackends) = scan_min bs;
          first = (case selectedBackends of [] \<Rightarrow> None | b # _ \<Rightarrow> Some b);
          ((selected, bestScore), s) = break_tie now selectedBackends (first, -1) s
      in (case (selected, minConnections) of
            (Some b, Some m) \<Rightarrow> Some (b, LeastConnectionsReason m bestScore)
          | _ \<Rightarrow> None, s))"

section \<open>The scan\<close>

lemma scan_min_correct:
  "bs \<noteq> [] \<Longrightarrow>
   scan_min bs = (Some (Min (activeConnections ` set bs)),
                  filter (\<lambda>b. activeConnections b = Min (activeConnections ` set bs)) bs)"
proof (induction bs rule: rev_induct)
  case (snoc b bs)
  show ?case
  proof (cases "bs = []")
    case True
    then show ?thesis by (simp add: scan_min_def scan_step_def)
  next
    case False
    let ?m = "Min (activeConnections ` set bs)"
    have m: "Min (activeConnections ` set (bs @ [b])) = min (activeConnections b) ?m"
      using False by simp
    have above: "\<forall>c \<in> set bs. ?m \<le> activeConnections c" by simp
    have "scan_min (bs @ [b]) = scan_step (Some ?m, filter (\<lambda>c. activeConnections c = ?m) bs) b"
      using snoc False by (simp add: scan_min_def)
    moreover have "activeConnections b < ?m \<Longrightarrow> filter (\<lambda>c. activeConnections c = activeConnections b) bs = []"
      using above by (metis (mono_tags, lifting) filter_False leD)
    ultimately show ?thesis unfolding m by (auto simp: scan_step_def min_def Let_def)
  qed
qed simp

section \<open>The tie-break\<close>

lemma break_tie_frame [simp]:
  "pool (snd (break_tie now bs acc s)) = pool s"
  "rrIndex (snd (break_tie now bs acc s)) = rrIndex s"
  "wrrIndex (snd (break_tie now bs acc s)) = wrrIndex s"
  "score_of now (snd (break_tie now bs acc s)) i = score_of now s i"
  by (induction bs arbitrary: acc s) (simp_all add: case_prod_unfold Let_def)

lemma fst_read_score: "fst (read_score now i s) = score_of now s i"
  by (simp add: score_of_def)

lemma break_tie_invariant:
  assumes "fst (break_tie now bs (b0, sc0) s) = (b', sc')"
  shows "sc0 \<le> sc' \<and> (\<forall>c \<in> set bs. score_of now s (bid c) \<le> sc') \<and>
         (b' = b0 \<and> sc' = sc0 \<or> (\<exists>b \<in> set bs. b' = Some b \<and> sc' = score_of now s (bid b)))"
  using assms
proof (induction bs arbitrary: b0 sc0 s)
  case (Cons b bs)
  let ?sc = "score_of now s (bid b)"
  let ?acc = "if sc0 < ?sc then (Some b, ?sc) else (b0, sc0)"
  have "fst (break_tie now bs (fst ?acc, snd ?acc) (snd (read_score now (bid b) s))) = (b', sc')"
    using Cons.prems by (simp add: case_prod_unfold Let_def fst_read_score split: if_splits)
  from Cons.IH [OF this] show ?case by (auto split: if_splits)
qed simp

lemma lc_select_eq:
  assumes "bs \<noteq> []"
  defines "m \<equiv> Min (activeConnections ` set bs)"
  shows "\<exists>b. fst (lc_select now req bs s) = Some (b, LeastConnectionsReason m (score_of now s (bid b))) \<and>
           b \<in> set bs \<and> activeConnections b = m \<and>
           (\<forall>c \<in> set bs. activeConnections c = m \<longrightarrow> score_of now s (bid c) \<le> score_of now s (bid b))"
proof -
  let ?sel = "filter (\<lambda>b. activeConnections b = m) bs"
  have "m \<in> activeConnections ` set bs" unfolding m_def using assms(1) by (intro Min_in) auto
  then obtain d where d: "d \<in> set bs" "activeConnections d = m" by auto
  then have "?sel \<noteq> []" by (auto simp: filter_empty_conv)
  obtain b' sc' where r: "fst (break_tie now ?sel (Some (hd ?sel), -1) s) = (b', sc')" by fastforce
  note inv = break_tie_invariant [OF r]
  have "0 \<le> score_of now s (bid d)" by (rule score_of_nonneg)
  with inv d have "sc' \<noteq> -1" by fastforce
  with inv obtain b where b: "b \<in> set ?sel" "b' = Some b" "sc' = score_of now s (bid b)" by auto
  have "(case ?sel of [] \<Rightarrow> None | b # _ \<Rightarrow> Some b) = Some (hd ?sel)"
    using \<open>?sel \<noteq> []\<close> by (cases ?sel) auto
  then have "fst (lc_select now req bs s) = Some (b, LeastConnectionsReason m (score_of now s (bid b)))"
    using r b by (simp add: lc_select_def scan_min_correct [OF assms(1)] m_def case_prod_unfold Let_def)
  with b inv show ?thesis by auto
qed

lemma lc_select_frame [simp]:
  "pool (snd (lc_select now req bs s)) = pool s"
  "rrIndex (snd (lc_select now req bs s)) = rrIndex s"
  "wrrIndex (snd (lc_select now req bs s)) = wrrIndex s"
  by (simp_all add: lc_select_def case_prod_unfold Let_def)

interpretation lc: lb_strategy lc_select lb_good pool
proof unfold_locales
  fix bs :: "backend list" and s :: "'b adc_lb_scheme" and now and req :: "'a request_scheme"
  assume bs: "bs \<noteq> []" and "lb_good s"
  from lc_select_eq [OF bs, of now req s] obtain b r where
    "fst (lc_select now req bs s) = Some (b, r)" "b \<in> set bs" by blast
  moreover have "lb_good (snd (lc_select now req bs s))"
    using \<open>lb_good s\<close> by (simp add: lb_good_iff)
  ultimately show "\<exists>b r s'. lc_select now req bs s = (Some (b, r), s') \<and> b \<in> set bs \<and> lb_good s' \<and> pool s' = pool s"
    by (metis lc_select_frame(1) prod.collapse)
qed

text \<open>
  C21: least connections. The chosen candidate has the fewest active connections of all candidates
  and, among those, the highest performance score; the reason reports exactly these two numbers.
\<close>

theorem least_connections_optimal:
  assumes "bs \<noteq> []"
  shows "\<exists>b. fst (lc_select now req bs s) =
             Some (b, LeastConnectionsReason (activeConnections b) (score_of now s (bid b))) \<and> b \<in> set bs \<and>
           (\<forall>c \<in> set bs. activeConnections b < activeConnections c \<or>
              activeConnections c = activeConnections b \<and> score_of now s (bid c) \<le> score_of now s (bid b))"
proof -
  have min: "Min (activeConnections ` set bs) \<le> activeConnections c" if "c \<in> set bs" for c
    using that by simp
  from lc_select_eq [OF assms, of now req s] obtain b where
    b: "fst (lc_select now req bs s) = Some (b, LeastConnectionsReason (activeConnections b) (score_of now s (bid b)))"
    "b \<in> set bs" "activeConnections b = Min (activeConnections ` set bs)"
    and best: "\<forall>c \<in> set bs. activeConnections c = activeConnections b \<longrightarrow> score_of now s (bid c) \<le> score_of now s (bid b)"
    by metis
  have "activeConnections b < activeConnections c \<or>
      activeConnections c = activeConnections b \<and> score_of now s (bid c) \<le> score_of now s (bid b)"
    if "c \<in> set bs" for c
    using min [OF that] that best b(3) by (metis order_le_less)
  with b show ?thesis by blast
qed

theorem least_connections_optimal_witness:
  "\<exists>b. fst (lc_select 3 demo_req (pool (update_backend ''backend-1'' (activeConnections_update (\<lambda>_. 4)) demo_lb)) demo_lb) =
     Some (b, LeastConnectionsReason (activeConnections b) (score_of 3 demo_lb (bid b)))"
proof -
  have "pool (update_backend ''backend-1'' (activeConnections_update (\<lambda>_. 4)) demo_lb) \<noteq> []" by code_simp
  from least_connections_optimal [OF this, of 3 demo_req demo_lb] show ?thesis by blast
qed

end
