(* ===== verification/ConsistentHash.thy ===== *)
theory ConsistentHash
  imports LeastConnections
begin

text \<open>
  \<^verbatim>\<open>src/routing/strategies/consistentHash.js\<close>: the hash ring of virtual nodes. MD5 is not under
  \<^verbatim>\<open>src\<close>: the digest is a parameter \<open>md5\<close> of the definitions that use it, from a string to its
  bytes, of which only the first four are read.
\<close>

type_synonym ring = "(nat \<times> backend_id) list"

section \<open>The ring\<close>

text \<open>\<open>digest().readUInt32BE(0)\<close>.\<close>

definition hash32 :: "(string \<Rightarrow> 8 word list) \<Rightarrow> string \<Rightarrow> nat" where
  "hash32 md5 key = foldl (\<lambda>n b. 256 * n + unat b) 0 (take 4 (md5 key))"

definition vnodesPerWeight :: nat where
  "vnodesPerWeight = 40"

definition vnodeCount :: "backend \<Rightarrow> nat" where
  "vnodeCount b = vnodesPerWeight * max 1 (if weight b = 0 then 1 else weight b)"

definition vnodes :: "(string \<Rightarrow> 8 word list) \<Rightarrow> backend \<Rightarrow> ring" where
  "vnodes md5 b = map (\<lambda>i. (hash32 md5 (bid b @ ''#vnode-'' @ nat_str i), bid b)) [0..<vnodeCount b]"

text \<open>\<open>ring.sort((a, b) => a.hash - b.hash)\<close> is stable.\<close>

definition buildRing :: "(string \<Rightarrow> 8 word list) \<Rightarrow> backend list \<Rightarrow> ring" where
  "buildRing md5 bs = sort_key fst (concat (map (vnodes md5) bs))"

section \<open>Binary search\<close>

function ring_search :: "ring \<Rightarrow> nat \<Rightarrow> int \<Rightarrow> int \<Rightarrow> int \<Rightarrow> int" where
  "ring_search ring targetHash low high result =
     (if low \<le> high then
        let mid = (low + high) div 2 in
        if targetHash \<le> fst (ring ! nat mid)
        then ring_search ring targetHash low (mid - 1) mid
        else ring_search ring targetHash (mid + 1) high result
      else result)"
  by auto
termination
  by (relation "measure (\<lambda>(ring, t, low, high, r). nat (high + 1 - low))") auto

declare ring_search.simps [simp del]

text \<open>On an empty ring \<open>ring[-1].hash\<close> throws, which is \<open>None\<close>.\<close>

definition findRingIndex :: "ring \<Rightarrow> nat \<Rightarrow> nat option" where
  "findRingIndex ring targetHash =
     (if ring = [] then None
      else let low = 0; high = int (length ring) - 1 in
        if fst (ring ! nat high) < targetHash then Some 0
        else Some (nat (ring_search ring targetHash low high 0)))"

definition clientKey :: "'r request_scheme \<Rightarrow> string" where
  "clientKey req = the (or_else (header req ''x-session-id'') (Some (getClientIp req)))"

definition ch_select ::
  "(string \<Rightarrow> 8 word list) \<Rightarrow> time \<Rightarrow> 'r request_scheme \<Rightarrow> backend list \<Rightarrow> 'a adc_lb_scheme \<Rightarrow>
   (backend \<times> lb_reason) option \<times> 'a adc_lb_scheme" where
  "ch_select md5 now req healthyBackends s =
     (case healthyBackends of
        [] \<Rightarrow> (None, s)
      | first # _ \<Rightarrow>
          let key = clientKey req;
              clientHash = hash32 md5 key;
              ring = buildRing md5 healthyBackends
          in case findRingIndex ring clientHash of
               None \<Rightarrow> (Some (first, DynamicSelection), s)
             | Some startIndex \<Rightarrow>
                 let selectedId = snd (ring ! startIndex);
                     selected = (case find_backend selectedId healthyBackends of Some b \<Rightarrow> b | None \<Rightarrow> first)
                 in (Some (selected, ConsistentHashReason key clientHash selectedId startIndex (length ring)), s))"

text \<open>
  Reference: the entries of the ring met when walking clockwise from a hash, once around.
\<close>

definition clockwise :: "nat \<Rightarrow> ring \<Rightarrow> ring" where
  "clockwise t ring = filter (\<lambda>e. t \<le> fst e) ring @ filter (\<lambda>e. fst e < t) ring"

section \<open>Correctness of the search\<close>

lemma ring_search_correct:
  assumes "sorted (map fst ring)" "k < length ring" "t \<le> fst (ring ! k)" "\<forall>i < k. fst (ring ! i) < t"
    "0 \<le> low" "low \<le> int k" "high < int (length ring)"
    "int k \<le> high \<or> int k = high + 1 \<and> r = int k"
  shows "ring_search ring t low high r = int k"
  using assms
proof (induction ring t low high r rule: ring_search.induct)
  case (1 ring t low high r)
  show ?case
  proof (cases "low \<le> high")
    case False
    with "1.prems" show ?thesis by (subst ring_search.simps) auto
  next
    case True
    define mid where "mid = (low + high) div 2"
    have mid: "low \<le> mid" "mid \<le> high" using True by (simp_all add: mid_def)
    show ?thesis
    proof (cases "t \<le> fst (ring ! nat mid)")
      case left: True
      with "1.prems" mid have "int k \<le> mid" by (metis leD le_nat_iff linorder_not_less nat_le_iff order_trans)
      with left True mid "1.prems" "1.IH"(1) [OF True mid_def] show ?thesis
        by (subst ring_search.simps) (simp add: Let_def flip: mid_def, fastforce)
    next
      case right: False
      have "mid < int k"
      proof (rule ccontr)
        assume "\<not> mid < int k"
        then have "k \<le> nat mid" "nat mid < length ring" using mid "1.prems" by auto
        then have "fst (ring ! k) \<le> fst (ring ! nat mid)"
          using "1.prems"(1) sorted_nth_mono [of "map fst ring" k "nat mid"] by simp
        with right "1.prems"(3) show False by simp
      qed
      with right True mid "1.prems" "1.IH"(2) [OF True mid_def] show ?thesis
        by (subst ring_search.simps) (simp add: Let_def flip: mid_def)
    qed
  qed
qed

lemma first_clockwise:
  assumes "k < length ring" "t \<le> fst (ring ! k)" "\<forall>i < k. fst (ring ! i) < t"
  shows "hd (clockwise t ring) = ring ! k"
proof -
  have "filter (\<lambda>e. t \<le> fst e) (take k ring) = []"
    using assms by (force simp: filter_empty_conv in_set_conv_nth)
  then have "filter (\<lambda>e. t \<le> fst e) ring = ring ! k # filter (\<lambda>e. t \<le> fst e) (drop (Suc k) ring)"
    using assms by (subst id_take_nth_drop [OF assms(1)]) simp
  then show ?thesis by (simp add: clockwise_def)
qed

lemma findRingIndex_correct:
  assumes "sorted (map fst ring)" "ring \<noteq> []"
  shows "\<exists>k < length ring. findRingIndex ring t = Some k \<and> ring ! k = hd (clockwise t ring)"
proof (cases "fst (last ring) < t")
  case True
  have at: "nat (int (length ring) - 1) = length ring - 1" by linarith
  have "\<forall>e \<in> set ring. fst e < t"
  proof
    fix e assume "e \<in> set ring"
    then have "fst e \<le> fst (last ring)" using assms by (cases ring rule: rev_cases) (auto simp: sorted_append)
    with True show "fst e < t" by simp
  qed
  then have "clockwise t ring = ring" by (auto simp: clockwise_def filter_empty_conv filter_id_conv)
  with True assms(2) show ?thesis
    by (intro exI [of _ 0]) (simp add: findRingIndex_def Let_def at last_conv_nth hd_conv_nth)
next
  case False
  have at: "nat (int (length ring) - 1) = length ring - 1" by linarith
  define k where "k = (LEAST i. i < length ring \<and> t \<le> fst (ring ! i))"
  have "length ring - 1 < length ring \<and> t \<le> fst (ring ! (length ring - 1))"
    using False assms(2) by (simp add: last_conv_nth)
  note least = LeastI [of "\<lambda>i. i < length ring \<and> t \<le> fst (ring ! i)", OF this]
  then have k: "k < length ring" "t \<le> fst (ring ! k)" by (simp_all add: k_def)
  have below: "\<forall>i < k. fst (ring ! i) < t"
    using not_less_Least [of _ "\<lambda>i. i < length ring \<and> t \<le> fst (ring ! i)"] k(1)
    by (metis k_def leI order.strict_trans)
  have "ring_search ring t 0 (int (length ring) - 1) 0 = int k"
    using assms(1) k below by (intro ring_search_correct) auto
  with False assms(2) k first_clockwise [OF k below] show ?thesis
    by (intro exI [of _ k]) (simp add: findRingIndex_def Let_def at last_conv_nth)
qed

lemma sorted_buildRing: "sorted (map fst (buildRing md5 bs))"
  by (simp add: buildRing_def)

lemma vnodeCount_pos: "0 < vnodeCount b"
  by (simp add: vnodeCount_def vnodesPerWeight_def)

lemma length_buildRing: "length (buildRing md5 bs) = (\<Sum>b\<leftarrow>bs. vnodeCount b)"
  by (simp add: buildRing_def length_concat vnodes_def comp_def)

lemma buildRing_ne [simp]: "buildRing md5 bs = [] \<longleftrightarrow> bs = []"
proof (cases bs)
  case (Cons b bs')
  have "0 < length (buildRing md5 bs)" using vnodeCount_pos [of b] by (simp add: length_buildRing Cons)
  with Cons show ?thesis by auto
qed (simp add: buildRing_def)

lemma buildRing_ids: "e \<in> set (buildRing md5 bs) \<Longrightarrow> snd e \<in> bid ` set bs"
  by (auto simp: buildRing_def vnodes_def)

lemma set_clockwise [simp]: "set (clockwise t ring) = set ring"
  by (auto simp: clockwise_def)

lemma clockwise_ne [simp]: "clockwise t ring = [] \<longleftrightarrow> ring = []"
  using set_clockwise [of t ring] by (metis set_empty)

lemma filter_clockwise: "filter P (clockwise t ring) = clockwise t (filter P ring)"
  by (simp add: clockwise_def conj_commute)

lemma buildRing_filter:
  "buildRing md5 (filter (\<lambda>b. Q (bid b)) bs) = filter (\<lambda>e. Q (snd e)) (buildRing md5 bs)"
proof -
  have "filter (\<lambda>e. Q (snd e)) (vnodes md5 b) = (if Q (bid b) then vnodes md5 b else [])" for b
    by (auto simp: vnodes_def filter_map comp_def)
  then have "concat (map (vnodes md5) (filter (\<lambda>b. Q (bid b)) bs)) =
      filter (\<lambda>e. Q (snd e)) (concat (map (vnodes md5) bs))"
    by (induction bs) simp_all
  then show ?thesis by (simp add: buildRing_def filter_sort)
qed

section \<open>The strategy\<close>

definition ring_owner :: "(string \<Rightarrow> 8 word list) \<Rightarrow> string \<Rightarrow> ring \<Rightarrow> backend_id" where
  "ring_owner md5 key ring = snd (hd (clockwise (hash32 md5 key) ring))"

lemma ch_select_owner:
  assumes "bs \<noteq> []"
  shows "\<exists>b k. ch_select md5 now req bs s =
           (Some (b, ConsistentHashReason (clientKey req) (hash32 md5 (clientKey req)) (bid b) k
                       (\<Sum>b\<leftarrow>bs. vnodeCount b)), s) \<and>
           b \<in> set bs \<and> bid b = ring_owner md5 (clientKey req) (buildRing md5 bs) \<and>
           k < (\<Sum>b\<leftarrow>bs. vnodeCount b) \<and> find_backend (bid b) bs = Some b"
proof -
  let ?ring = "buildRing md5 bs" and ?t = "hash32 md5 (clientKey req)"
  obtain k where k: "k < length ?ring" "findRingIndex ?ring ?t = Some k" "?ring ! k = hd (clockwise ?t ?ring)"
    using findRingIndex_correct [OF sorted_buildRing, of md5 bs ?t] assms by auto
  have "snd (?ring ! k) \<in> bid ` set bs" using k(1) by (intro buildRing_ids [of _ md5]) simp
  then obtain b where b: "find_backend (snd (?ring ! k)) bs = Some b"
    by (metis find_None_iff_key find_backend_def not_None_eq)
  then have "bid b = snd (?ring ! k)" "b \<in> set bs" by (auto simp: find_backend_def dest: find_Some_in)
  with b k assms show ?thesis
    by (cases bs) (auto simp: ch_select_def Let_def ring_owner_def length_buildRing)
qed

interpretation ch: lb_strategy "ch_select md5" lb_good pool
proof unfold_locales
  fix bs :: "backend list" and s :: "'b adc_lb_scheme" and now and req :: "'a request_scheme"
  assume "bs \<noteq> []" "lb_good s"
  with ch_select_owner [of bs md5 now req s]
  show "\<exists>b r s'. ch_select md5 now req bs s = (Some (b, r), s') \<and> b \<in> set bs \<and> lb_good s' \<and> pool s' = pool s"
    by blast
qed

text \<open>
  C20: consistent hashing. The ring holds 40 virtual nodes per unit of weight in ascending order;
  a request is sent to the owner of the first virtual node met clockwise from the hash of its
  session id or client address; and when only the backends satisfying \<open>Q\<close> are healthy it is sent to
  the owner of the first healthy node of the same walk over the ring of all backends.
\<close>

theorem consistent_hash_clockwise:
  fixes md5 and req :: "'r request_scheme"
  assumes "b\<^sub>0 \<in> set bs" "Q (bid b\<^sub>0)"
  defines "walk \<equiv> clockwise (hash32 md5 (clientKey req)) (buildRing md5 bs)"
    and "alive \<equiv> filter (\<lambda>b. Q (bid b)) bs"
  shows "sorted (map fst (buildRing md5 bs)) \<and> length walk = (\<Sum>b\<leftarrow>bs. vnodeCount b) \<and>
         (\<exists>b r. fst (ch_select md5 now req bs s) = Some (b, r) \<and> bid b = snd (hd walk)) \<and>
         (\<exists>b r. fst (ch_select md5 now req alive s) = Some (b, r) \<and> b \<in> set alive \<and>
            bid b = snd (hd (filter (\<lambda>e. Q (snd e)) walk)))"
proof -
  have ne: "bs \<noteq> []" "alive \<noteq> []" using assms(1,2) by (auto simp: alive_def filter_empty_conv)
  have "length walk = length (buildRing md5 bs)"
    by (simp add: walk_def clockwise_def sum_length_filter_compl flip: not_le)
  moreover have "filter (\<lambda>e. Q (snd e)) walk = clockwise (hash32 md5 (clientKey req)) (buildRing md5 alive)"
    by (simp add: walk_def alive_def filter_clockwise buildRing_filter)
  ultimately show ?thesis
    using ch_select_owner [OF ne(1), of md5 now req s] ch_select_owner [OF ne(2), of md5 now req s]
    by (auto simp: sorted_buildRing length_buildRing ring_owner_def walk_def)
qed

definition demo_md5 :: "string \<Rightarrow> 8 word list" where
  "demo_md5 key = map of_char (rev key) @ [1, 2, 3, 4]"

theorem consistent_hash_clockwise_witness:
  "\<exists>b r. fst (ch_select demo_md5 0 demo_req (filter (\<lambda>b. bid b = ''backend-2'') (pool demo_lb)) demo_lb) = Some (b, r) \<and>
     bid b = snd (hd (filter (\<lambda>e. snd e = ''backend-2'')
       (clockwise (hash32 demo_md5 (clientKey demo_req)) (buildRing demo_md5 (pool demo_lb)))))"
proof -
  have "map bid (pool demo_lb) = [''backend-1'', ''backend-2'']" by code_simp
  then have "''backend-2'' \<in> bid ` set (pool demo_lb)" by (simp flip: set_map)
  then obtain b0 where "b0 \<in> set (pool demo_lb)" "bid b0 = ''backend-2''" by auto
  from consistent_hash_clockwise [OF this(1), of "\<lambda>i. i = ''backend-2''" demo_md5 demo_req 0 demo_lb] this(2)
  show ?thesis by blast
qed



end
