(* ===== verification/Routing.thy ===== *)
theory Routing
  imports ConsistentHash
begin

text \<open>
  \<^verbatim>\<open>src/routing/strategyFactory.js\<close>, \<^verbatim>\<open>src/routing/routingEngine.js\<close>, \<^verbatim>\<open>src/api/adminRoutes.js\<close> and the pool
  part of \<^verbatim>\<open>src/api/statusRoutes.js\<close>: which backend a request goes to, and how an administrator steers
  that. The engine keeps \<open>_algorithm\<close> and \<open>_strategy\<close>, always the strategy of that name, so the
  state holds the name. Deciding who is healthy is not free of effects: \<open>getHealthyBackends\<close> asks
  the circuit breaker of every member whose flag is set, which may start a half-open probe.
\<close>

record adc_rt = adc_lb +
  algorithm :: string

section \<open>The strategy factory\<close>

text \<open>
  \<open>this.strategies[name]\<close> is a plain object: a name its prototype defines yields an inherited
  value, which is not a strategy but is truthy.
\<close>

datatype strategy =
    RoundRobinStrategy
  | LeastConnectionsStrategy
  | WeightedRoundRobinStrategy
  | IpHashStrategy
  | ConsistentHashStrategy
  | InheritedProperty string

definition object_prototype :: "string list" where
  "object_prototype =
     [''constructor'', ''__defineGetter__'', ''__defineSetter__'', ''hasOwnProperty'',
      ''__lookupGetter__'', ''__lookupSetter__'', ''isPrototypeOf'', ''propertyIsEnumerable'',
      ''toString'', ''valueOf'', ''__proto__'', ''toLocaleString'']"

definition strategies :: "(string \<times> strategy) list" where
  "strategies =
     [(''round-robin'', RoundRobinStrategy), (''least-connections'', LeastConnectionsStrategy),
      (''weighted-round-robin'', WeightedRoundRobinStrategy), (''ip-hash'', IpHashStrategy),
      (''consistent-hash'', ConsistentHashStrategy)]"

definition getStrategy :: "string \<Rightarrow> string + strategy" where
  "getStrategy name =
     (case map_of strategies name of
        Some strategy \<Rightarrow> Inr strategy
      | None \<Rightarrow>
          if name \<in> set object_prototype then Inr (InheritedProperty name)
          else Inl (''Unknown load balancing algorithm: '' @ name))"

definition getAvailableAlgorithms :: "string list" where
  "getAvailableAlgorithms = map fst strategies"

text \<open>\<open>strategy.select(backends, req)\<close>; an inherited value has no \<open>select\<close> and the call throws.\<close>

fun strategy_select ::
  "(string \<Rightarrow> 8 word list) \<Rightarrow> strategy \<Rightarrow> time \<Rightarrow> 'r request_scheme \<Rightarrow> backend list \<Rightarrow> 'a adc_lb_scheme \<Rightarrow>
   (backend \<times> lb_reason) option \<times> 'a adc_lb_scheme" where
  "strategy_select md5 RoundRobinStrategy now req bs s = rr_select now req bs s"
| "strategy_select md5 LeastConnectionsStrategy now req bs s = lc_select now req bs s"
| "strategy_select md5 WeightedRoundRobinStrategy now req bs s = wrr_select now req bs s"
| "strategy_select md5 IpHashStrategy now req bs s = ipHash_select now req bs s"
| "strategy_select md5 ConsistentHashStrategy now req bs s = ch_select md5 now req bs s"
| "strategy_select md5 (InheritedProperty _) now req bs s = (None, s)"

section \<open>The routing engine\<close>

fun filter_healthy :: "cb_config \<Rightarrow> time \<Rightarrow> backend_id list \<Rightarrow> 'a adc_cb_scheme \<Rightarrow> backend_id list \<times> 'a adc_cb_scheme" where
  "filter_healthy cfg now [] s = ([], s)"
| "filter_healthy cfg now (i # is) s =
     (let (keep, s) =
            (case get_backend i s of
               Some b \<Rightarrow> if healthy b then canExecute cfg now i s else (False, s)
             | None \<Rightarrow> (False, s));
          (rest, s) = filter_healthy cfg now is s
      in (if keep then i # rest else rest, s))"

definition getHealthyBackends :: "cb_config \<Rightarrow> time \<Rightarrow> 'a adc_cb_scheme \<Rightarrow> backend_id list \<times> 'a adc_cb_scheme" where
  "getHealthyBackends cfg now s = filter_healthy cfg now (ids s) s"

text \<open>
  \<open>Selected i algorithm reason\<close> sets \<open>_targetBackend\<close>, \<open>_backendId\<close>, \<open>_lbAlgorithm\<close> and \<open>_lbReason\<close> of
  the request; \<open>SelectThrows\<close> is a TypeError of the strategy.
\<close>

datatype selection = NoBackend | SelectThrows | Selected backend_id string lb_reason

definition selectBackend ::
  "cb_config \<Rightarrow> (string \<Rightarrow> 8 word list) \<Rightarrow> time \<Rightarrow> 'r request_scheme \<Rightarrow> backend_id list \<Rightarrow> 'a adc_rt_scheme \<Rightarrow>
   selection \<times> 'a adc_rt_scheme" where
  "selectBackend cfg md5 now req failedBackends s =
     (let (healthy, s) = getHealthyBackends cfg now s;
          candidates = filter (\<lambda>i. i \<notin> set failedBackends) healthy;
          healthy = (if failedBackends \<noteq> [] \<and> candidates \<noteq> [] then candidates else healthy)
      in if healthy = [] then (NoBackend, s)
         else case getStrategy (algorithm s) of
             Inl e \<Rightarrow> (SelectThrows, s)
           | Inr strategy \<Rightarrow>
               (case strategy_select md5 strategy now req (List.map_filter (\<lambda>i. get_backend i s) healthy) s of
                  (None, s) \<Rightarrow> (SelectThrows, s)
                | (Some (backend, reason), s) \<Rightarrow> (Selected (bid backend) (algorithm s) reason, s)))"

definition setAlgorithm :: "string \<Rightarrow> 'a adc_rt_scheme \<Rightarrow> (string + unit) \<times> 'a adc_rt_scheme" where
  "setAlgorithm name s =
     (case getStrategy name of
        Inl e \<Rightarrow> (Inl e, s)
      | Inr strategy \<Rightarrow> (Inr (), s\<lparr>algorithm := name\<rparr>))"

text \<open>The constructor of the engine: an unknown configured algorithm stops the start-up.\<close>

definition init_routing :: "string \<Rightarrow> 'a adc_rt_scheme \<Rightarrow> (string + unit) \<times> 'a adc_rt_scheme" where
  "init_routing name s = setAlgorithm name s"

section \<open>Admin and status routes\<close>

text \<open>The replies of the admin API: the status code and, for a refusal, the error text.\<close>

datatype 'v api_reply = Ok 'v | Refused nat string

definition putAlgorithm :: "string option \<Rightarrow> 'a adc_rt_scheme \<Rightarrow> string api_reply \<times> 'a adc_rt_scheme" where
  "putAlgorithm body_algorithm s =
     (if \<not> truthy_str body_algorithm
      then (Refused 400 ''Missing required field: \"algorithm\"'', s)
      else case setAlgorithm (the body_algorithm) s of
             (Inl e, s) \<Rightarrow> (Refused 400 e, s)
           | (Inr _, s) \<Rightarrow> (Ok (algorithm s), s))"

text \<open>\<open>parseInt(undefined, 10)\<close> is NaN.\<close>

definition putWeight :: "backend_id \<Rightarrow> string option \<Rightarrow> 'a adc_scheme \<Rightarrow> backend api_reply \<times> 'a adc_scheme" where
  "putWeight i body_weight s =
     (case Option.bind body_weight js_parseInt of
        None \<Rightarrow> (Refused 400 ''Weight must be a non-negative integer'', s)
      | Some w \<Rightarrow>
          if w < 0 then (Refused 400 ''Weight must be a non-negative integer'', s)
          else case get_backend i s of
                 None \<Rightarrow> (Refused 404 (not_found i), s)
               | Some b \<Rightarrow> (Ok (b\<lparr>weight := nat w\<rparr>), update_backend i (weight_update (\<lambda>_. nat w)) s))"

definition postDrain ::
  "time \<Rightarrow> backend_id \<Rightarrow> string option \<Rightarrow> string option \<Rightarrow> 'a adc_dr_scheme \<Rightarrow> drain_reply api_reply \<times> 'a adc_dr_scheme" where
  "postDrain now i body_timeout query_timeout s =
     (let timeoutSec = parse_or (or_else body_timeout query_timeout) 30
      in case drainBackend now i timeoutSec s of
           (Inl e, s) \<Rightarrow> (Refused 404 e, s)
         | (Inr r, s) \<Rightarrow> (Ok r, s))"

definition postUndrain :: "backend_id \<Rightarrow> 'a adc_dr_scheme \<Rightarrow> unit api_reply \<times> 'a adc_dr_scheme" where
  "postUndrain i s =
     (case undrainBackend i s of
        (Inl e, s) \<Rightarrow> (Refused 404 e, s)
      | (Inr r, s) \<Rightarrow> (Ok r, s))"

record status_view =
  sv_operational :: bool
  sv_algorithm :: string
  sv_total :: nat
  sv_healthy :: nat
  sv_unhealthy :: int
  sv_pool :: "(backend_id \<times> string \<times> health_status \<times> bool \<times> nat) list"

definition getStatus :: "cb_config \<Rightarrow> time \<Rightarrow> 'a adc_rt_scheme \<Rightarrow> status_view \<times> 'a adc_rt_scheme" where
  "getStatus cfg now s =
     (let (healthy_ids, s) = getHealthyBackends cfg now s
      in (\<lparr>sv_operational = healthy_ids \<noteq> [], sv_algorithm = algorithm s,
           sv_total = length (pool s), sv_healthy = length healthy_ids,
           sv_unhealthy = int (length (pool s)) - int (length healthy_ids),
           sv_pool = map (\<lambda>b. (bid b, url b, status b, healthy b, weight b)) (pool s)\<rparr>, s))"

section \<open>What the breakers leave alone\<close>

lemma lb_fields_cb [adc_frame, simp]:
  "rrIndex (put_breaker i br s) = rrIndex s"
  "wrrIndex (put_breaker i br s) = wrrIndex s"
  "rrIndex (update_backend i f s) = rrIndex s"
  "wrrIndex (update_backend i f s) = wrrIndex s"
  "rrIndex (logEvent now t req d s) = rrIndex s"
  "wrrIndex (logEvent now t req d s) = wrrIndex s"
  "algorithm (put_breaker i br s') = algorithm s'"
  "algorithm (update_backend i f s') = algorithm s'"
  "algorithm (logEvent now t req d s') = algorithm s'"
  by (simp_all add: put_breaker_def update_backend_def logEvent_def)

lemma lb_fields_transition [adc_frame, simp]:
  "rrIndex (transitionTo now i br st r s) = rrIndex s"
  "wrrIndex (transitionTo now i br st r s) = wrrIndex s"
  "algorithm (transitionTo now i br st r s') = algorithm s'"
  "rrIndex (update_breaker i g s) = rrIndex s"
  "wrrIndex (update_breaker i g s) = wrrIndex s"
  "algorithm (update_breaker i g s') = algorithm s'"
  by (simp_all add: transitionTo_def update_breaker_def Let_def split: circuit_state.split option.split)

lemma lb_fields_cb_apply [adc_frame]:
  "rrIndex (snd (cb_apply cfg now ev i s)) = rrIndex s"
  "wrrIndex (snd (cb_apply cfg now ev i s)) = wrrIndex s"
  "algorithm (snd (cb_apply cfg now ev i s')) = algorithm s'"
  by (cases ev, auto simp: cb_op_defs Let_def split: option.split circuit_state.split)+

lemma ids_cb_apply [adc_frame]: "ids (snd (cb_apply cfg now ev i s)) = ids s"
proof -
  have t: "ids (transitionTo now i br st r s) = ids s" for br st r and s :: "'a adc_cb_scheme"
    by (simp add: transitionTo_def Let_def ids_def update_backend_def map_modify_first split: circuit_state.split)
  have u: "ids (update_breaker i g s) = ids s" "ids (put_breaker i br s) = ids s" for br g and s :: "'a adc_cb_scheme"
    by (simp_all add: update_breaker_def ids_def split: option.split)
  show ?thesis
    by (cases ev) (auto simp: cb_op_defs Let_def t u split: option.split circuit_state.split)
qed

lemma canExecute_frame [adc_frame, simp]:
  "rrIndex (snd (canExecute cfg now i s)) = rrIndex s"
  "wrrIndex (snd (canExecute cfg now i s)) = wrrIndex s"
  "algorithm (snd (canExecute cfg now i s')) = algorithm s'"
  "ids (snd (canExecute cfg now i t)) = ids t"
  using lb_fields_cb_apply [of cfg now Ask] ids_cb_apply [of cfg now Ask] by simp_all

lemma filter_healthy_frame [adc_frame, simp]:
  "rrIndex (snd (filter_healthy cfg now is s)) = rrIndex s"
  "wrrIndex (snd (filter_healthy cfg now is s)) = wrrIndex s"
  "algorithm (snd (filter_healthy cfg now is s')) = algorithm s'"
  "ids (snd (filter_healthy cfg now is t)) = ids t"
  by (induction "is" arbitrary: s s' t) (simp_all add: case_prod_unfold Let_def split: option.split)

lemma getHealthyBackends_frame [adc_frame, simp]:
  "rrIndex (snd (getHealthyBackends cfg now s)) = rrIndex s"
  "wrrIndex (snd (getHealthyBackends cfg now s)) = wrrIndex s"
  "algorithm (snd (getHealthyBackends cfg now s')) = algorithm s'"
  "ids (snd (getHealthyBackends cfg now t)) = ids t"
  by (simp_all add: getHealthyBackends_def)

lemma lb_good_getHealthyBackends [adc_inv]: "lb_good s \<Longrightarrow> lb_good (snd (getHealthyBackends cfg now s))"
  by (simp add: lb_good_iff)

lemma algorithm_metrics [adc_frame, simp]:
  "algorithm (cleanup now i s) = algorithm s"
  "algorithm (snd (read_score now i s)) = algorithm s"
  by (simp_all add: cleanup_def put_history_def read_score_def getBackendMetrics_def Let_def case_prod_unfold
      split: option.split)

lemma algorithm_read_scores [adc_frame, simp]:
  "algorithm (snd (read_scores now is s)) = algorithm s"
  "algorithm (snd (break_tie now bs acc s)) = algorithm s"
  by (induction "is" arbitrary: s, simp_all add: case_prod_unfold Let_def)
    (induction bs arbitrary: acc s, simp_all add: case_prod_unfold Let_def)

lemma algorithm_strategy_select [adc_frame, simp]:
  "algorithm (snd (strategy_select md5 strategy now req bs s)) = algorithm s"
  by (cases strategy)
    (auto simp: rr_select_def lc_select_def wrr_select_def ipHash_select_def ch_select_def
      case_prod_unfold Let_def split: option.split list.split)

section \<open>The contract of the strategies\<close>

definition is_strategy :: "strategy \<Rightarrow> bool" where
  "is_strategy st \<longleftrightarrow> (case st of InheritedProperty _ \<Rightarrow> False | _ \<Rightarrow> True)"

lemma strategy_select_candidate:
  assumes "is_strategy st" "bs \<noteq> []" "lb_good s"
  shows "\<exists>b r s'. strategy_select md5 st now req bs s = (Some (b, r), s') \<and> b \<in> set bs \<and> lb_good s' \<and> pool s' = pool s"
  using assms(1) rr.select_candidate [OF assms(2,3)] lc.select_candidate [OF assms(2,3)]
    wrr.select_candidate [OF assms(2,3)] iph.select_candidate [OF assms(2,3)]
    ch.select_candidate [OF assms(2,3)]
  by (cases st) (simp_all add: is_strategy_def)

lemma getStrategy_known:
  "name \<in> set getAvailableAlgorithms \<Longrightarrow> \<exists>st. getStrategy name = Inr st \<and> is_strategy st"
  by (auto simp: getAvailableAlgorithms_def strategies_def getStrategy_def is_strategy_def)

text \<open>The engine under any of the advertised algorithms meets the contract of a strategy.\<close>

definition engine_strategy :: "string \<Rightarrow> strategy" where
  "engine_strategy name = (case map_of strategies name of Some st \<Rightarrow> st | None \<Rightarrow> RoundRobinStrategy)"

interpretation engine: lb_strategy "strategy_select md5 (engine_strategy name)" lb_good pool
proof unfold_locales
  fix bs :: "backend list" and s :: "'b adc_lb_scheme" and now and req :: "'a request_scheme"
  assume "bs \<noteq> []" "lb_good s"
  moreover have "is_strategy (engine_strategy name)"
    by (auto simp: engine_strategy_def is_strategy_def strategies_def)
  ultimately show "\<exists>b r s'. strategy_select md5 (engine_strategy name) now req bs s = (Some (b, r), s') \<and>
      b \<in> set bs \<and> lb_good s' \<and> pool s' = pool s"
    by (intro strategy_select_candidate)
qed

section \<open>Who is eligible\<close>

definition eligible :: "cb_config \<Rightarrow> time \<Rightarrow> 'a adc_cb_scheme \<Rightarrow> backend_id \<Rightarrow> bool" where
  "eligible cfg now s i \<longleftrightarrow>
     (case get_backend i s of Some b \<Rightarrow> healthy b | None \<Rightarrow> False) \<and> fst (canExecute cfg now i s)"

lemma canExecute_disabled: "\<not> cb_enabled cfg \<Longrightarrow> canExecute cfg now i s = (True, s)"
  by (simp add: canExecute_def)

lemma canExecute_answer:
  "fst (canExecute cfg now i s) \<longleftrightarrow> (cb_enabled cfg \<longrightarrow> fst (spec_next cfg now Ask (cb_abs i s)))"
proof (cases "cb_enabled cfg")
  case True
  have "map_prod id (cb_abs i) (canExecute cfg now i s) = spec_next cfg now Ask (cb_abs i s)"
    using cb_apply_simulates [OF True, of i now Ask s] by simp
  with True show ?thesis by (metis fst_map_prod id_apply)
qed (simp add: canExecute_disabled)

lemma eligible_other:
  assumes "j \<noteq> i"
  shows "eligible cfg now (snd (canExecute cfg now i s)) j = eligible cfg now s j"
  using cb_apply_other [OF assms, of cfg now Ask s] cb_apply_other_backend [OF assms, of cfg now Ask s]
  by (simp add: eligible_def canExecute_answer)

lemma filter_healthy_eligible:
  "distinct is \<Longrightarrow> fst (filter_healthy cfg now is s) = filter (eligible cfg now s) is"
proof (induction "is" arbitrary: s)
  case (Cons i "is")
  let ?r = "case get_backend i s of
      Some b \<Rightarrow> if healthy b then canExecute cfg now i s else (False, s) | None \<Rightarrow> (False, s)"
  have "fst ?r = eligible cfg now s i" by (auto simp: eligible_def split: option.split)
  moreover have "eligible cfg now (snd ?r) j = eligible cfg now s j" if "j \<in> set is" for j
    using that Cons.prems by (auto intro!: eligible_other split: option.split)
  then have "filter (eligible cfg now (snd ?r)) is = filter (eligible cfg now s) is"
    by (rule filter_cong [OF refl])
  ultimately show ?case using Cons.IH [of "snd ?r"] Cons.prems
    by (simp add: case_prod_unfold Let_def)
qed simp

lemma getHealthyBackends_eligible:
  "pool_ok s \<Longrightarrow> fst (getHealthyBackends cfg now s) = filter (eligible cfg now s) (ids s)"
  by (simp add: getHealthyBackends_def filter_healthy_eligible pool_ok_ids)

section \<open>Properties of the routing engine\<close>

definition routable :: "'a adc_rt_scheme \<Rightarrow> bool" where
  "routable s \<longleftrightarrow> pool_ok s \<and> lb_good s \<and> algorithm s \<in> set getAvailableAlgorithms"

lemma map_filter_get:
  assumes "pool_ok s" "set is \<subseteq> set (ids s)"
  shows "map bid (List.map_filter (\<lambda>i. get_backend i s) is) = is"
  using assms(2)
proof (induction "is")
  case (Cons i "is")
  then obtain b where "get_backend i s = Some b" using get_backend_None [of i s] by auto
  then show ?case using Cons get_backend_bid [of i s b] by (simp add: List.map_filter_simps)
qed (simp add: List.map_filter_simps)

definition candidate_ids :: "cb_config \<Rightarrow> time \<Rightarrow> backend_id list \<Rightarrow> 'a adc_cb_scheme \<Rightarrow> backend_id list" where
  "candidate_ids cfg now failed s =
     (let h = filter (eligible cfg now s) (ids s); c = filter (\<lambda>i. i \<notin> set failed) h
      in if c = [] then h else c)"

lemma candidate_ids_nil:
  "candidate_ids cfg now failed s = [] \<longleftrightarrow> (\<forall>i \<in> set (ids s). \<not> eligible cfg now s i)"
  by (auto simp: candidate_ids_def Let_def filter_empty_conv)

lemma selectBackend_cases:
  assumes "routable s"
  shows "if candidate_ids cfg now failed s = [] then fst (selectBackend cfg md5 now req failed s) = NoBackend
         else \<exists>i r. fst (selectBackend cfg md5 now req failed s) = Selected i (algorithm s) r \<and>
                i \<in> set (candidate_ids cfg now failed s)"
proof -
  let ?s = "snd (getHealthyBackends cfg now s)" and ?c = "candidate_ids cfg now failed s"
  have h: "fst (getHealthyBackends cfg now s) = filter (eligible cfg now s) (ids s)"
    using assms by (simp add: routable_def getHealthyBackends_eligible)
  have c: "(if failed \<noteq> [] \<and> filter (\<lambda>i. i \<notin> set failed) (fst (getHealthyBackends cfg now s)) \<noteq> []
      then filter (\<lambda>i. i \<notin> set failed) (fst (getHealthyBackends cfg now s))
      else fst (getHealthyBackends cfg now s)) = ?c"
    unfolding h candidate_ids_def by (auto simp: Let_def)
  show ?thesis
  proof (cases "?c = []")
    case True
    then show ?thesis unfolding selectBackend_def
      by (simp add: case_prod_unfold Let_def c [simplified])
  next
    case False
    obtain st where st: "getStrategy (algorithm s) = Inr st" "is_strategy st"
      using getStrategy_known assms by (auto simp: routable_def)
    have sub: "set ?c \<subseteq> set (ids ?s)" by (auto simp: candidate_ids_def Let_def)
    have ok: "pool_ok ?s" using assms by (simp add: pool_ok_ids routable_def)
    let ?bs = "List.map_filter (\<lambda>i. get_backend i ?s) ?c"
    have bs: "map bid ?bs = ?c" by (rule map_filter_get [OF ok sub])
    then have "?bs \<noteq> []" using False by auto
    moreover have "lb_good ?s" using assms by (simp add: lb_good_getHealthyBackends routable_def)
    ultimately obtain b r s' where sel: "strategy_select md5 st now req ?bs ?s = (Some (b, r), s')" "b \<in> set ?bs"
      using strategy_select_candidate [OF st(2)] by blast
    then have "algorithm s' = algorithm s"
      using algorithm_strategy_select [of md5 st now req ?bs ?s] by simp
    moreover have "bid b \<in> set ?c" using bs sel(2) by (metis image_eqI set_map)
    ultimately show ?thesis
      using False st(1) sel unfolding selectBackend_def
      by (simp add: case_prod_unfold Let_def c [simplified])
  qed
qed

text \<open>
  C1: routing is sound and complete. Under an advertised algorithm, a selected backend is a member
  of the pool whose health flag was set and whose circuit breaker admitted the request; it has not
  failed this request before unless every admitted backend has; and \<open>503\<close>-type refusals
  (\<open>NoBackend\<close>) happen exactly when no member is healthy and admitted. The strategy never throws.
\<close>

theorem routing_sound_and_complete:
  assumes "routable s"
  shows "case fst (selectBackend cfg md5 now req failed s) of
           Selected i alg r \<Rightarrow> alg = algorithm s \<and> i \<in> set (ids s) \<and> eligible cfg now s i \<and>
             (i \<in> set failed \<longrightarrow> (\<forall>j \<in> set (ids s). eligible cfg now s j \<longrightarrow> j \<in> set failed))
         | NoBackend \<Rightarrow> (\<forall>i \<in> set (ids s). \<not> eligible cfg now s i)
         | SelectThrows \<Rightarrow> False"
proof (cases "candidate_ids cfg now failed s = []")
  case True
  then show ?thesis
    using selectBackend_cases [OF assms, of cfg now failed md5 req] candidate_ids_nil [of cfg now failed s]
    by simp
next
  case False
  with selectBackend_cases [OF assms, of cfg now failed md5 req] obtain i r where
    i: "fst (selectBackend cfg md5 now req failed s) = Selected i (algorithm s) r"
    "i \<in> set (candidate_ids cfg now failed s)" by auto
  from i(2) have "i \<in> set (ids s)" "eligible cfg now s i"
    "i \<in> set failed \<Longrightarrow> \<forall>j \<in> set (ids s). eligible cfg now s j \<longrightarrow> j \<in> set failed"
    by (auto simp: candidate_ids_def Let_def filter_empty_conv split: if_splits)
  with i(1) show ?thesis by simp
qed

lemma routing_eligible:
  assumes "routable s" "fst (selectBackend cfg md5 now req failed s) = Selected i alg r"
  shows "eligible cfg now s i"
  using selectBackend_cases [OF assms(1), of cfg now failed md5 req] assms(2)
  by (auto simp: candidate_ids_def Let_def split: if_splits)

definition demo_rt :: adc_rt where
  "demo_rt = adc_lb.extend demo_lb \<lparr>algorithm = ''round-robin''\<rparr>"

theorem routing_sound_and_complete_witness:
  "case fst (selectBackend demo_cfg demo_md5 10 demo_req [''backend-1''] demo_rt) of
     Selected i alg r \<Rightarrow> alg = ''round-robin'' \<and> i = ''backend-2'' | _ \<Rightarrow> False"
proof -
  have "routable demo_rt" by code_simp
  have ids: "ids demo_rt = [''backend-1'', ''backend-2'']" "algorithm demo_rt = ''round-robin''"
    by (code_simp, code_simp)
  have "eligible demo_cfg 10 demo_rt ''backend-2''" by code_simp
  then show ?thesis
    using routing_sound_and_complete
        [OF \<open>routable demo_rt\<close>, of demo_cfg 10 "[''backend-1'']" demo_md5 demo_req]
    by (auto simp: ids split: selection.splits)
qed

text \<open>
  A drained, offline or failed member gets no traffic. A backend whose health flag is off is
  never selected, under whatever algorithm, breaker configuration and retry history.
\<close>

theorem unhealthy_never_selected:
  assumes "routable s" "get_backend i s = Some b" "\<not> healthy b"
  shows "\<forall>alg r. fst (selectBackend cfg md5 now req failed s) \<noteq> Selected i alg r"
  using routing_eligible [OF assms(1)] assms(2,3) by (fastforce simp: eligible_def)

theorem unhealthy_never_selected_witness:
  "\<forall>alg r. fst (selectBackend demo_cfg demo_md5 10 demo_req []
     (update_backend ''backend-1'' (set_health False Draining) demo_rt)) \<noteq> Selected ''backend-1'' alg r"
proof -
  let ?s = "update_backend ''backend-1'' (set_health False Draining) demo_rt"
  have "routable ?s" by code_simp
  moreover have "map_option healthy (get_backend ''backend-1'' ?s) = Some False" by code_simp
  then obtain b where "get_backend ''backend-1'' ?s = Some b" "\<not> healthy b" by auto
  ultimately show ?thesis by (rule unhealthy_never_selected)
qed

text \<open>
  C26: routing traffic never probes an open breaker. While the health flag follows the breaker, the
  engine's \<open>b.healthy\<close> test comes before \<open>canExecute\<close>, so a tripped backend is never asked, its
  cool-down is never noticed and it stays open at any time: only a health probe can bring it back.
\<close>

theorem routing_never_probes_open_breaker:
  assumes "cb_sync i s" "get_backend i s = Some b" "cb_abs i s = SOpen t"
  shows "cb_abs i (snd (getHealthyBackends cfg now s)) = SOpen t \<and>
         i \<notin> set (fst (getHealthyBackends cfg now s)) \<and>
         get_backend i (snd (getHealthyBackends cfg now s)) = Some b"
proof -
  have off: "\<not> healthy b" using assms by (simp add: cb_sync_def)
  have "cb_abs i (snd (filter_healthy cfg now is s)) = SOpen t \<and> i \<notin> set (fst (filter_healthy cfg now is s)) \<and>
      get_backend i (snd (filter_healthy cfg now is s)) = Some b"
    if "get_backend i s = Some b" "cb_abs i s = SOpen t" for "is" and s :: "'a adc_cb_scheme"
    using that
  proof (induction "is" arbitrary: s)
    case (Cons j "is")
    show ?case
    proof (cases "j = i")
      case False
      then have "i \<noteq> j" by simp
      from Cons cb_apply_other [OF this, of cfg now Ask s] cb_apply_other_backend [OF this, of cfg now Ask s] False
      show ?thesis by (auto simp: case_prod_unfold Let_def split: option.split)
    qed (use Cons off in \<open>simp add: case_prod_unfold Let_def\<close>)
  qed simp
  with assms show ?thesis by (simp add: getHealthyBackends_def)
qed

definition demo_tripped :: adc_rt where
  "demo_tripped = fold (\<lambda>t. recordFailure demo_cfg t ''backend-1'' ''ETIMEDOUT'') [5, 6, 7, 8, 9] demo_rt"

theorem routing_never_probes_open_breaker_witness:
  "cb_abs ''backend-1'' (snd (getHealthyBackends demo_cfg 9000000 demo_tripped)) = SOpen 9"
proof -
  have t: "cb_abs ''backend-1'' demo_tripped = SOpen 9" by code_simp
  have "map_option healthy (get_backend ''backend-1'' demo_tripped) = Some False" by code_simp
  then obtain b where b: "get_backend ''backend-1'' demo_tripped = Some b" "\<not> healthy b" by auto
  then have "cb_sync ''backend-1'' demo_tripped" by (simp add: cb_sync_def t)
  from routing_never_probes_open_breaker [OF this b(1) t, of demo_cfg 9000000] show ?thesis by simp
qed

text \<open>
  Switching the algorithm. Exactly the five advertised names and the names every JavaScript
  object inherits are accepted; an advertised name keeps the gateway routable, and after an
  inherited one (such as \<open>constructor\<close>) every selection from a non-empty candidate set throws.
\<close>

theorem algorithm_switch:
  fixes name :: string
  assumes "routable s"
  defines "s' \<equiv> snd (putAlgorithm (Some name) s)"
  shows "(fst (putAlgorithm (Some name) s) = Ok name \<longleftrightarrow>
            name \<in> set getAvailableAlgorithms \<or> name \<in> set object_prototype) \<and>
         (name \<in> set getAvailableAlgorithms \<longrightarrow> routable s') \<and>
         (name \<in> set object_prototype \<longrightarrow>
            fst (selectBackend cfg md5 now req [] s') = (if \<exists>i \<in> set (ids s). eligible cfg now s i then SelectThrows else NoBackend))"
proof -
  have dom: "(\<exists>st. map_of strategies name = Some st) \<longleftrightarrow> name \<in> set getAvailableAlgorithms"
    unfolding getAvailableAlgorithms_def by (metis map_of_eq_None_iff not_Some_eq set_map)
  have disjoint: "name \<in> set object_prototype \<Longrightarrow> map_of strategies name = None \<and> name \<noteq> []"
    by (auto simp: object_prototype_def strategies_def)
  have known_ne: "name \<in> set getAvailableAlgorithms \<Longrightarrow> name \<noteq> []"
    by (auto simp: getAvailableAlgorithms_def strategies_def)
  have one: "fst (putAlgorithm (Some name) s) = Ok name \<longleftrightarrow>
      name \<in> set getAvailableAlgorithms \<or> name \<in> set object_prototype"
    using dom disjoint known_ne
    by (auto simp: putAlgorithm_def setAlgorithm_def getStrategy_def split: option.splits)
  have two: "name \<in> set getAvailableAlgorithms \<Longrightarrow> routable s'"
    using assms(1) dom known_ne
    by (auto simp: s'_def putAlgorithm_def setAlgorithm_def getStrategy_def routable_def lb_good_iff pool_ok_def)
  have three: "fst (selectBackend cfg md5 now req [] s') =
      (if \<exists>i \<in> set (ids s). eligible cfg now s i then SelectThrows else NoBackend)"
    if "name \<in> set object_prototype"
  proof -
    have s': "s' = s\<lparr>algorithm := name\<rparr>"
      using that disjoint by (auto simp: s'_def putAlgorithm_def setAlgorithm_def getStrategy_def)
    have "pool_ok s'" using assms(1) by (simp add: s' routable_def pool_ok_def)
    moreover have el: "eligible cfg now s' = eligible cfg now s" "ids s' = ids s"
      by (auto simp: s' eligible_def canExecute_answer cb_abs_def lookup_breaker_def get_backend_def ids_def)
    ultimately have h: "fst (getHealthyBackends cfg now s') = filter (eligible cfg now s) (ids s)"
      by (simp add: getHealthyBackends_eligible)
    have "getStrategy name = Inr (InheritedProperty name)"
      using that disjoint by (simp add: getStrategy_def)
    then show ?thesis
      unfolding selectBackend_def case_prod_unfold Let_def h
      by (auto simp: s' filter_empty_conv)
  qed
  from one two three show ?thesis by blast
qed

theorem algorithm_switch_witness:
  "fst (selectBackend demo_cfg demo_md5 10 demo_req [] (snd (putAlgorithm (Some ''constructor'') demo_rt))) = SelectThrows"
proof -
  have "routable demo_rt" by code_simp
  moreover have "''constructor'' \<in> set object_prototype" by (simp add: object_prototype_def)
  moreover have "ids demo_rt = [''backend-1'', ''backend-2'']" by code_simp
  moreover have "eligible demo_cfg 10 demo_rt ''backend-2''" by code_simp
  ultimately show ?thesis
    using algorithm_switch [of demo_rt "''constructor''" demo_cfg demo_md5 10 demo_req] by simp
qed

end
