(* ===== verification/Proxy.thy ===== *)
theory Proxy
  imports Routing
begin

text \<open>
  \<^verbatim>\<open>src/proxy/proxyMiddleware.js\<close> and \<^verbatim>\<open>src/proxy/proxyUtils.js\<close>: forwarding one request, with its retries
  and the active-connection accounting. The HTTP forwarding itself is the library
  \<^verbatim>\<open>http-proxy-middleware\<close>: it calls \<open>router\<close>, then either the \<open>proxyRes\<close> or the \<open>error\<close> hook. What it
  meets upstream is the environment of each attempt (\<open>attempt_env\<close>), and what it does when the router
  names no target is the parameter \<open>no_target\<close>: \<open>Some e\<close> when it calls the error hook with error \<open>e\<close>,
  \<open>None\<close> when it leaves the request alone.
\<close>

section \<open>The request as the proxy sees it\<close>

text \<open>\<open>Proxied\<close> is the upstream's response passed on, with the headers the gateway adds.\<close>

datatype proxy_reply =
    Proxied nat "(string \<times> string) list"
  | BadGateway string "backend_id option" "nat option"
  | NextError

record proxy_req = request +
  protocol :: string
  requestId :: "string option"
  correlationId :: "string option"
  startTime :: "int option"
  attempts :: nat
  failedBackends :: "backend_id list"
  targetBackend :: "backend_id option"
  lbAlgorithm :: "string option"
  lbReason :: "lb_reason option"
  headersSent :: bool
  replies :: "proxy_reply list"
  listeners :: "backend_id list"
  forwarded :: "(backend_id \<times> (string \<times> string) list) list"

datatype upstream = UpResponse nat | UpError string bool

record attempt_env =
  e_routed :: time
  e_done :: time
  e_ns :: int
  e_random :: rat
  e_upstream :: upstream

section \<open>Header rewriting\<close>

text \<open>\<open>addProxyHeaders\<close>: the headers set on the outgoing request, in order.\<close>

definition addProxyHeaders :: "'r proxy_req_scheme \<Rightarrow> (string \<times> string) list" where
  "addProxyHeaders req =
     (let clientIp = getClientIp req;
          existingForwarded = header req ''x-forwarded-for'';
          forwardedFor = (if truthy_str existingForwarded then the existingForwarded @ '', '' @ clientIp
                          else clientIp);
          request_id = or_else (requestId req) (header req ''x-request-id'');
          correlation_id = or_else (correlationId req) (header req ''x-correlation-id'')
      in [(''X-Forwarded-For'', forwardedFor), (''X-Real-IP'', clientIp),
          (''X-Forwarded-Proto'', protocol req),
          (''X-Forwarded-Host'', the (or_else (header req ''host'') (Some [])))] @
         (if truthy_str request_id then [(''x-request-id'', the request_id)] else []) @
         (if truthy_str correlation_id then [(''x-correlation-id'', the correlation_id)] else []))"

fun reason_text :: "lb_reason \<Rightarrow> string" where
  "reason_text (RoundRobinReason index) = ''round-robin (cyclic index '' @ nat_str index @ '')''"
| "reason_text (LeastConnectionsReason m score) =
     ''least-connections (connections: '' @ nat_str m @ '', tie-breaker score: '' @ int_str score @ '')''"
| "reason_text (WeightedReason w configured cw) =
     ''weighted-round-robin (dynamic weight: '' @ int_str w @ ''/'' @ nat_str configured @
     '', selection: '' @ int_str cw @ '')''"
| "reason_text WeightedFallbackReason = ''weighted-round-robin (dynamic fallback to RR)''"
| "reason_text (IpHashReason ip h index) =
     ''ip-hash (client IP: '' @ ip @ '', hash: '' @ int_str h @ '', index: '' @ nat_str index @ '')''"
| "reason_text (ConsistentHashReason key h vnode index n) =
     ''consistent-hash (key: '' @ key @ '', hash: '' @ nat_str h @ '', vnode: '' @ vnode @
     '', index: '' @ nat_str index @ ''/'' @ nat_str n @ '')''"
| "reason_text DynamicSelection = ''dynamic-selection''"

definition addResponseHeaders :: "'r proxy_req_scheme \<Rightarrow> (string \<times> string) list" where
  "addResponseHeaders req =
     (case targetBackend req of Some i \<Rightarrow> if i \<noteq> [] then [(''x-backend-id'', i)] else [] | None \<Rightarrow> []) @
     (if truthy_str (lbAlgorithm req) then [(''x-lb-algorithm'', the (lbAlgorithm req))] else []) @
     (case lbReason req of Some r \<Rightarrow> [(''x-lb-reason'', reason_text r)] | None \<Rightarrow> [])"

section \<open>Choosing the target\<close>

datatype routed = Target string | NoTarget | RouterThrows

definition router ::
  "cb_config \<Rightarrow> (string \<Rightarrow> 8 word list) \<Rightarrow> time \<Rightarrow> 'r proxy_req_scheme \<Rightarrow> 'a adc_rt_scheme \<Rightarrow>
   routed \<times> 'r proxy_req_scheme \<times> 'a adc_rt_scheme" where
  "router cfg md5 now req s =
     (case targetBackend req of
        Some i \<Rightarrow> (case get_backend i s of Some b \<Rightarrow> Target (url b) | None \<Rightarrow> NoTarget, req, s)
      | None \<Rightarrow>
          (case selectBackend cfg md5 now req (failedBackends req) s of
             (NoBackend, s) \<Rightarrow> (NoTarget, req, s)
           | (SelectThrows, s) \<Rightarrow> (RouterThrows, req, s)
           | (Selected i alg reason, s) \<Rightarrow>
               (case get_backend i s of Some b \<Rightarrow> Target (url b) | None \<Rightarrow> NoTarget,
                req\<lparr>targetBackend := Some i, lbAlgorithm := Some alg, lbReason := Some reason,
                    listeners := listeners req @ [i]\<rparr>,
                open_connection i s)))"

section \<open>Outcomes of an attempt\<close>

definition calculateBackoffJitter :: "nat \<Rightarrow> rat \<Rightarrow> rat \<Rightarrow> rat \<Rightarrow> int" where
  "calculateBackoffJitter attempt baseMs maxMs random =
     (let cap = min maxMs (fmul baseMs (2 ^ attempt)) in \<lfloor>fmul random cap\<rfloor>)"

datatype attempt_end = Retry int "backend_id option" | Finished

definition isIdempotent :: "'r request_scheme \<Rightarrow> bool" where
  "isIdempotent req \<longleftrightarrow>
     js_upper (the (or_else (http_method req) (Some ''GET''))) \<in> {''GET'', ''HEAD'', ''OPTIONS''}"

definition maxRetries :: nat where
  "maxRetries = 2"

definition bad_gateway :: string where
  "bad_gateway = ''Bad Gateway - upstream server unavailable''"

definition no_retry :: "'r request_scheme \<Rightarrow> string" where
  "no_retry req =
     ''Non-idempotent request ['' @ js_upper (the (or_else (http_method req) (Some ''GET''))) @
     ''] failed (retries disabled to prevent double-writes)''"

definition reply :: "proxy_reply \<Rightarrow> 'r proxy_req_scheme \<Rightarrow> 'r proxy_req_scheme" where
  "reply r req = req\<lparr>headersSent := True, replies := replies req @ [r]\<rparr>"

definition handleProxyError ::
  "cb_config \<Rightarrow> time \<Rightarrow> int \<Rightarrow> rat \<Rightarrow> string \<Rightarrow> 'r proxy_req_scheme \<Rightarrow> 'a adc_mt_scheme \<Rightarrow>
   attempt_end \<times> 'r proxy_req_scheme \<times> 'a adc_mt_scheme" where
  "handleProxyError cfg now nowNs random err req s =
     (let s = collectProxyError now nowNs (targetBackend req) (startTime req) s;
          failedBackendId = targetBackend req;
          (req, s) =
            (case failedBackendId of
               None \<Rightarrow> (req, s)
             | Some i \<Rightarrow> (req\<lparr>failedBackends := List.insert i (failedBackends req)\<rparr>,
                          recordFailure cfg now i err s));
          req = req\<lparr>attempts := (if attempts req = 0 then 1 else attempts req)\<rparr>
      in if isIdempotent req \<and> attempts req \<le> maxRetries \<and> \<not> headersSent req
         then let req = req\<lparr>attempts := attempts req + 1\<rparr>;
                  delayMs = calculateBackoffJitter (attempts req) 50 500 random
              in (Retry delayMs failedBackendId, req\<lparr>targetBackend := None, lbAlgorithm := None\<rparr>, s)
         else if \<not> headersSent req
         then (Finished,
               reply (BadGateway (if isIdempotent req then bad_gateway else no_retry req)
                        failedBackendId (Some (attempts req))) req, s)
         else (Finished, req, s))"

text \<open>The \<open>proxyRes\<close> hook, after which the library passes the response on.\<close>

definition proxyRes ::
  "cb_config \<Rightarrow> time \<Rightarrow> int \<Rightarrow> nat \<Rightarrow> 'r proxy_req_scheme \<Rightarrow> 'a adc_mt_scheme \<Rightarrow>
   'r proxy_req_scheme \<times> 'a adc_mt_scheme" where
  "proxyRes cfg now nowNs statusCode req s =
     (let hs = addResponseHeaders req;
          s = collectProxyResponse now nowNs (targetBackend req) (startTime req) statusCode s;
          s = (case targetBackend req of
                 None \<Rightarrow> s
               | Some i \<Rightarrow>
                   if 500 \<le> statusCode then recordFailure cfg now i (''HTTP '' @ nat_str statusCode) s
                   else if statusCode < 400 then recordSuccess cfg now i s
                   else s)
      in (reply (Proxied statusCode hs) req, s))"

text \<open>
  One pass through the library. \<open>prev\<close> is the backend of the attempt this one repeats: on a retry the
  \<open>next\<close> callback answers 502 itself, on the first pass an error goes to Express.
\<close>

definition proxyInstance ::
  "cb_config \<Rightarrow> (string \<Rightarrow> 8 word list) \<Rightarrow> string option \<Rightarrow> backend_id option option \<Rightarrow> attempt_env \<Rightarrow>
   'r proxy_req_scheme \<Rightarrow> 'a adc_rt_scheme \<Rightarrow> attempt_end \<times> 'r proxy_req_scheme \<times> 'a adc_rt_scheme" where
  "proxyInstance cfg md5 no_target prev env req s =
     (case router cfg md5 (e_routed env) req s of
        (RouterThrows, req, s) \<Rightarrow>
          (Finished,
           (case prev of
              None \<Rightarrow> reply NextError req
            | Some f \<Rightarrow> if headersSent req then req else reply (BadGateway bad_gateway f None) req), s)
      | (NoTarget, req, s) \<Rightarrow>
          (case no_target of
             None \<Rightarrow> (Finished, req, s)
           | Some e \<Rightarrow> handleProxyError cfg (e_done env) (e_ns env) (e_random env) e req s)
      | (Target u, req, s) \<Rightarrow>
          let req = req\<lparr>forwarded := forwarded req @ [(the (targetBackend req), addProxyHeaders req)]\<rparr>
          in case e_upstream env of
               UpResponse statusCode \<Rightarrow>
                 (let (req, s) = proxyRes cfg (e_done env) (e_ns env) statusCode req s in (Finished, req, s))
             | UpError err sent \<Rightarrow>
                 handleProxyError cfg (e_done env) (e_ns env) (e_random env) err
                   (req\<lparr>headersSent := headersSent req \<or> sent\<rparr>) s)"

text \<open>The attempts one request makes; the list holds what the environment does on each.\<close>

fun proxy_run ::
  "cb_config \<Rightarrow> (string \<Rightarrow> 8 word list) \<Rightarrow> string option \<Rightarrow> backend_id option option \<Rightarrow> attempt_env list \<Rightarrow>
   'r proxy_req_scheme \<Rightarrow> 'a adc_rt_scheme \<Rightarrow> bool \<times> 'r proxy_req_scheme \<times> 'a adc_rt_scheme" where
  "proxy_run cfg md5 no_target prev [] req s = (False, req, s)"
| "proxy_run cfg md5 no_target prev (env # envs) req s =
     (case proxyInstance cfg md5 no_target prev env req s of
        (Finished, req, s) \<Rightarrow> (True, req, s)
      | (Retry d f, req, s) \<Rightarrow> proxy_run cfg md5 no_target (Some f) envs req s)"

definition proxyMiddlewareWithRetry ::
  "cb_config \<Rightarrow> (string \<Rightarrow> 8 word list) \<Rightarrow> string option \<Rightarrow> attempt_env list \<Rightarrow>
   'r proxy_req_scheme \<Rightarrow> 'a adc_rt_scheme \<Rightarrow> bool \<times> 'r proxy_req_scheme \<times> 'a adc_rt_scheme" where
  "proxyMiddlewareWithRetry cfg md5 no_target envs req s =
     proxy_run cfg md5 no_target None envs
       (req\<lparr>attempts := (if attempts req = 0 then 1 else attempts req)\<rparr>) s"

text \<open>The response ends: \<open>finish\<close> or \<open>close\<close> runs every \<open>decrement\<close> registered on it, once.\<close>

fun response_ends :: "time \<Rightarrow> backend_id list \<Rightarrow> 'a adc_dr_scheme \<Rightarrow> 'a adc_dr_scheme" where
  "response_ends now [] s = s"
| "response_ends now (i # is) s = response_ends now is (decrement_connection now i s)"

section \<open>Attempts\<close>

lemma isIdempotent_update [simp]:
  "isIdempotent (req\<lparr>attempts := n\<rparr>) = isIdempotent req"
  "isIdempotent (req\<lparr>failedBackends := f\<rparr>) = isIdempotent req"
  "isIdempotent (req\<lparr>targetBackend := t\<rparr>) = isIdempotent req"
  "isIdempotent (req\<lparr>lbAlgorithm := a\<rparr>) = isIdempotent req"
  "isIdempotent (req\<lparr>lbReason := l\<rparr>) = isIdempotent req"
  "isIdempotent (req\<lparr>listeners := ls\<rparr>) = isIdempotent req"
  "isIdempotent (req\<lparr>forwarded := fs\<rparr>) = isIdempotent req"
  "isIdempotent (req\<lparr>headersSent := h\<rparr>) = isIdempotent req"
  "isIdempotent (req\<lparr>replies := rs\<rparr>) = isIdempotent req"
  by (simp_all add: isIdempotent_def)

lemma handleProxyError_eq:
  "handleProxyError cfg now ns rnd err req s =
     (let f = targetBackend req;
          req1 = req\<lparr>failedBackends := (case f of None \<Rightarrow> failedBackends req | Some i \<Rightarrow> List.insert i (failedBackends req)),
                     attempts := max 1 (attempts req)\<rparr>;
          s1 = collectProxyError now ns f (startTime req) s;
          s2 = (case f of None \<Rightarrow> s1 | Some i \<Rightarrow> recordFailure cfg now i err s1)
      in if isIdempotent req \<and> attempts req \<le> 2 \<and> \<not> headersSent req
         then (Retry (calculateBackoffJitter (max 1 (attempts req) + 1) 50 500 rnd) f,
               req1\<lparr>attempts := max 1 (attempts req) + 1, targetBackend := None, lbAlgorithm := None\<rparr>, s2)
         else if headersSent req then (Finished, req1, s2)
         else (Finished, reply (BadGateway (if isIdempotent req then bad_gateway else no_retry req) f
                                  (Some (max 1 (attempts req)))) req1, s2))"
  by (auto simp: handleProxyError_def Let_def maxRetries_def max_def no_retry_def split: option.split)

lemma router_request:
  assumes "router cfg md5 now req s = (r, req', s')"
  shows "attempts req' = attempts req \<and> replies req' = replies req \<and> headersSent req' = headersSent req \<and>
         forwarded req' = forwarded req \<and> isIdempotent req' = isIdempotent req \<and>
         failedBackends req' = failedBackends req \<and>
         (case r of Target u \<Rightarrow> targetBackend req' \<noteq> None | _ \<Rightarrow> True)"
  using assms by (auto simp: router_def split: option.splits prod.splits selection.splits)

text \<open>What one pass does to the request.\<close>

definition pass_ok :: "string option \<Rightarrow> 'r proxy_req_scheme \<Rightarrow> attempt_end \<Rightarrow> 'r proxy_req_scheme \<Rightarrow> bool" where
  "pass_ok no_target req e req' \<longleftrightarrow>
     isIdempotent req' = isIdempotent req \<and> length (forwarded req') \<le> length (forwarded req) + 1 \<and>
     (case e of
        Retry d f \<Rightarrow> isIdempotent req \<and> attempts req \<le> 2 \<and> attempts req' = max 1 (attempts req) + 1 \<and>
          replies req' = replies req \<and> \<not> headersSent req' \<and> targetBackend req' = None
      | Finished \<Rightarrow> (no_target \<noteq> None \<longrightarrow> headersSent req') \<and>
          (replies req' = replies req \<or> (\<exists>r. replies req' = replies req @ [r]) \<and> headersSent req'))"

lemma pass_ok_error:
  assumes "handleProxyError cfg now ns rnd err req1 s1 = (e, req', s')"
    "isIdempotent req1 = isIdempotent req" "attempts req1 = attempts req" "replies req1 = replies req"
    "length (forwarded req1) \<le> length (forwarded req) + 1"
  shows "pass_ok no_target req e req'"
  using assms(1) [symmetric] assms(2-) unfolding handleProxyError_eq Let_def pass_ok_def
  by (auto simp: reply_def split: if_splits)

lemma proxyInstance_pass:
  assumes "proxyInstance cfg md5 no_target prev env req s = (e, req', s')" "\<not> headersSent req"
  shows "pass_ok no_target req e req'"
proof -
  obtain r req1 s1 where r: "router cfg md5 (e_routed env) req s = (r, req1, s1)" by (metis prod_cases3)
  note facts = router_request [OF r]
  show ?thesis
  proof (cases r)
    case (Target u)
    show ?thesis
    proof (cases "e_upstream env")
      case (UpResponse n)
      with assms facts r Target show ?thesis
        by (auto simp: proxyInstance_def Let_def proxyRes_def reply_def pass_ok_def case_prod_unfold)
    next
      case (UpError err sent)
      with assms facts r Target show ?thesis
        by (auto simp: proxyInstance_def Let_def intro!: pass_ok_error)
    qed
  next
    case NoTarget
    show ?thesis
    proof (cases no_target)
      case None
      with assms facts r NoTarget show ?thesis by (auto simp: proxyInstance_def pass_ok_def)
    next
      case (Some err)
      with assms facts r NoTarget show ?thesis
        by (auto simp: proxyInstance_def intro!: pass_ok_error)
    qed
  next
    case RouterThrows
    with assms facts r show ?thesis
      by (auto simp: proxyInstance_def pass_ok_def reply_def split: option.splits if_splits)
  qed
qed

definition attempts_left :: "'r proxy_req_scheme \<Rightarrow> nat" where
  "attempts_left req = (if isIdempotent req then 4 - max 1 (attempts req) else 1)"

lemma proxy_run_correct:
  assumes "proxy_run cfg md5 no_target prev envs req s = (fin, req', s')"
    "\<not> headersSent req" "attempts req \<le> 3"
  shows "length (forwarded req') \<le> length (forwarded req) + attempts_left req \<and>
         (attempts_left req \<le> length envs \<longrightarrow> fin) \<and>
         (replies req' = replies req \<or> (\<exists>r. replies req' = replies req @ [r]) \<and> headersSent req') \<and>
         (fin \<longrightarrow> no_target \<noteq> None \<longrightarrow> headersSent req') \<and> (\<not> fin \<longrightarrow> \<not> headersSent req')"
  using assms
proof (induction envs arbitrary: prev req s)
  case Nil
  then show ?case by (auto simp: attempts_left_def)
next
  case (Cons env envs)
  obtain e req1 s1 where pass: "proxyInstance cfg md5 no_target prev env req s = (e, req1, s1)"
    by (metis prod_cases3)
  note ok = proxyInstance_pass [OF pass Cons.prems(2)]
  show ?case
  proof (cases e)
    case (Retry d f)
    with Cons.prems(1) pass have run: "proxy_run cfg md5 no_target (Some f) envs req1 s1 = (fin, req', s')"
      by simp
    from ok Retry have "attempts req1 \<le> 3" "\<not> headersSent req1" by (auto simp: pass_ok_def)
    moreover from ok Retry have "attempts_left req = attempts_left req1 + 1"
      by (auto simp: attempts_left_def pass_ok_def max_def)
    ultimately show ?thesis
      using Cons.IH [OF run] ok Retry by (auto simp: pass_ok_def)
  next
    case Finished
    with Cons.prems pass ok show ?thesis by (auto simp: pass_ok_def attempts_left_def)
  qed
qed

text \<open>
  C2: the retry budget and the single answer. A request is forwarded at most three times, and at
  most once unless its method is GET, HEAD or OPTIONS; three attempts always settle it; the gateway
  replies at most once, and when it settles the response has been started (provided the library
  reports a missing target).
\<close>

theorem proxy_retry_budget:
  assumes "proxyMiddlewareWithRetry cfg md5 no_target envs req s = (fin, req', s')"
    "attempts req = 0" "\<not> headersSent req" "replies req = []" "forwarded req = []"
  shows "length (forwarded req') \<le> (if isIdempotent req then 3 else 1) \<and>
         (3 \<le> length envs \<longrightarrow> fin) \<and> length (replies req') \<le> 1 \<and>
         (fin \<and> no_target \<noteq> None \<longrightarrow> headersSent req')"
proof -
  have run: "proxy_run cfg md5 no_target None envs (req\<lparr>attempts := 1\<rparr>) s = (fin, req', s')"
    using assms(1,2) by (simp add: proxyMiddlewareWithRetry_def)
  have "attempts_left (req\<lparr>attempts := 1\<rparr>) = (if isIdempotent req then 3 else 1)"
    by (simp add: attempts_left_def)
  with proxy_run_correct [OF run] assms(3-5) show ?thesis by (auto split: if_splits)
qed

definition demo_preq :: proxy_req where
  "demo_preq = request.extend demo_req
     \<lparr>protocol = ''http'', requestId = Some ''r-1'', correlationId = None, startTime = Some 1000,
      attempts = 0, failedBackends = [], targetBackend = None, lbAlgorithm = None, lbReason = None,
      headersSent = False, replies = [], listeners = [], forwarded = []\<rparr>"

definition demo_env :: "upstream \<Rightarrow> attempt_env" where
  "demo_env u = \<lparr>e_routed = 20, e_done = 30, e_ns = 9000000, e_random = 1 / 2, e_upstream = u\<rparr>"

definition demo_envs :: "attempt_env list" where
  "demo_envs = [demo_env (UpError ''ECONNREFUSED'' False), demo_env (UpResponse 200), demo_env (UpResponse 200)]"

theorem proxy_retry_budget_witness:
  "let (fin, req', s') = proxyMiddlewareWithRetry demo_cfg demo_md5 (Some ''no target'') demo_envs demo_preq demo_rt
   in fin \<and> length (replies req') \<le> 1 \<and> length (forwarded req') \<le> 3 \<and> headersSent req'"
proof -
  obtain fin req' s' where
    run: "proxyMiddlewareWithRetry demo_cfg demo_md5 (Some ''no target'') demo_envs demo_preq demo_rt = (fin, req', s')"
    by (metis prod_cases3)
  have "attempts demo_preq = 0" "\<not> headersSent demo_preq" "replies demo_preq = []" "forwarded demo_preq = []"
    "length demo_envs = 3" "isIdempotent demo_preq"
    by (simp_all add: demo_preq_def demo_envs_def proxy_req.defs request.defs) code_simp
  with proxy_retry_budget [OF run] show ?thesis by (simp add: run)
qed

section \<open>Active connections\<close>

definition active :: "backend_id \<Rightarrow> 'a adc_scheme \<Rightarrow> nat option" where
  "active j s = map_option activeConnections (get_backend j s)"

lemma active_pool_cong: "pool s = pool t \<Longrightarrow> active j s = active j (t :: 'b adc_scheme)"
  by (simp add: active_def get_backend_def)

lemma active_cb_apply [simp]: "active j (snd (cb_apply cfg now ev i s)) = active j s"
proof (cases "j = i")
  case True
  then show ?thesis
    by (cases ev)
      (auto simp: active_def cb_op_defs get_backend_transitionTo option.map_comp comp_def Let_def
        split: option.split circuit_state.split)
next
  case False
  then show ?thesis by (simp add: active_def cb_apply_other_backend [OF False])
qed

lemma active_breaker_ops [simp]:
  "active j (snd (canExecute cfg now i s)) = active j s"
  "active j (recordSuccess cfg now i s) = active j s"
  "active j (recordFailure cfg now i e s) = active j s"
  using active_cb_apply [of j cfg now Ask i s] active_cb_apply [of j cfg now Success i s]
    active_cb_apply [of j cfg now "Failure e" i s] by simp_all

lemma active_filter_healthy [simp]: "active j (snd (filter_healthy cfg now is s)) = active j s"
  by (induction "is" arbitrary: s) (auto simp: case_prod_unfold Let_def split: option.split)

lemma pool_strategy_select [simp]: "pool (snd (strategy_select md5 st now req bs s)) = pool s"
  by (cases st)
    (auto simp: rr_select_def wrr_select_def ipHash_select_def ch_select_def case_prod_unfold Let_def
      split: option.split list.split)

lemma active_strategy_select [simp]:
  "active j (snd (strategy_select md5 st now req bs s)) = active j s"
  by (rule active_pool_cong) simp

lemma active_selectBackend [simp]:
  "active j (snd (selectBackend cfg md5 now req failed s)) = active j s"
  by (simp add: selectBackend_def getHealthyBackends_def case_prod_unfold Let_def split: sum.split option.split)

lemma active_collect [simp]:
  "active j (collectProxyResponse now ns b t c s) = active j s"
  "active j (collectProxyError now ns b t s) = active j s"
  by (rule active_pool_cong; simp)+

lemma active_open [simp]:
  "active j (open_connection i s) = map_option (\<lambda>n. n + of_bool (j = i)) (active j s)"
  by (cases "get_backend j s") (auto simp: active_def get_open_connection)

lemma activeConnections_decremented [simp]: "activeConnections (decremented b) = activeConnections b - 1"
  by (simp add: decremented_def Let_def)

lemma active_decrement [simp]:
  "active j (decrement_connection now i s) = map_option (\<lambda>n. n - of_bool (j = i)) (active j s)"
  by (cases "get_backend j s"; cases "j = i") (simp_all add: active_def get_decrement_connection)

text \<open>A request holds one connection of \<open>j\<close> for every listener it registered for \<open>j\<close>.\<close>

definition holds :: "backend_id \<Rightarrow> 'r proxy_req_scheme \<Rightarrow> 'a adc_scheme \<Rightarrow> int option" where
  "holds j req s = map_option (\<lambda>n. int n - int (count_list (listeners req) j)) (active j s)"

lemma router_holds:
  assumes "router cfg md5 now req s = (r, req', s')"
  shows "holds j req' s' = holds j req s"
proof -
  have sel: "selectBackend cfg md5 now req (failedBackends req) s = (x, t) \<Longrightarrow> active j t = active j s" for x t
    by (metis active_selectBackend snd_conv)
  show ?thesis
    using assms sel
    by (auto simp: router_def holds_def option.map_comp comp_def split: option.splits prod.splits selection.splits)
qed

lemma handleProxyError_holds:
  assumes "handleProxyError cfg now ns rnd err req s = (e, req', s')"
  shows "holds j req' s' = holds j req s"
  using assms [symmetric] unfolding handleProxyError_eq Let_def
  by (auto simp: holds_def reply_def split: if_splits option.splits)

lemma proxyRes_holds:
  "proxyRes cfg now ns c req s = (req', s') \<Longrightarrow> holds j req' s' = holds j req s"
  by (auto simp: proxyRes_def reply_def holds_def Let_def split: option.splits)

lemma holds_forwarded [simp]:
  "holds j (req\<lparr>forwarded := f\<rparr>) s = holds j req s"
  "holds j (req\<lparr>headersSent := h\<rparr>) s = holds j req s"
  "holds j (req\<lparr>attempts := n\<rparr>) s = holds j req s"
  "holds j (reply r req) s = holds j req s"
  by (simp_all add: holds_def reply_def)

lemma proxyInstance_holds:
  assumes "proxyInstance cfg md5 no_target prev env req s = (e, req', s')"
  shows "holds j req' s' = holds j req s"
proof -
  obtain r req1 s1 where r: "router cfg md5 (e_routed env) req s = (r, req1, s1)" by (metis prod_cases3)
  have "holds j req' s' = holds j req1 s1"
    using assms r
    by (cases r; cases "e_upstream env"; cases no_target; cases prev)
      (auto simp: proxyInstance_def Let_def dest: handleProxyError_holds [where j = j] proxyRes_holds [where j = j]
        split: if_splits prod.splits)
  with router_holds [OF r, of j] show ?thesis by simp
qed

lemma proxy_run_holds:
  assumes "proxy_run cfg md5 no_target prev envs req s = (fin, req', s')"
  shows "holds j req' s' = holds j req s"
  using assms
proof (induction envs arbitrary: prev req s)
  case (Cons env envs)
  obtain e req1 s1 where pass: "proxyInstance cfg md5 no_target prev env req s = (e, req1, s1)"
    by (metis prod_cases3)
  with Cons proxyInstance_holds [OF pass, of j] show ?case by (cases e) auto
qed simp

lemma active_response_ends:
  "active j (response_ends now is s) = map_option (\<lambda>n. n - count_list is j) (active j s)"
proof (induction "is" arbitrary: s)
  case Nil
  show ?case by (simp add: option.map_ident)
qed (auto simp: option.map_comp comp_def)

text \<open>
  No connection is leaked. While a request is being proxied every backend counts it once per
  attempt made there, and when its response has ended (finished or closed) every backend's count is
  back at what it was, whatever the outcomes, the retries and the breaker transitions in between.
\<close>

theorem proxy_connections_balanced:
  assumes "proxyMiddlewareWithRetry cfg md5 no_target envs req s = (fin, req', s')" "listeners req = []"
  shows "active j s' = map_option (\<lambda>n. n + count_list (listeners req') j) (active j s) \<and>
         active j (response_ends now (listeners req') s') = active j s"
proof -
  have "holds j req' s' = holds j req s"
    using proxy_run_holds assms(1) unfolding proxyMiddlewareWithRetry_def by fastforce
  then have "active j s' = map_option (\<lambda>n. n + count_list (listeners req') j) (active j s)"
    using assms(2) by (cases "active j s"; cases "active j s'") (auto simp: holds_def)
  then show ?thesis by (auto simp: active_response_ends option.map_comp comp_def map_option_idI)
qed

theorem proxy_connections_balanced_witness:
  "let (fin, req', s') = proxyMiddlewareWithRetry demo_cfg demo_md5 None demo_envs demo_preq demo_rt
   in active ''backend-1'' (response_ends 50 (listeners req') s') = Some 0"
proof -
  obtain fin req' s' where
    run: "proxyMiddlewareWithRetry demo_cfg demo_md5 None demo_envs demo_preq demo_rt = (fin, req', s')"
    by (metis prod_cases3)
  have "listeners demo_preq = []" by (simp add: demo_preq_def proxy_req.defs request.defs)
  moreover have "active ''backend-1'' demo_rt = Some 0" by code_simp
  ultimately show ?thesis using proxy_connections_balanced [OF run, of "''backend-1''" 50] by (simp add: run)
qed

end
