(* ===== verification/RateLimiter.thy ===== *)
theory RateLimiter
  imports Proxy
begin

text \<open>
  \<^verbatim>\<open>src/security/rateLimiter.js\<close>: the token bucket per client address, in memory and as the Lua script
  run inside Redis, the penalties, the periodic clean-up and the middleware. Token counts are doubles;
  the refill rate is \<open>capacity / windowMs\<close> tokens per millisecond. Redis keeps the bucket as a hash
  with an expiry; it prints the numbers with 17 digits, which is exact. Whether Redis is connected and
  whether a call to it fails are inputs of the middleware.
\<close>

section \<open>State\<close>

record bucket =
  tokens :: rat
  lastRefill :: time

record penalty =
  maxRequests :: int
  expiresAt :: time
  penaltyReason :: string

record rl_config =
  rl_windowMs :: int
  rl_maxRequests :: int

text \<open>\<open>redisBuckets\<close> is what Redis holds: the hash under \<open>sentinel:tokenbucket:<ip>\<close> and its expiry.\<close>

record adc_rl = adc_rt +
  memoryBuckets :: "(string \<times> bucket) list"
  penalizedIps :: "(string \<times> penalty) list"
  redisBuckets :: "(string \<times> (bucket \<times> time)) list"

section \<open>The token bucket\<close>

record rl_result =
  allowed :: bool
  remaining :: int
  retryAfterMs :: int

text \<open>\<open>Math.ceil(x / rate)\<close>; the callers' rates are positive.\<close>

definition ceil_div :: "rat \<Rightarrow> rat \<Rightarrow> int" where
  "ceil_div x rate = \<lceil>fdiv x rate\<rceil>"

definition refill :: "int \<Rightarrow> rat \<Rightarrow> time \<Rightarrow> bucket option \<Rightarrow> bucket" where
  "refill capacity refillRate now bucket =
     (case bucket of
        None \<Rightarrow> \<lparr>tokens = of_int capacity, lastRefill = now\<rparr>
      | Some b \<Rightarrow>
          let elapsed = max 0 (now - lastRefill b)
          in \<lparr>tokens = min (of_int capacity) (fadd (tokens b) (fmul (of_int elapsed) refillRate)),
              lastRefill = now\<rparr>)"

definition spend :: "rat \<Rightarrow> rat \<Rightarrow> bucket \<Rightarrow> rl_result \<times> bucket" where
  "spend refillRate cost b =
     (if cost \<le> tokens b then
        let b' = b\<lparr>tokens := fsub (tokens b) cost\<rparr>
        in (\<lparr>allowed = True, remaining = \<lfloor>tokens b'\<rfloor>, retryAfterMs = 0\<rparr>, b')
      else
        let missingTokens = fsub cost (tokens b)
        in (\<lparr>allowed = False, remaining = \<lfloor>tokens b\<rfloor>,
             retryAfterMs = ceil_div missingTokens refillRate\<rparr>, b))"

definition evalTokenBucketMemory ::
  "string \<Rightarrow> int \<Rightarrow> rat \<Rightarrow> time \<Rightarrow> rat \<Rightarrow> 'a adc_rl_scheme \<Rightarrow> rl_result \<times> 'a adc_rl_scheme" where
  "evalTokenBucketMemory ip capacity refillRate now cost s =
     (let (res, b) = spend refillRate cost
                       (refill capacity refillRate now (map_of (memoryBuckets s) ip))
      in (res, s\<lparr>memoryBuckets := AList.update ip b (memoryBuckets s)\<rparr>))"

text \<open>
  The Lua script: a key past its expiry is absent. The reply is a triple of integers.
\<close>

definition redis_get :: "time \<Rightarrow> string \<Rightarrow> (string \<times> (bucket \<times> time)) list \<Rightarrow> bucket option" where
  "redis_get now key store =
     (case map_of store key of Some (b, ex) \<Rightarrow> if now < ex then Some b else None | None \<Rightarrow> None)"

definition tokenBucketLua ::
  "string \<Rightarrow> int \<Rightarrow> rat \<Rightarrow> time \<Rightarrow> rat \<Rightarrow> (string \<times> (bucket \<times> time)) list \<Rightarrow>
   (int \<times> int \<times> int) \<times> (string \<times> (bucket \<times> time)) list" where
  "tokenBucketLua key capacity refillRate now cost store =
     (let (tokens, lastRefill) =
            (case redis_get now key store of
               None \<Rightarrow> (of_int capacity, now)
             | Some b \<Rightarrow>
                 let elapsed = max 0 (now - lastRefill b)
                 in (min (of_int capacity) (fadd (tokens b) (fmul (of_int elapsed) refillRate)), now));
          (allowed, tokens, retryAfterMs) =
            (if cost \<le> tokens then (1, fsub tokens cost, 0)
             else (0, tokens, ceil_div (fsub cost tokens) refillRate));
          ttlSeconds = ceil_div (of_int capacity) (fmul refillRate 1000) + 60
      in ((allowed, \<lfloor>tokens\<rfloor>, retryAfterMs),
          AList.update key (\<lparr>tokens = tokens, lastRefill = lastRefill\<rparr>, now + ttlSeconds * 1000) store))"

definition evalTokenBucketRedis ::
  "string \<Rightarrow> int \<Rightarrow> rat \<Rightarrow> time \<Rightarrow> rat \<Rightarrow> 'a adc_rl_scheme \<Rightarrow> rl_result \<times> 'a adc_rl_scheme" where
  "evalTokenBucketRedis ip capacity refillRate now cost s =
     (case tokenBucketLua (''sentinel:tokenbucket:'' @ ip) capacity refillRate now cost (redisBuckets s) of
        ((ok, rem, retry), store) \<Rightarrow>
          (\<lparr>allowed = (ok \<noteq> 0), remaining = rem, retryAfterMs = retry\<rparr>, s\<lparr>redisBuckets := store\<rparr>))"

section \<open>Penalties and clean-up\<close>

definition applyPenalty :: "time \<Rightarrow> string \<Rightarrow> int \<Rightarrow> int \<Rightarrow> string \<Rightarrow> 'a adc_rl_scheme \<Rightarrow> 'a adc_rl_scheme" where
  "applyPenalty now ip mx durationMs reason s =
     s\<lparr>penalizedIps := AList.update ip \<lparr>maxRequests = mx, expiresAt = now + durationMs, penaltyReason = reason\<rparr>
        (penalizedIps s)\<rparr>"

definition removePenalty :: "string \<Rightarrow> 'a adc_rl_scheme \<Rightarrow> bool \<times> 'a adc_rl_scheme" where
  "removePenalty ip s =
     (map_of (penalizedIps s) ip \<noteq> None, s\<lparr>penalizedIps := AList.delete ip (penalizedIps s)\<rparr>)"

definition cleanupMemoryStore :: "time \<Rightarrow> 'a adc_rl_scheme \<Rightarrow> 'a adc_rl_scheme" where
  "cleanupMemoryStore now s =
     s\<lparr>memoryBuckets := filter (\<lambda>(ip, b). \<not> 300000 < now - lastRefill b) (memoryBuckets s),
       penalizedIps := filter (\<lambda>(ip, item). \<not> expiresAt item < now) (penalizedIps s)\<rparr>"

section \<open>The middleware\<close>

datatype redis_call = RedisInactive | RedisFails string | RedisAnswers

text \<open>\<open>X-RateLimit-Limit\<close>, \<open>-Remaining\<close> and \<open>-Reset\<close> (a time), then the verdict.\<close>

record rl_headers =
  limitHeader :: int
  remainingHeader :: int
  resetHeader :: time

datatype rl_verdict = RlNext rl_headers | RlTooMany rl_headers int

definition effective_capacity :: "rl_config \<Rightarrow> time \<Rightarrow> string \<Rightarrow> 'a adc_rl_scheme \<Rightarrow> int \<times> 'a adc_rl_scheme" where
  "effective_capacity cfg now ip s =
     (case map_of (penalizedIps s) ip of
        None \<Rightarrow> (rl_maxRequests cfg, s)
      | Some p \<Rightarrow>
          if now < expiresAt p then (maxRequests p, s)
          else (rl_maxRequests cfg, s\<lparr>penalizedIps := AList.delete ip (penalizedIps s)\<rparr>))"

definition exceeded_reason :: "string \<Rightarrow> int \<Rightarrow> int \<Rightarrow> string" where
  "exceeded_reason ip capacity rem =
     ''Token Bucket rate limit exceeded for IP '' @ ip @ ''. Capacity: '' @ int_str capacity @
     '', Remaining: '' @ int_str rem"

definition rateLimit ::
  "rl_config \<Rightarrow> time \<Rightarrow> redis_call \<Rightarrow> 'r request_scheme \<Rightarrow> 'a adc_rl_scheme \<Rightarrow> rl_verdict \<times> 'a adc_rl_scheme" where
  "rateLimit cfg now redis req s =
     (let clientIp = getClientIp req;
          (capacity, s) = effective_capacity cfg now clientIp s;
          refillRate = fdiv (of_int capacity) (of_int (rl_windowMs cfg));
          (result, s) =
            (case redis of
               RedisAnswers \<Rightarrow> evalTokenBucketRedis clientIp capacity refillRate now 1 s
             | RedisFails msg \<Rightarrow>
                 evalTokenBucketMemory clientIp capacity refillRate now 1
                   (logEvent now ''rate-limit-fallback'' req
                      [(''reason'', JStr (''Redis Token Bucket failed ('' @ msg @ ''). Falling back to memory.''))] s)
             | RedisInactive \<Rightarrow> evalTokenBucketMemory clientIp capacity refillRate now 1 s);
          reset = now + ceil_div (of_int (capacity - remaining result)) refillRate;
          hs = \<lparr>limitHeader = capacity, remainingHeader = remaining result, resetHeader = reset\<rparr>
      in if allowed result then (RlNext hs, s)
         else
           let retryAfterSec = max 1 \<lceil>fdiv (of_int (retryAfterMs result)) 1000\<rceil>
           in (RlTooMany hs retryAfterSec,
               logEvent now ''rate-limit'' req
                 [(''reason'', JStr (exceeded_reason clientIp capacity (remaining result)))] s))"

section \<open>Both implementations are the same bucket\<close>

text \<open>
  The interface the middleware uses, whatever the store: the verdict and the new bucket are those of
  \<open>spend\<close> after \<open>refill\<close>, and other addresses are left alone.
\<close>

locale token_bucket =
  fixes eval :: "string \<Rightarrow> int \<Rightarrow> rat \<Rightarrow> time \<Rightarrow> rat \<Rightarrow> 's \<Rightarrow> rl_result \<times> 's"
    and bucket_of :: "time \<Rightarrow> string \<Rightarrow> 's \<Rightarrow> bucket option"
  assumes eval_result:
    "fst (eval ip cap rate now cost s) = fst (spend rate cost (refill cap rate now (bucket_of now ip s)))"
    and eval_bucket:
    "0 < cap \<Longrightarrow> 0 < rate \<Longrightarrow>
     bucket_of now ip (snd (eval ip cap rate now cost s)) =
       Some (snd (spend rate cost (refill cap rate now (bucket_of now ip s))))"
    and eval_other:
    "i \<noteq> ip \<Longrightarrow> bucket_of t i (snd (eval ip cap rate now cost s)) = bucket_of t i s"
begin

lemma not_allowed_keeps_tokens:
  "0 < cap \<Longrightarrow> 0 < rate \<Longrightarrow> \<not> allowed (fst (eval ip cap rate now cost s)) \<Longrightarrow>
   bucket_of now ip (snd (eval ip cap rate now cost s)) = Some (refill cap rate now (bucket_of now ip s))"
  by (auto simp: eval_result eval_bucket spend_def Let_def split: if_splits)

lemma allowed_iff:
  "allowed (fst (eval ip cap rate now cost s)) \<longleftrightarrow> cost \<le> tokens (refill cap rate now (bucket_of now ip s))"
  by (simp add: eval_result spend_def Let_def)

end

lemma ceil_div_nonneg: "0 \<le> x \<Longrightarrow> 0 \<le> rate \<Longrightarrow> 0 \<le> ceil_div x rate"
  using ieee.r_nonneg [of "x / rate"] by (simp add: ceil_div_def fdiv_def)

lemma tokenBucketLua_spend:
  "tokenBucketLua key cap rate now cost store =
     (let (res, b) = spend rate cost (refill cap rate now (redis_get now key store))
      in ((of_bool (allowed res), remaining res, retryAfterMs res),
          AList.update key (b, now + (ceil_div (of_int cap) (fmul rate 1000) + 60) * 1000) store))"
  by (auto simp: tokenBucketLua_def spend_def refill_def Let_def split: option.split)

interpretation memory: token_bucket evalTokenBucketMemory
    "\<lambda>now ip (s :: 'a adc_rl_scheme). map_of (memoryBuckets s) ip"
  by unfold_locales (simp_all add: evalTokenBucketMemory_def Let_def case_prod_unfold update_conv')

interpretation redis: token_bucket evalTokenBucketRedis
    "\<lambda>now ip (s :: 'a adc_rl_scheme). redis_get now (''sentinel:tokenbucket:'' @ ip) (redisBuckets s)"
proof unfold_locales
  fix ip :: string and cap rate now cost and s :: "'a adc_rl_scheme"
  show "fst (evalTokenBucketRedis ip cap rate now cost s) =
      fst (spend rate cost (refill cap rate now (redis_get now (''sentinel:tokenbucket:'' @ ip) (redisBuckets s))))"
    by (simp add: evalTokenBucketRedis_def tokenBucketLua_spend Let_def case_prod_unfold)
  assume "0 < cap" "0 < rate"
  then have "0 \<le> ceil_div (of_int cap) (fmul rate 1000)"
    by (intro ceil_div_nonneg) (simp_all add: fmul_def ieee.r_nonneg)
  then show "redis_get now (''sentinel:tokenbucket:'' @ ip) (redisBuckets (snd (evalTokenBucketRedis ip cap rate now cost s))) =
      Some (snd (spend rate cost (refill cap rate now (redis_get now (''sentinel:tokenbucket:'' @ ip) (redisBuckets s)))))"
    by (simp add: evalTokenBucketRedis_def tokenBucketLua_spend Let_def case_prod_unfold redis_get_def update_conv')
next
  fix i ip :: string and cap rate now cost t and s :: "'a adc_rl_scheme"
  assume "i \<noteq> ip"
  then show "redis_get t (''sentinel:tokenbucket:'' @ i) (redisBuckets (snd (evalTokenBucketRedis ip cap rate now cost s))) =
      redis_get t (''sentinel:tokenbucket:'' @ i) (redisBuckets s)"
    by (simp add: evalTokenBucketRedis_def tokenBucketLua_spend Let_def case_prod_unfold redis_get_def update_conv')
qed

section \<open>The rate bound\<close>

text \<open>The requests of one address at the times \<open>ts\<close>: how many are admitted.\<close>

fun limit_run :: "string \<Rightarrow> int \<Rightarrow> rat \<Rightarrow> time list \<Rightarrow> 'a adc_rl_scheme \<Rightarrow> nat \<times> 'a adc_rl_scheme" where
  "limit_run ip cap rate [] s = (0, s)"
| "limit_run ip cap rate (t # ts) s =
     (let (res, s) = evalTokenBucketMemory ip cap rate t 1 s;
          (n, s) = limit_run ip cap rate ts s
      in (of_bool (allowed res) + n, s))"

definition slack :: "int \<Rightarrow> rat" where
  "slack cap = of_int (cap + 1) / 2 ^ 52"

lemma fl_upper: "0 \<le> x \<Longrightarrow> x \<le> c \<Longrightarrow> fl x \<le> x + c / 2 ^ 53 + tiny"
  using fl_error [of x] by (simp add: abs_le_iff)

lemma fl_lower: "0 \<le> x \<Longrightarrow> x - x / 2 ^ 53 - tiny \<le> fl x"
  using fl_error [of x] by (auto simp: abs_le_iff)

text \<open>The tokens a bucket gains in \<open>d\<close> milliseconds, with the relative rounding error.\<close>

definition gain :: "rat \<Rightarrow> int \<Rightarrow> rat" where
  "gain rate d = of_int d * rate * (1 + 1 / 2 ^ 53)"

lemma gain_add: "gain rate (c - b) + gain rate (b - a) = gain rate (c - a)"
proof -
  have "of_int (c - b) * k + of_int (b - a) * k = of_int (c - a) * k" for k :: rat
    by (simp flip: distrib_right)
  then show ?thesis by (simp only: gain_def mult.assoc)
qed

lemma gain_nonneg: "0 \<le> rate \<Longrightarrow> 0 \<le> d \<Longrightarrow> 0 \<le> gain rate d"
  by (simp add: gain_def)

lemma gain_0 [simp]: "gain rate 0 = 0"
  by (simp add: gain_def)

lemma refill_bounds:
  assumes "0 < cap" "0 \<le> rate" "0 \<le> tokens b" "tokens b \<le> of_int cap"
  shows "0 \<le> tokens (refill cap rate now (Some b)) \<and> tokens (refill cap rate now (Some b)) \<le> of_int cap"
  using assms by (auto simp: refill_def Let_def fadd_def fmul_def min_def intro!: ieee.r_nonneg add_nonneg_nonneg mult_nonneg_nonneg)

lemma refill_upper:
  assumes "0 < cap" "0 \<le> rate" "0 \<le> tokens b" "tokens b \<le> of_int cap" "lastRefill b \<le> now"
  shows "tokens (refill cap rate now (Some b)) \<le>
         tokens b + gain rate (now - lastRefill b) + of_int cap / 2 ^ 53 + 2 * tiny"
proof -
  let ?f = "fmul (of_int (now - lastRefill b)) rate"
  define e where "e = of_int (now - lastRefill b) * rate"
  have e: "0 \<le> e" unfolding e_def using assms by simp
  have gain: "gain rate (now - lastRefill b) = e + e / 2 ^ 53"
    by (simp only: gain_def e_def distrib_left mult_1_right times_divide_eq_right)
  have fl: "?f = fl e" by (simp add: fmul_def e_def)
  have f: "?f \<le> gain rate (now - lastRefill b) + tiny" "0 \<le> ?f"
    unfolding gain fl by (rule fl_upper [OF e order_refl], rule ieee.r_nonneg [OF e])
  have "min (of_int cap) (fadd (tokens b) ?f) \<le> tokens b + ?f + of_int cap / 2 ^ 53 + tiny"
  proof (cases "tokens b + ?f \<le> of_int cap")
    case True
    then show ?thesis
      using fl_upper [of "tokens b + ?f" "of_int cap"] assms f by (simp add: fadd_def min_def)
  next
    case False
    moreover have "(0::rat) \<le> of_int cap / 2 ^ 53" using assms by simp
    ultimately show ?thesis using tiny_bounds(1) by (simp add: min_def)
  qed
  moreover have "max 0 (now - lastRefill b) = now - lastRefill b" using assms by simp
  ultimately show ?thesis using f by (simp add: refill_def Let_def)
qed

lemma slack_step:
  assumes "0 < cap"
  shows "2 * (of_int cap / 2 ^ 53) + 3 * tiny \<le> slack cap"
proof -
  have "slack cap = 2 * (of_int cap / 2 ^ 53) + 1 / 2 ^ 52" by (simp add: slack_def field_simps)
  moreover have "3 * tiny \<le> 1 / 2 ^ 52" using tiny_bounds(2) by simp
  ultimately show ?thesis by simp
qed

lemma spend_upper:
  fixes rate :: rat
  assumes "0 < cap" "cap \<le> 2 ^ 53" "0 \<le> tokens b" "tokens b \<le> of_int cap"
  defines "r \<equiv> spend rate 1 b"
  shows "of_bool (allowed (fst r)) + tokens (snd r) \<le> tokens b + of_int cap / 2 ^ 53 + tiny \<and>
         0 \<le> tokens (snd r) \<and> tokens (snd r) \<le> of_int cap \<and> lastRefill (snd r) = lastRefill b"
proof (cases "1 \<le> tokens b")
  case True
  have "fl (tokens b - 1) \<le> tokens b - 1 + of_int cap / 2 ^ 53 + tiny"
    using True assms(4) by (intro fl_upper) auto
  moreover have "fl (tokens b - 1) \<le> of_int cap"
    using assms(1,2,4) by (intro ieee.r_le_int) auto
  moreover have "0 \<le> fl (tokens b - 1)" using True by (intro ieee.r_nonneg) simp
  ultimately show ?thesis using True by (simp add: r_def spend_def Let_def fsub_def)
next
  case False
  then show ?thesis using assms tiny_bounds(1) by (simp add: r_def spend_def Let_def)
qed

lemma eval_upper:
  assumes "0 < cap" "cap \<le> 2 ^ 53" "0 \<le> rate"
    and "map_of (memoryBuckets s) ip = Some b" "0 \<le> tokens b" "tokens b \<le> of_int cap" "lastRefill b \<le> now"
  shows "\<exists>b'. map_of (memoryBuckets (snd (evalTokenBucketMemory ip cap rate now 1 s))) ip = Some b' \<and>
           lastRefill b' = now \<and> 0 \<le> tokens b' \<and> tokens b' \<le> of_int cap \<and>
           of_bool (allowed (fst (evalTokenBucketMemory ip cap rate now 1 s))) + tokens b' \<le>
             tokens b + gain rate (now - lastRefill b) + slack cap"
proof -
  let ?r = "refill cap rate now (Some b)"
  have r: "0 \<le> tokens ?r" "tokens ?r \<le> of_int cap" using refill_bounds [OF assms(1,3,5,6)] by auto
  have "lastRefill ?r = now" by (simp add: refill_def Let_def)
  then show ?thesis
    using spend_upper [OF assms(1,2) r, of rate] refill_upper [OF assms(1,3,5-7)] slack_step [OF assms(1)]
    by (simp add: evalTokenBucketMemory_def Let_def case_prod_unfold update_conv' assms(4))
qed

lemma add_budget:
  "(a::rat) + t' \<le> t + g2 + s \<Longrightarrow> n \<le> t' + g1 + ls \<Longrightarrow> g1 + g2 = g \<Longrightarrow> w = s + ls \<Longrightarrow> a + n \<le> t + g + w"
  by linarith

lemma limit_run_upper:
  assumes "0 < cap" "cap \<le> 2 ^ 53" "0 \<le> rate"
    and "map_of (memoryBuckets s) ip = Some b" "0 \<le> tokens b" "tokens b \<le> of_int cap"
    and "sorted (lastRefill b # ts)"
  shows "of_nat (fst (limit_run ip cap rate ts s)) \<le>
         tokens b + gain rate (last (lastRefill b # ts) - lastRefill b) +
         of_nat (length ts) * slack cap"
  using assms(4-)
proof (induction ts arbitrary: s b)
  case (Cons t ts)
  have "lastRefill b \<le> t" using Cons.prems(4) by simp
  from eval_upper [OF assms(1-3) Cons.prems(1-3) this] obtain b' where
    b': "map_of (memoryBuckets (snd (evalTokenBucketMemory ip cap rate t 1 s))) ip = Some b'"
    "lastRefill b' = t" "0 \<le> tokens b'" "tokens b' \<le> of_int cap"
    and up: "of_bool (allowed (fst (evalTokenBucketMemory ip cap rate t 1 s))) + tokens b' \<le>
      tokens b + gain rate (t - lastRefill b) + slack cap"
    by blast
  have "sorted (lastRefill b' # ts)" using Cons.prems(4) b'(2) by simp
  from Cons.IH [OF b'(1,3,4) this]
  have ih: "of_nat (fst (limit_run ip cap rate ts (snd (evalTokenBucketMemory ip cap rate t 1 s)))) \<le>
      tokens b' + gain rate (last (t # ts) - t) + of_nat (length ts) * slack cap"
    by (simp only: b'(2))
  have run: "fst (limit_run ip cap rate (t # ts) s) = of_bool (allowed (fst (evalTokenBucketMemory ip cap rate t 1 s))) +
      fst (limit_run ip cap rate ts (snd (evalTokenBucketMemory ip cap rate t 1 s)))"
    by (simp add: Let_def case_prod_unfold)
  have len: "of_nat (length (t # ts)) * slack cap = slack cap + of_nat (length ts) * slack cap"
    by (simp add: distrib_right)
  have last: "last (lastRefill b # t # ts) = last (t # ts)" by simp
  show ?case unfolding run last of_nat_add of_nat_of_bool
    by (rule add_budget [OF up ih gain_add len])
qed simp

text \<open>
  C7: the rate limit. Whatever the pattern of its requests, an address that arrives with a full or
  new bucket is admitted at most \<open>capacity + rate * elapsed\<close> times over any period, up to the rounding
  of doubles (a relative \<open>2^-53\<close> of the refill and \<open>(capacity + 1) / 2^52\<close> per request).
\<close>

theorem rate_limit_bound:
  assumes "0 < cap" "cap \<le> 2 ^ 53" "0 \<le> rate" "sorted (t\<^sub>0 # ts)"
    and "map_of (memoryBuckets s) ip = None"
  shows "of_nat (fst (limit_run ip cap rate (t\<^sub>0 # ts) s)) \<le>
         of_int cap + gain rate (last (t\<^sub>0 # ts) - t\<^sub>0) +
         of_nat (length (t\<^sub>0 # ts)) * slack cap"
proof -
  let ?full = "\<lparr>tokens = of_int cap, lastRefill = t\<^sub>0\<rparr>"
  let ?s = "s\<lparr>memoryBuckets := AList.update ip ?full (memoryBuckets s)\<rparr>"
  have "refill cap rate t\<^sub>0 (Some ?full) = ?full"
    using ieee.r_int [of cap] assms(1,2) by (simp add: refill_def fmul_def fadd_def)
  then have "evalTokenBucketMemory ip cap rate t\<^sub>0 1 ?s = evalTokenBucketMemory ip cap rate t\<^sub>0 1 s"
    using assms(5) by (simp add: evalTokenBucketMemory_def update_conv' refill_def Let_def case_prod_unfold update_Some_unfold)
  then have "limit_run ip cap rate (t\<^sub>0 # ts) ?s = limit_run ip cap rate (t\<^sub>0 # ts) s" by simp
  moreover have "sorted (lastRefill ?full # t\<^sub>0 # ts)" using assms(4) by simp
  ultimately show ?thesis
    using limit_run_upper [OF assms(1-3), of ?s ip ?full "t\<^sub>0 # ts"] assms(1) by (simp add: update_conv')
qed

lemma map_of_filter_value:
  "distinct (map fst xs) \<Longrightarrow>
   map_of (filter (\<lambda>p. P (snd p)) xs) k =
     (case map_of xs k of Some v \<Rightarrow> if P v then Some v else None | None \<Rightarrow> None)"
proof (induction xs)
  case (Cons p xs)
  have "map_of (filter (\<lambda>p. P (snd p)) xs) (fst p) = None"
    using Cons.prems by (auto simp: map_of_eq_None_iff)
  with Cons show ?case by auto
qed simp

definition demo_rl :: adc_rl where
  "demo_rl = adc_rt.extend demo_rt \<lparr>memoryBuckets = [], penalizedIps = [], redisBuckets = []\<rparr>"

theorem rate_limit_bound_witness:
  "of_nat (fst (limit_run ''10.0.0.7'' 2 (1 / 4) [0, 0, 0, 1, 9] demo_rl)) \<le> 2 + gain (1 / 4) 9 + 5 * slack 2"
proof -
  have "map_of (memoryBuckets demo_rl) ''10.0.0.7'' = None" by (simp add: demo_rl_def adc_rt.defs)
  from rate_limit_bound [of 2 "1 / 4" 0 "[0, 0, 1, 9]", OF _ _ _ _ this] show ?thesis by simp
qed

text \<open>
  C27: the Redis script and the in-memory fallback implement the same token bucket: from the same
  bucket (a Redis key that has not expired) they give the same verdict, remaining tokens and retry
  delay, and leave the same bucket behind.
\<close>

theorem redis_memory_agree:
  assumes "0 < cap" "0 < rate"
    and "redis_get now (''sentinel:tokenbucket:'' @ ip) (redisBuckets s) = map_of (memoryBuckets s) ip"
  shows "fst (evalTokenBucketRedis ip cap rate now cost s) = fst (evalTokenBucketMemory ip cap rate now cost s) \<and>
         redis_get now (''sentinel:tokenbucket:'' @ ip) (redisBuckets (snd (evalTokenBucketRedis ip cap rate now cost s))) =
           map_of (memoryBuckets (snd (evalTokenBucketMemory ip cap rate now cost s))) ip"
  using memory.eval_result [of ip cap rate now cost s] redis.eval_result [of ip cap rate now cost s]
    memory.eval_bucket [OF assms(1,2), where s = s and ip = ip and now = now and cost = cost]
    redis.eval_bucket [OF assms(1,2), where s = s and ip = ip and now = now and cost = cost] assms(3)
  by simp

theorem redis_memory_agree_witness:
  "fst (evalTokenBucketRedis ''10.0.0.7'' 100 (1 / 600) 5 1 demo_rl) =
   fst (evalTokenBucketMemory ''10.0.0.7'' 100 (1 / 600) 5 1 demo_rl)"
proof -
  have "redis_get 5 (''sentinel:tokenbucket:'' @ ''10.0.0.7'') (redisBuckets demo_rl) =
      map_of (memoryBuckets demo_rl) ''10.0.0.7''"
    by (simp add: demo_rl_def adc_rt.defs redis_get_def)
  from redis_memory_agree [OF _ _ this, of 100 "1 / 600" 1] show ?thesis by simp
qed

text \<open>
  The five-minute clean-up of idle buckets is invisible while the rate-limit window is at most
  five minutes: a bucket it drops would have been full again, so the next request of that address
  gets the same verdict and leaves the same bucket.
\<close>

lemma refill_idle:
  assumes "0 < cap" "cap \<le> 2 ^ 53" "0 < windowMs" "windowMs \<le> 300000"
    and "0 \<le> tokens b" "300000 < now - lastRefill b"
  shows "refill cap (fdiv (of_int cap) (of_int windowMs)) now (Some b) = refill cap r now None"
proof -
  let ?e = "of_int (now - lastRefill b) :: rat"
  define q where "q = (of_int cap / of_int windowMs :: rat)"
  have "of_int 1 / of_int 300000 \<le> q" unfolding q_def using assms by (intro frac_le) auto
  then have q: "1 / 300000 \<le> q" by simp
  then have q0: "0 \<le> q" by simp
  have "tiny \<le> q / 2 ^ 40" using tiny_bounds(2) q by simp
  then have fq: "q * (1 - 1 / 2 ^ 39) \<le> fl q"
    using fl_lower [OF q0] q0 by (simp add: right_diff_distrib)
  have "of_int cap \<le> of_int 300001 * (of_int cap / 300000 * (1 - 1 / 2 ^ 39) :: rat)"
    using assms(1) by (simp add: field_simps)
  also have "\<dots> \<le> ?e * (q * (1 - 1 / 2 ^ 39))"
    unfolding q_def using assms by (intro mult_mono mult_right_mono frac_le) auto
  also have "\<dots> \<le> ?e * fl q" using fq assms by (intro mult_left_mono) auto
  finally have "fl (of_int cap) \<le> fl (?e * fl q)" by (rule fl_mono)
  then have "of_int cap \<le> fl (?e * fl q)" using fl_of_int [of cap] assms(1,2) by simp
  then have "of_int cap \<le> fl (tokens b + fl (?e * fl q))"
    using assms(1,2,5) by (intro ieee.r_ge_int) auto
  then show ?thesis using assms(6)
    by (simp add: refill_def Let_def fadd_def fmul_def fdiv_def min_def flip: q_def)
qed

theorem cleanup_transparent:
  assumes "0 < cap" "cap \<le> 2 ^ 53" "0 < windowMs" "windowMs \<le> 300000"
    and "\<forall>b \<in> snd ` set (memoryBuckets s). 0 \<le> tokens b" "distinct (map fst (memoryBuckets s))"
    and "t \<le> now"
  defines "rate \<equiv> fdiv (of_int cap) (of_int windowMs)"
  shows "fst (evalTokenBucketMemory ip cap rate now cost (cleanupMemoryStore t s)) =
           fst (evalTokenBucketMemory ip cap rate now cost s) \<and>
         map_of (memoryBuckets (snd (evalTokenBucketMemory ip cap rate now cost (cleanupMemoryStore t s)))) ip =
           map_of (memoryBuckets (snd (evalTokenBucketMemory ip cap rate now cost s))) ip"
proof -
  have m: "map_of (memoryBuckets (cleanupMemoryStore t s)) ip =
      (case map_of (memoryBuckets s) ip of
         Some b \<Rightarrow> if 300000 < t - lastRefill b then None else Some b | None \<Rightarrow> None)"
    using map_of_filter_value [OF assms(6), of "\<lambda>b. \<not> 300000 < t - lastRefill b" ip]
    by (simp add: cleanupMemoryStore_def case_prod_unfold split: option.split)
  have "refill cap rate now (map_of (memoryBuckets (cleanupMemoryStore t s)) ip) =
      refill cap rate now (map_of (memoryBuckets s) ip)"
  proof (cases "map_of (memoryBuckets s) ip")
    case (Some b)
    then have "0 \<le> tokens b" using assms(5) by (metis image_eqI map_of_SomeD snd_conv)
    with Some m refill_idle [OF assms(1-4), of b now rate] assms(7) show ?thesis
      by (auto simp: rate_def)
  qed (simp add: m)
  then show ?thesis by (simp add: evalTokenBucketMemory_def Let_def case_prod_unfold update_conv')
qed

theorem cleanup_transparent_witness:
  "fst (evalTokenBucketMemory ''a'' 100 (fdiv 100 60000) 400001 1
     (cleanupMemoryStore 400000 (demo_rl\<lparr>memoryBuckets := [(''a'', \<lparr>tokens = 0, lastRefill = 5\<rparr>)]\<rparr>))) =
   fst (evalTokenBucketMemory ''a'' 100 (fdiv 100 60000) 400001 1
     (demo_rl\<lparr>memoryBuckets := [(''a'', \<lparr>tokens = 0, lastRefill = 5\<rparr>)]\<rparr>))"
  using cleanup_transparent [of 100 60000 "demo_rl\<lparr>memoryBuckets := [(''a'', \<lparr>tokens = 0, lastRefill = 5\<rparr>)]\<rparr>"
      400000 400001 "''a''" 1]
  by simp

end
