(* ===== verification/Anomaly.thy ===== *)
theory Anomaly
  imports RateLimiter
begin

text \<open>
  \<^verbatim>\<open>src/security/anomalyDetector.js\<close>: per-address request rates over ten-second windows, an exponentially
  weighted baseline with its variance, the z-score test and the automatic penalty handed to the rate
  limiter. The random id and the prose of the logged reason, made of the same numbers, are left out.
\<close>

section \<open>Square root\<close>

text \<open>\<open>Math.sqrt\<close>, correctly rounded: an integer root with guard bits, a half for a non-zero rest.\<close>

definition root_digit :: "int \<Rightarrow> int \<Rightarrow> int" where
  "root_digit n r = (if (r + 1) * (r + 1) \<le> n then r + 1 else r)"

function isqrt :: "int \<Rightarrow> int" where
  "isqrt n = (if n \<le> 0 then 0 else root_digit n (2 * isqrt (n div 4)))"
  by auto
termination by (relation "measure nat") auto

declare isqrt.simps [simp del]

definition fsqrt :: "rat \<Rightarrow> rat" where
  "fsqrt x =
     (if x \<le> 0 then 0
      else let k = nat (max 0 (60 - ilog2 x div 2));
               y = x * 4 ^ k;
               r = isqrt \<lfloor>y\<rfloor>
           in fl ((of_int r + (if of_int (r * r) = y then 0 else 1 / 2)) / 2 ^ k))"

lemma isqrt_correct: "0 \<le> n \<Longrightarrow> 0 \<le> isqrt n \<and> isqrt n * isqrt n \<le> n \<and> n < (isqrt n + 1) * (isqrt n + 1)"
proof (induction n rule: isqrt.induct)
  case (1 n)
  show ?case
  proof (cases "n = 0")
    case True
    then show ?thesis by (simp add: isqrt.simps)
  next
    case False
    let ?q = "isqrt (n div 4)"
    have q: "0 \<le> ?q" "?q * ?q \<le> n div 4" "n div 4 < (?q + 1) * (?q + 1)" using 1 False by auto
    have "4 * (?q * ?q) \<le> n" using q(2) by linarith
    moreover have "n < 4 * ((?q + 1) * (?q + 1))" using q(3) by linarith
    ultimately show ?thesis using False 1(2) q(1)
      by (subst (1 2 3 4 5) isqrt.simps) (simp add: root_digit_def algebra_simps)
  qed
qed

lemma fsqrt_pos:
  assumes "1 \<le> x"
  shows "1 \<le> fsqrt x"
proof -
  define k where "k = nat (max 0 (60 - ilog2 x div 2))"
  define y where "y = x * 4 ^ k"
  define r where "r = isqrt \<lfloor>y\<rfloor>"
  have y: "of_int (4 ^ k) \<le> y" using assms by (simp add: y_def)
  then have y4: "4 ^ k \<le> \<lfloor>y\<rfloor>" by (simp only: le_floor_iff)
  then have r: "0 \<le> r" "\<lfloor>y\<rfloor> < (r + 1) * (r + 1)"
    using isqrt_correct [of "\<lfloor>y\<rfloor>"] order_trans [of 0 "4 ^ k" "\<lfloor>y\<rfloor>"] unfolding r_def by auto
  have "(2::int) ^ k * 2 ^ k = 4 ^ k" by (simp flip: power_mult_distrib)
  with y4 r(2) have "2 ^ k * 2 ^ k < (r + 1) * (r + 1)" by linarith
  then have "2 ^ k < r + 1" using r(1)
    by (smt (verit, best) mult_mono zero_le_power)
  then have "of_int (2 ^ k) \<le> (of_int r :: rat)" by (simp only: of_int_le_iff)
  then have "2 ^ k \<le> (of_int r :: rat)" by simp
  then have "(2::rat) ^ k \<le> of_int r + (if of_int (r * r) = y then 0 else 1 / 2)" by (rule order_trans) simp
  then have "1 \<le> (of_int r + (if of_int (r * r) = y then 0 else 1 / 2)) / (2::rat) ^ k"
    by (simp only: le_divide_eq zero_less_power zero_less_numeral if_True mult_1)
  then have "1 \<le> fl ((of_int r + (if of_int (r * r) = y then 0 else 1 / 2)) / (2::rat) ^ k)"
    by (rule ieee.r_ge_1)
  then show ?thesis using assms by (simp add: fsqrt_def Let_def flip: k_def y_def r_def)
qed

section \<open>State\<close>

record ip_stats =
  ewma :: rat
  variance :: rat
  windowCount :: nat
  windowStart :: time
  totalRequests :: nat
  totalAnomalies :: nat
  lastZScore :: rat
  lastFlagged :: "time option"

record anomaly_event =
  an_ip :: string
  an_currentRate :: int
  an_ewma :: rat
  an_stddev :: rat
  an_zScore :: rat
  an_threshold :: rat
  an_timestamp :: time
  an_enforced :: bool

record an_config =
  an_enabled :: bool
  penaltyMaxRequests :: int
  penaltyWindowMs :: int

record adc_an = adc_rl +
  zThreshold :: rat
  autoEnforce :: bool
  ipStats :: "(string \<times> ip_stats) list"
  anomalies :: "anomaly_event list"

definition smoothing :: rat where
  "smoothing = fl (3 / 10)"

definition anomalyWindowMs :: int where
  "anomalyWindowMs = 10000"

definition fresh_ip_stats :: "time \<Rightarrow> ip_stats" where
  "fresh_ip_stats now =
     \<lparr>ewma = 0, variance = 1, windowCount = 0, windowStart = now, totalRequests = 0,
      totalAnomalies = 0, lastZScore = 0, lastFlagged = None\<rparr>"

section \<open>Recording\<close>

definition recordRequest :: "an_config \<Rightarrow> time \<Rightarrow> string \<Rightarrow> 'a adc_an_scheme \<Rightarrow> 'a adc_an_scheme" where
  "recordRequest cfg now ip s =
     (if \<not> an_enabled cfg \<or> ip = [] then s
      else
        let stats = (case map_of (ipStats s) ip of Some st \<Rightarrow> st | None \<Rightarrow> fresh_ip_stats now)
        in s\<lparr>ipStats := AList.update ip
               (stats\<lparr>windowCount := windowCount stats + 1, totalRequests := totalRequests stats + 1\<rparr>)
               (ipStats s)\<rparr>)"

definition anomaly_ip :: "'r request_scheme \<Rightarrow> string" where
  "anomaly_ip req = the (or_else (req_ip req) (or_else (remoteAddress req) (Some ''127.0.0.1'')))"

definition anomalyMiddleware :: "an_config \<Rightarrow> time \<Rightarrow> 'r request_scheme \<Rightarrow> 'a adc_an_scheme \<Rightarrow> 'a adc_an_scheme" where
  "anomalyMiddleware cfg now req s =
     (if an_enabled cfg then recordRequest cfg now (anomaly_ip req) s else s)"

section \<open>Evaluating the windows\<close>

definition current_rate :: "time \<Rightarrow> ip_stats \<Rightarrow> rat" where
  "current_rate now st =
     fmul (fdiv (of_nat (windowCount st)) (fdiv (of_int (now - windowStart st)) 1000)) 60"

definition stddev_of :: "ip_stats \<Rightarrow> rat" where
  "stddev_of st = fsqrt (max 1 (variance st))"

text \<open>One address: its new statistics and, when it is flagged, the event.\<close>

definition evaluate_ip ::
  "time \<Rightarrow> rat \<Rightarrow> bool \<Rightarrow> string \<Rightarrow> ip_stats \<Rightarrow> ip_stats \<times> anomaly_event option" where
  "evaluate_ip now threshold enforce ip st =
     (if now - windowStart st < anomalyWindowMs then (st, None)
      else
        let currentRate = current_rate now st;
            st = st\<lparr>windowStart := now, windowCount := 0\<rparr>
        in if ewma st = 0
           then (st\<lparr>ewma := currentRate, variance := max 1 (fmul currentRate (fl (1 / 5)))\<rparr>, None)
           else
             let stddev = stddev_of st;
                 diff = fsub currentRate (ewma st);
                 zScore = round2 (fdiv diff stddev);
                 st = st\<lparr>lastZScore := zScore,
                         ewma := round2 (fadd (fmul smoothing currentRate) (fmul (fsub 1 smoothing) (ewma st))),
                         variance := round2 (fmul (fsub 1 smoothing)
                                       (fadd (variance st) (fmul smoothing (fmul diff diff))))\<rparr>
             in if threshold \<le> zScore \<and> 15 \<le> currentRate
                then (st\<lparr>totalAnomalies := totalAnomalies st + 1, lastFlagged := Some now\<rparr>,
                      Some \<lparr>an_ip = ip, an_currentRate = js_round currentRate, an_ewma = ewma st,
                            an_stddev = round2 stddev, an_zScore = zScore, an_threshold = threshold,
                            an_timestamp = now, an_enforced = enforce\<rparr>)
                else (st, None))"

definition anomaly_details :: "anomaly_event \<Rightarrow> (string \<times> js_value) list" where
  "anomaly_details e =
     [(''ip'', JStr (an_ip e)), (''currentRate'', JNum (of_int (an_currentRate e))), (''ewma'', JNum (an_ewma e)),
      (''stddev'', JNum (an_stddev e)), (''zScore'', JNum (an_zScore e)), (''threshold'', JNum (an_threshold e)),
      (''enforced'', JBool (an_enforced e))]"

definition flag_anomaly :: "an_config \<Rightarrow> time \<Rightarrow> anomaly_event \<Rightarrow> 'a adc_an_scheme \<Rightarrow> 'a adc_an_scheme" where
  "flag_anomaly cfg now e s =
     (let s = s\<lparr>anomalies := push_shift 100 e (anomalies s)\<rparr>;
          s = logEvent now ''statistical-anomaly'' (internal_req ''N/A (Rate Anomaly)'' (an_ip e)) (anomaly_details e) s
      in if autoEnforce s
         then applyPenalty now (an_ip e) (penaltyMaxRequests cfg) (penaltyWindowMs cfg) ''statistical-anomaly'' s
         else s)"

fun evaluate_loop :: "an_config \<Rightarrow> time \<Rightarrow> string list \<Rightarrow> 'a adc_an_scheme \<Rightarrow> 'a adc_an_scheme" where
  "evaluate_loop cfg now [] s = s"
| "evaluate_loop cfg now (ip # ips) s =
     (let s =
        (case map_of (ipStats s) ip of
           None \<Rightarrow> s
         | Some st \<Rightarrow>
             let (st, e) = evaluate_ip now (zThreshold s) (autoEnforce s) ip st;
                 s = s\<lparr>ipStats := AList.update ip st (ipStats s)\<rparr>
             in (case e of None \<Rightarrow> s | Some e \<Rightarrow> flag_anomaly cfg now e s))
      in evaluate_loop cfg now ips s)"

definition evaluateWindows :: "an_config \<Rightarrow> time \<Rightarrow> 'a adc_an_scheme \<Rightarrow> 'a adc_an_scheme" where
  "evaluateWindows cfg now s = evaluate_loop cfg now (map fst (ipStats s)) s"

section \<open>Administration\<close>

definition setAutoEnforce :: "bool \<Rightarrow> 'a adc_an_scheme \<Rightarrow> 'a adc_an_scheme" where
  "setAutoEnforce enabled s = s\<lparr>autoEnforce := enabled\<rparr>"

text \<open>\<open>parseFloat(threshold) || 3.0\<close> on a number.\<close>

definition setZThreshold :: "rat \<Rightarrow> 'a adc_an_scheme \<Rightarrow> 'a adc_an_scheme" where
  "setZThreshold threshold s = s\<lparr>zThreshold := (if threshold = 0 then 3 else threshold)\<rparr>"

record baseline =
  bl_ip :: string
  bl_ewma :: rat
  bl_stddev :: rat
  bl_totalRequests :: nat
  bl_totalAnomalies :: nat
  bl_lastZScore :: rat
  bl_lastFlagged :: "time option"

definition getBaselines :: "'a adc_an_scheme \<Rightarrow> baseline list" where
  "getBaselines s =
     map (\<lambda>(ip, st). \<lparr>bl_ip = ip, bl_ewma = ewma st, bl_stddev = round2 (stddev_of st),
            bl_totalRequests = totalRequests st, bl_totalAnomalies = totalAnomalies st,
            bl_lastZScore = lastZScore st, bl_lastFlagged = lastFlagged st\<rparr>) (ipStats s)"

definition clearAnomalies :: "'a adc_an_scheme \<Rightarrow> 'a adc_an_scheme" where
  "clearAnomalies s = s\<lparr>anomalies := [], ipStats := []\<rparr>"

section \<open>Properties\<close>

lemma stddev_pos: "1 \<le> stddev_of st"
  unfolding stddev_of_def by (rule fsqrt_pos) simp

lemma round2_nonpos: "x \<le> 0 \<Longrightarrow> round2 x \<le> 0"
proof -
  assume "x \<le> 0"
  then have "fmul x 100 \<le> 0" unfolding fmul_def using ieee.r_le_int [of "x * 100" 0] by simp
  then have "js_round (fmul x 100) \<le> 0" using js_round_mono [of "fmul x 100" 0] by simp
  then show ?thesis unfolding round2_def fdiv_def
    using ieee.r_le_int [of "of_int (js_round (fmul x 100)) / 100" 0] by (simp add: divide_le_0_iff)
qed

text \<open>
  No false alarms. An address is flagged only at the end of a full window with an established
  baseline, when its rate is above that baseline, at least 15 requests per minute, and its z-score
  reaches the threshold; in particular traffic at or below the baseline is never flagged.
\<close>

theorem anomaly_only_above_baseline:
  assumes "0 < threshold" "evaluate_ip now threshold enforce ip st = (st', Some e)"
  shows "anomalyWindowMs \<le> now - windowStart st \<and> ewma st \<noteq> 0 \<and> ewma st < current_rate now st \<and>
         15 \<le> current_rate now st \<and> threshold \<le> an_zScore e \<and> an_ip e = ip \<and>
         totalAnomalies st' = totalAnomalies st + 1 \<and> windowCount st' = 0"
proof -
  let ?z = "round2 (fdiv (fsub (current_rate now st) (ewma st)) (stddev_of st))"
  have facts: "anomalyWindowMs \<le> now - windowStart st" "ewma st \<noteq> 0" "15 \<le> current_rate now st"
    "threshold \<le> ?z" "an_zScore e = ?z" "an_ip e = ip" "totalAnomalies st' = totalAnomalies st + 1" "windowCount st' = 0"
    using assms(2) by (auto simp: evaluate_ip_def Let_def stddev_of_def split: if_splits)
  have "ewma st < current_rate now st"
  proof (rule ccontr)
    assume "\<not> ewma st < current_rate now st"
    then have "fsub (current_rate now st) (ewma st) \<le> 0"
      unfolding fsub_def using ieee.r_le_int [of "current_rate now st - ewma st" 0] by simp
    then have "fdiv (fsub (current_rate now st) (ewma st)) (stddev_of st) \<le> 0"
      unfolding fdiv_def using stddev_pos [of st]
        ieee.r_le_int [of "fsub (current_rate now st) (ewma st) / stddev_of st" 0]
      by (simp add: divide_le_0_iff)
    from round2_nonpos [OF this] facts(4) assms(1) show False by simp
  qed
  with facts show ?thesis by simp
qed

definition demo_spike :: ip_stats where
  "demo_spike = (fresh_ip_stats 0)\<lparr>ewma := 12, variance := 12 / 5, windowCount := 50, windowStart := 20000\<rparr>"

lemma evaluate_ip_flags:
  assumes "anomalyWindowMs \<le> now - windowStart st" "ewma st \<noteq> 0" "15 \<le> current_rate now st"
    "threshold \<le> round2 (fdiv (fsub (current_rate now st) (ewma st)) (stddev_of st))"
  shows "snd (evaluate_ip now threshold enforce ip st) \<noteq> None"
  using assms by (simp add: evaluate_ip_def Let_def stddev_of_def)

lemma demo_spike_flagged: "snd (evaluate_ip 30001 3 enforce ip demo_spike) \<noteq> None"
proof (rule evaluate_ip_flags)
  show "anomalyWindowMs \<le> 30001 - windowStart demo_spike" by code_simp
  show "ewma demo_spike \<noteq> 0" by code_simp
  show "15 \<le> current_rate 30001 demo_spike" by code_simp
  have d: "200 \<le> fsub (current_rate 30001 demo_spike) (ewma demo_spike)" by code_simp
  have "stddev_of demo_spike \<le> 2" by code_simp
  with d stddev_pos [of demo_spike]
  have "100 \<le> fsub (current_rate 30001 demo_spike) (ewma demo_spike) / stddev_of demo_spike"
    by (simp add: le_divide_eq)
  then have "100 \<le> fdiv (fsub (current_rate 30001 demo_spike) (ewma demo_spike)) (stddev_of demo_spike)"
    unfolding fdiv_def by (rule ieee.r_ge_numeral) simp
  from round2_mono [OF this] show "3 \<le> round2 (fdiv (fsub (current_rate 30001 demo_spike) (ewma demo_spike)) (stddev_of demo_spike))"
    by (rule order_trans [rotated]) code_simp
qed

lemma demo_spike_calm: "totalAnomalies demo_spike = 0"
  by code_simp

theorem anomaly_only_above_baseline_witness:
  "\<exists>st' e. evaluate_ip 30001 3 True ''10.0.0.50'' demo_spike = (st', Some e) \<and>
     ewma demo_spike < current_rate 30001 demo_spike \<and> totalAnomalies st' = 1"
proof -
  obtain st' e where e: "evaluate_ip 30001 3 True ''10.0.0.50'' demo_spike = (st', Some e)"
    using demo_spike_flagged by (metis not_None_eq prod.collapse)
  then show ?thesis using anomaly_only_above_baseline [OF _ e] by (auto simp: demo_spike_calm)
qed

lemma flag_anomaly_frame [simp]:
  "zThreshold (flag_anomaly cfg now e s) = zThreshold s"
  "autoEnforce (flag_anomaly cfg now e s) = autoEnforce s"
  "ipStats (flag_anomaly cfg now e s) = ipStats s"
  "anomalies (flag_anomaly cfg now e s) = push_shift 100 e (anomalies s)"
  "map_of (penalizedIps (flag_anomaly cfg now e s)) ip =
     (if autoEnforce s \<and> ip = an_ip e
      then Some \<lparr>maxRequests = penaltyMaxRequests cfg, expiresAt = now + penaltyWindowMs cfg,
                 penaltyReason = ''statistical-anomaly''\<rparr>
      else map_of (penalizedIps s) ip)"
  by (auto simp: flag_anomaly_def applyPenalty_def logEvent_def Let_def update_conv')

lemma evaluate_ip_event: "evaluate_ip now th en ip st = (st', Some e) \<Longrightarrow> an_ip e = ip"
  by (auto simp: evaluate_ip_def Let_def split: if_splits)

definition penalised :: "an_config \<Rightarrow> time \<Rightarrow> string \<Rightarrow> 'a adc_rl_scheme \<Rightarrow> bool" where
  "penalised cfg now ip s \<longleftrightarrow>
     map_of (penalizedIps s) ip =
       Some \<lparr>maxRequests = penaltyMaxRequests cfg, expiresAt = now + penaltyWindowMs cfg,
             penaltyReason = ''statistical-anomaly''\<rparr>"

lemma evaluate_loop_keeps:
  assumes "length (anomalies s) \<le> 100"
  shows "length (anomalies (evaluate_loop cfg now ips s)) \<le> 100 \<and>
         (penalised cfg now ip s \<longrightarrow> penalised cfg now ip (evaluate_loop cfg now ips s))"
  using assms
proof (induction ips arbitrary: s)
  case (Cons i ips)
  let ?step = "case map_of (ipStats s) i of
      None \<Rightarrow> s
    | Some st \<Rightarrow>
        let (st, e) = evaluate_ip now (zThreshold s) (autoEnforce s) i st;
            s = s\<lparr>ipStats := AList.update i st (ipStats s)\<rparr>
        in (case e of None \<Rightarrow> s | Some e \<Rightarrow> flag_anomaly cfg now e s)"
  have "length (anomalies ?step) \<le> 100"
    using Cons.prems by (auto simp: Let_def length_push_shift split: option.split prod.split)
  moreover have "penalised cfg now ip s \<longrightarrow> penalised cfg now ip ?step"
    by (auto simp: Let_def penalised_def split: option.split prod.split)
  ultimately show ?case using Cons.IH [of ?step] by (simp add: Let_def)
qed simp

lemma evaluate_loop_penalises:
  assumes "ip \<in> set ips" "distinct ips" "length (anomalies s) \<le> 100" "autoEnforce s"
    and "map_of (ipStats s) ip = Some st" "evaluate_ip now (zThreshold s) True ip st = (st', Some e)"
  shows "penalised cfg now ip (evaluate_loop cfg now ips s)"
  using assms
proof (induction ips arbitrary: s)
  case (Cons i ips)
  let ?step = "case map_of (ipStats s) i of
      None \<Rightarrow> s
    | Some st \<Rightarrow>
        let (st, e) = evaluate_ip now (zThreshold s) (autoEnforce s) i st;
            s = s\<lparr>ipStats := AList.update i st (ipStats s)\<rparr>
        in (case e of None \<Rightarrow> s | Some e \<Rightarrow> flag_anomaly cfg now e s)"
  have len: "length (anomalies ?step) \<le> 100"
    using Cons.prems(3) by (auto simp: Let_def length_push_shift split: option.split prod.split)
  show ?case
  proof (cases "i = ip")
    case True
    then have "penalised cfg now ip ?step"
      using Cons.prems evaluate_ip_event [OF Cons.prems(6)] by (simp add: penalised_def)
    then show ?thesis using evaluate_loop_keeps [OF len, of cfg now ips ip] by (simp add: Let_def)
  next
    case False
    have "zThreshold ?step = zThreshold s" "autoEnforce ?step = autoEnforce s"
      "map_of (ipStats ?step) ip = map_of (ipStats s) ip"
      using False by (auto simp: Let_def update_conv' split: option.split prod.split)
    then have "penalised cfg now ip (evaluate_loop cfg now ips ?step)"
      using Cons.IH [of ?step] Cons.prems len False by simp
    then show ?thesis by (simp add: Let_def)
  qed
qed simp


definition demo_an_cfg :: an_config where
  "demo_an_cfg = \<lparr>an_enabled = True, penaltyMaxRequests = 10, penaltyWindowMs = 300000\<rparr>"

definition demo_an :: adc_an where
  "demo_an = adc_rl.extend demo_rl
     \<lparr>zThreshold = 3, autoEnforce = True, ipStats = [(''127.0.0.1'', demo_spike)], anomalies = []\<rparr>"

definition demo_rl_cfg :: rl_config where
  "demo_rl_cfg = \<lparr>rl_windowMs = 60000, rl_maxRequests = 100\<rparr>"


text \<open>
  The penalty misses forwarded clients. The detector counts a request under the socket address
  (\<open>req.ip\<close>), the rate limiter under the first address of \<open>X-Forwarded-For\<close>: a flagged client that
  sends such a header with an address nobody has penalised keeps the full capacity.
\<close>

theorem penalty_misses_forwarded_client:
  assumes "req_ip req = Some ip" "ip \<noteq> []" "header req ''x-forwarded-for'' = Some f" "f \<noteq> []"
    and "js_trim (takeWhile (\<lambda>c. c \<noteq> CHR '','') f) \<noteq> ip"
    and "map_of (penalizedIps s) (js_trim (takeWhile (\<lambda>c. c \<noteq> CHR '','') f)) = None"
  shows "anomaly_ip req = ip \<and>
         fst (effective_capacity rl_cfg t (getClientIp req) (applyPenalty now (anomaly_ip req) mx dur reason s)) =
           rl_maxRequests rl_cfg"
proof -
  have "anomaly_ip req = ip" using assms(1,2) by (cases ip) (simp_all add: anomaly_ip_def)
  then show ?thesis
    using assms(5,6) getClientIp_forwarded [OF assms(3,4)]
    by (simp add: effective_capacity_def applyPenalty_def update_conv')
qed

theorem penalty_misses_forwarded_client_witness:
  "anomaly_ip (demo_req\<lparr>req_ip := Some ''10.0.0.9''\<rparr>) = ''10.0.0.9'' \<and>
   fst (effective_capacity demo_rl_cfg 10 (getClientIp (demo_req\<lparr>req_ip := Some ''10.0.0.9''\<rparr>))
     (applyPenalty 5 (anomaly_ip (demo_req\<lparr>req_ip := Some ''10.0.0.9''\<rparr>)) 10 300000 ''statistical-anomaly'' demo_rl)) = 100"
proof -
  let ?req = "demo_req\<lparr>req_ip := Some ''10.0.0.9''\<rparr>"
  have "header ?req ''x-forwarded-for'' = Some ''203.0.113.195, 10.0.0.1''" by code_simp
  moreover have "js_trim (takeWhile (\<lambda>c. c \<noteq> CHR '','') ''203.0.113.195, 10.0.0.1'') = ''203.0.113.195''" by code_simp
  moreover have "penalizedIps demo_rl = []" by (simp add: demo_rl_def adc_rt.defs)
  ultimately show ?thesis
    using penalty_misses_forwarded_client [of ?req "''10.0.0.9''" "''203.0.113.195, 10.0.0.1''" demo_rl demo_rl_cfg]
    by (simp add: demo_rl_cfg_def del: fst_conv) metis
qed

end
