(* ===== verification/Waf.thy ===== *)
theory Waf
  imports Anomaly
begin

text \<open>
  \<^verbatim>\<open>src/security/wafMiddleware.js\<close>: the signatures of SQL injection and cross-site scripting, the
  recursive scan of a payload and the middleware. The regular expressions of the source use a small
  fragment of the language; it is modelled as sequences of atoms (\<open>atom\<close>) with a position-based
  matcher, proved equal to the relational semantics \<open>matches\<close>. Case-insensitive patterns compare
  ASCII letters without case; no other character of the model folds onto an ASCII letter.
\<close>

section \<open>Regular expressions\<close>

text \<open>
  A literal (case folded or not), one character of a class, a greedy repetition of a class
  (\<open>c*\<close>, \<open>c+\<close>, \<open>c?\<close>), a word boundary and the end of the input.
\<close>

datatype char_class = Dot | Space | NotGt | Quote

datatype atom =
    Lit string
  | Many char_class
  | Many1 char_class
  | Optional char_class
  | Boundary
  | EndOfInput

type_synonym regex = "atom list"

definition is_word :: "char \<Rightarrow> bool" where
  "is_word c = (let n = (of_char c :: nat) in
     48 \<le> n \<and> n \<le> 57 \<or> 65 \<le> n \<and> n \<le> 90 \<or> 97 \<le> n \<and> n \<le> 122 \<or> n = 95)"

fun in_class :: "char_class \<Rightarrow> char \<Rightarrow> bool" where
  "in_class Dot c = (c \<noteq> CHR 0x0A \<and> c \<noteq> CHR 0x0D)"
| "in_class Space c = js_space c"
| "in_class NotGt c = (c \<noteq> CHR ''>'')"
| "in_class Quote c = (c = CHR 0x27 \<or> c = CHR 0x22)"

definition word_at :: "string \<Rightarrow> nat \<Rightarrow> bool" where
  "word_at s i = (i < length s \<and> is_word (s ! i))"

definition at_boundary :: "string \<Rightarrow> nat \<Rightarrow> bool" where
  "at_boundary s i = ((0 < i \<and> word_at s (i - 1)) \<noteq> word_at s i)"

definition run_length :: "char_class \<Rightarrow> string \<Rightarrow> nat \<Rightarrow> nat" where
  "run_length cl s i = length (takeWhile (in_class cl) (drop i s))"

text \<open>The positions at which an atom that starts at \<open>i\<close> may end.\<close>

fun atom_ends :: "atom \<Rightarrow> string \<Rightarrow> nat \<Rightarrow> nat list" where
  "atom_ends (Lit w) s i = (if js_lower (take (length w) (drop i s)) = w then [i + length w] else [])"
| "atom_ends (Many cl) s i = [i..<i + run_length cl s i + 1]"
| "atom_ends (Many1 cl) s i = [i + 1..<i + run_length cl s i + 1]"
| "atom_ends (Optional cl) s i = i # (if 0 < run_length cl s i then [i + 1] else [])"
| "atom_ends Boundary s i = (if at_boundary s i then [i] else [])"
| "atom_ends EndOfInput s i = (if i = length s then [i] else [])"

fun match_at :: "regex \<Rightarrow> string \<Rightarrow> nat \<Rightarrow> bool" where
  "match_at [] s i = True"
| "match_at (a # r) s i = list_ex (match_at r s) (atom_ends a s i)"

text \<open>\<open>regex.test(s)\<close>: a match anywhere in the string.\<close>

definition test :: "regex \<Rightarrow> string \<Rightarrow> bool" where
  "test r s = list_ex (match_at r s) [0..<length s + 1]"

text \<open>The literals of the patterns are in lower case.\<close>

definition sqli_patterns :: "regex list" where
  "sqli_patterns =
     [[Boundary, Lit ''union'', Boundary, Many Dot, Boundary, Lit ''select'', Boundary],
      [Boundary, Lit ''select'', Boundary, Many Dot, Boundary, Lit ''from'', Boundary],
      [Boundary, Lit ''insert'', Boundary, Many Dot, Boundary, Lit ''into'', Boundary],
      [Boundary, Lit ''update'', Boundary, Many Dot, Boundary, Lit ''set'', Boundary],
      [Boundary, Lit ''delete'', Boundary, Many Dot, Boundary, Lit ''from'', Boundary],
      [Boundary, Lit ''drop'', Boundary, Many Dot, Boundary, Lit ''table'', Boundary],
      [Lit ''exec'', Many Space, Lit ''(''],
      [Lit ''cast'', Many Space, Lit ''('', Many Dot, Lit ''as''],
      [Lit ''convert'', Many Space, Lit ''(''],
      [Lit ''char'', Many Space, Lit ''(''],
      [Lit ''--'', Many Space, EndOfInput]]"

definition xss_patterns :: "regex list" where
  "xss_patterns =
     [[Lit ''<script'', Many NotGt, Lit ''>''],
      [Lit ''</script>''],
      [Lit ''javascript:''],
      [Lit ''onerror'', Many Space, Lit ''=''],
      [Lit ''onload'', Many Space, Lit ''=''],
      [Lit ''onclick'', Many Space, Lit ''=''],
      [Lit ''src'', Many Space, Lit ''='', Many Space, Optional Quote, Lit ''javascript:''],
      [Lit ''eval'', Many Space, Lit ''(''],
      [Lit ''expression'', Many Space, Lit ''(''],
      [Lit ''<'', Many Space, Lit ''img'', Many1 Space, Many NotGt, Lit ''onerror''],
      [Lit ''<'', Many Space, Lit ''svg'', Many1 Space, Many NotGt, Lit ''onload'']]"

text \<open>\<open>regex.source\<close>: the text of the pattern.\<close>

fun class_source :: "char_class \<Rightarrow> string" where
  "class_source Dot = ''.''"
| "class_source Space = [CHR 0x5C, CHR ''s'']"
| "class_source NotGt = ''[^>]''"
| "class_source Quote = ''['' @ [CHR 0x27, CHR 0x22] @ '']''"

fun atom_source :: "atom \<Rightarrow> string" where
  "atom_source (Lit w) =
     concat (map (\<lambda>c. if c = CHR ''('' \<or> c = CHR ''/'' then [CHR 0x5C, c] else [c]) w)"
| "atom_source (Many cl) = class_source cl @ ''*''"
| "atom_source (Many1 cl) = class_source cl @ ''+''"
| "atom_source (Optional cl) = class_source cl @ ''?''"
| "atom_source Boundary = [CHR 0x5C, CHR ''b'']"
| "atom_source EndOfInput = ''$''"

definition regex_source :: "regex \<Rightarrow> string" where
  "regex_source r = concat (map atom_source r)"

section \<open>Scanning\<close>

datatype attack = Sqli | Xss

record waf_match =
  attackType :: attack
  matchedPattern :: string
  inputSnippet :: string

fun first_pattern :: "attack \<Rightarrow> regex list \<Rightarrow> string \<Rightarrow> waf_match option" where
  "first_pattern a [] s = None"
| "first_pattern a (r # ps) s =
     (if test r s then Some \<lparr>attackType = a, matchedPattern = regex_source r, inputSnippet = s\<rparr> else first_pattern a ps s)"

definition scan_string :: "string \<Rightarrow> waf_match option" where
  "scan_string s =
     (case first_pattern Sqli sqli_patterns s of Some m \<Rightarrow> Some m | None \<Rightarrow> first_pattern Xss xss_patterns s)"

fun scanPayload :: "js_value \<Rightarrow> waf_match option"
  and scan_items :: "js_value list \<Rightarrow> waf_match option"
  and scan_entries :: "(string \<times> js_value) list \<Rightarrow> waf_match option" where
  "scanPayload (JStr s) = scan_string s"
| "scanPayload (JArr vs) = scan_items vs"
| "scanPayload (JObj es) = scan_entries es"
| "scanPayload _ = None"
| "scan_items [] = None"
| "scan_items (v # vs) = (case scanPayload v of Some m \<Rightarrow> Some m | None \<Rightarrow> scan_items vs)"
| "scan_entries [] = None"
| "scan_entries ((k, v) # es) =
     (case scan_string k of
        Some m \<Rightarrow> Some m
      | None \<Rightarrow> (case scanPayload v of Some m \<Rightarrow> Some m | None \<Rightarrow> scan_entries es))"

section \<open>The middleware\<close>

datatype verdict = Pass | Deny nat string

definition waf_details :: "string \<Rightarrow> waf_match \<Rightarrow> (string \<times> js_value) list" where
  "waf_details source m =
     [(''source'', JStr source), (''attackType'', JStr (case attackType m of Sqli \<Rightarrow> ''sqli'' | Xss \<Rightarrow> ''xss'')),
      (''matchedPattern'', JStr (matchedPattern m)), (''inputSnippet'', JStr (inputSnippet m))]"

definition waf_message :: "waf_match \<Rightarrow> string \<Rightarrow> string" where
  "waf_message m place =
     ''Access Blocked - WAF detected a potential '' @ (case attackType m of Sqli \<Rightarrow> ''SQLI'' | Xss \<Rightarrow> ''XSS'') @
     '' attempt in '' @ place"

text \<open>\<open>if (req.body)\<close>: the falsy values of the language.\<close>

fun truthy :: "js_value \<Rightarrow> bool" where
  "truthy JUndefined = False"
| "truthy JNull = False"
| "truthy (JBool b) = b"
| "truthy (JNum x) = (x \<noteq> 0)"
| "truthy (JStr s) = (s \<noteq> [])"
| "truthy (JArr _) = True"
| "truthy (JObj _) = True"

definition wafMiddleware ::
  "time \<Rightarrow> 'r request_scheme \<Rightarrow> js_value \<Rightarrow> js_value \<Rightarrow> 'a adc_log_scheme \<Rightarrow> verdict \<times> 'a adc_log_scheme" where
  "wafMiddleware now req query body s =
     (case scanPayload (JStr (req_path req)) of
        Some m \<Rightarrow> (Deny 403 (waf_message m ''the URI path''), logEvent now ''waf-block'' req (waf_details ''uri-path'' m) s)
      | None \<Rightarrow>
          (case scanPayload query of
             Some m \<Rightarrow> (Deny 403 (waf_message m ''query parameters''),
                        logEvent now ''waf-block'' req (waf_details ''query-params'' m) s)
           | None \<Rightarrow>
               if truthy body then
                 (case scanPayload body of
                    Some m \<Rightarrow> (Deny 403 (waf_message m ''request payload''),
                               logEvent now ''waf-block'' req (waf_details ''request-body'' m) s)
                  | None \<Rightarrow> (Pass, s))
               else (Pass, s)))"

section \<open>Semantics of the expressions\<close>

text \<open>\<open>matches r s i j\<close>: the expression matches the part of \<open>s\<close> from \<open>i\<close> to \<open>j\<close>.\<close>

inductive matches :: "regex \<Rightarrow> string \<Rightarrow> nat \<Rightarrow> nat \<Rightarrow> bool" where
  m_nil: "i \<le> length s \<Longrightarrow> matches [] s i i"
| m_lit: "js_lower (take (length w) (drop i s)) = w \<Longrightarrow> matches r s (i + length w) j \<Longrightarrow> matches (Lit w # r) s i j"
| m_stop: "matches r s i j \<Longrightarrow> matches (Many cl # r) s i j"
| m_more: "i < length s \<Longrightarrow> in_class cl (s ! i) \<Longrightarrow> matches (Many cl # r) s (i + 1) j \<Longrightarrow> matches (Many cl # r) s i j"
| m_plus: "i < length s \<Longrightarrow> in_class cl (s ! i) \<Longrightarrow> matches (Many cl # r) s (i + 1) j \<Longrightarrow> matches (Many1 cl # r) s i j"
| m_none: "matches r s i j \<Longrightarrow> matches (Optional cl # r) s i j"
| m_one: "i < length s \<Longrightarrow> in_class cl (s ! i) \<Longrightarrow> matches r s (i + 1) j \<Longrightarrow> matches (Optional cl # r) s i j"
| m_boundary: "at_boundary s i \<Longrightarrow> matches r s i j \<Longrightarrow> matches (Boundary # r) s i j"
| m_end: "i = length s \<Longrightarrow> matches r s i j \<Longrightarrow> matches (EndOfInput # r) s i j"

lemma run_length_step:
  "run_length cl s i = (if i < length s \<and> in_class cl (s ! i) then Suc (run_length cl s (i + 1)) else 0)"
proof (cases "i < length s")
  case True
  then have "drop i s = s ! i # drop (i + 1) s" by (simp add: Cons_nth_drop_Suc)
  then show ?thesis using True by (simp add: run_length_def)
qed (simp add: run_length_def)

lemma ex_upt_shift: "(\<exists>x \<in> set [i..<i + n]. P x) \<longleftrightarrow> (\<exists>k < n. P (i + k))"
proof
  assume "\<exists>x \<in> set [i..<i + n]. P x"
  then obtain x where "i \<le> x" "x < i + n" "P x" by auto
  then have "x - i < n" "P (i + (x - i))" by simp_all
  then show "\<exists>k < n. P (i + k)" by blast
qed auto

lemma many_iff: "match_at (Many cl # r) s i \<longleftrightarrow> (\<exists>k < run_length cl s i + 1. match_at r s (i + k))"
  unfolding match_at.simps atom_ends.simps list_ex_iff add.assoc [of i] by (rule ex_upt_shift)

lemma many1_iff: "match_at (Many1 cl # r) s i \<longleftrightarrow> (\<exists>k < run_length cl s i. match_at r s (i + 1 + k))"
proof -
  have "i + run_length cl s i + 1 = i + 1 + run_length cl s i" by simp
  then show ?thesis
    unfolding match_at.simps atom_ends.simps list_ex_iff by (simp only: ex_upt_shift)
qed

lemma many_ends:
  "match_at (Many cl # r) s i \<longleftrightarrow>
   match_at r s i \<or> i < length s \<and> in_class cl (s ! i) \<and> match_at (Many cl # r) s (i + 1)"
  unfolding many_iff run_length_step [of cl s i] by (auto simp: Ex_less_Suc2)

lemma many1_ends:
  "match_at (Many1 cl # r) s i \<longleftrightarrow> i < length s \<and> in_class cl (s ! i) \<and> match_at (Many cl # r) s (i + 1)"
  unfolding many_iff many1_iff run_length_step [of cl s i] by auto

lemma optional_ends:
  "match_at (Optional cl # r) s i \<longleftrightarrow>
   match_at r s i \<or> i < length s \<and> in_class cl (s ! i) \<and> match_at r s (i + 1)"
  using run_length_step [of cl s i] by auto

lemma matches_match_at: "matches r s i j \<Longrightarrow> match_at r s i"
proof (induction rule: matches.induct)
  case (m_stop r s i j cl)
  then show ?case by (subst many_ends) simp
next
  case (m_more i s cl r j)
  then show ?case by (subst many_ends) simp
next
  case (m_plus i s cl r j)
  then show ?case by (subst many1_ends) simp
next
  case (m_none r s i j cl)
  then show ?case by (subst optional_ends) simp
next
  case (m_one i s cl r j)
  then show ?case by (subst optional_ends) simp
qed simp_all

lemma many_matches:
  assumes "\<And>i. i \<le> length s \<Longrightarrow> match_at r s i \<Longrightarrow> \<exists>j. matches r s i j"
  shows "i \<le> length s \<Longrightarrow> match_at (Many cl # r) s i \<Longrightarrow> \<exists>j. matches (Many cl # r) s i j"
proof (induction "length s - i" arbitrary: i)
  case 0
  then show ?case using assms many_ends [of cl r s i] by (auto intro: matches.intros)
next
  case (Suc n)
  then have "match_at (Many cl # r) s (i + 1) \<Longrightarrow> \<exists>j. matches (Many cl # r) s (i + 1) j" by simp
  with Suc.prems assms many_ends [of cl r s i] show ?case by (blast intro: matches.intros)
qed

lemma map_eq_imp_length_eq': "map f xs = ys \<Longrightarrow> length xs = length ys"
  by auto

lemma match_at_matches: "i \<le> length s \<Longrightarrow> match_at r s i \<Longrightarrow> \<exists>j. matches r s i j"
proof (induction r arbitrary: i)
  case Nil
  then show ?case by (auto intro: matches.intros)
next
  case (Cons a r)
  show ?case
  proof (cases a)
    case (Lit w)
    have eq: "js_lower (take (length w) (drop i s)) = w"
    proof (rule ccontr)
      assume "js_lower (take (length w) (drop i s)) \<noteq> w"
      with Cons.prems(2) Lit show False by simp
    qed
    then have "length (take (length w) (drop i s)) = length w"
      unfolding js_lower_def by (rule map_eq_imp_length_eq')
    then have "i + length w \<le> length s" using Cons.prems(1) by (simp add: min_def split: if_splits)
    moreover have "match_at r s (i + length w)" using Cons.prems(2) Lit by (simp add: eq)
    ultimately obtain j where "matches r s (i + length w) j" using Cons.IH by blast
    with m_lit [OF eq] Lit show ?thesis by blast
  next
    case (Many cl)
    with Cons.prems have "match_at (Many cl # r) s i" by simp
    from many_matches [OF Cons.IH Cons.prems(1) this] Many show ?thesis by simp
  next
    case (Many1 cl)
    with Cons.prems(2) have "i < length s" "in_class cl (s ! i)" "match_at (Many cl # r) s (i + 1)"
      using many1_ends [of cl r s i] by auto
    moreover from this obtain j where "matches (Many cl # r) s (i + 1) j"
      using many_matches [OF Cons.IH, of "i + 1" cl] by auto
    ultimately show ?thesis unfolding Many1 by (blast intro: m_plus)
  next
    case (Optional cl)
    with Cons.prems consider "match_at r s i" | "i < length s" "in_class cl (s ! i)" "match_at r s (i + 1)"
      using optional_ends [of cl r s i] by auto
    then show ?thesis
      using Cons.IH [of i] Cons.IH [of "i + 1"] Cons.prems(1) Optional
      by cases (auto intro: m_none m_one [simplified])
  qed (use Cons in \<open>auto intro: matches.intros split: if_splits\<close>)
qed

lemma test_matches: "test r s \<longleftrightarrow> (\<exists>i j. i \<le> length s \<and> matches r s i j)"
proof -
  have "test r s \<longleftrightarrow> (\<exists>i \<le> length s. match_at r s i)"
    by (simp add: test_def list_ex_iff Bex_def less_Suc_eq_le del: upt_Suc)
  then show ?thesis by (blast dest: match_at_matches matches_match_at)
qed

section \<open>Properties\<close>

text \<open>Every string of a payload, keys included.\<close>

fun strings_of :: "js_value \<Rightarrow> string list"
  and item_strings :: "js_value list \<Rightarrow> string list"
  and entry_strings :: "(string \<times> js_value) list \<Rightarrow> string list" where
  "strings_of (JStr s) = [s]"
| "strings_of (JArr vs) = item_strings vs"
| "strings_of (JObj es) = entry_strings es"
| "strings_of _ = []"
| "item_strings [] = []"
| "item_strings (v # vs) = strings_of v @ item_strings vs"
| "entry_strings [] = []"
| "entry_strings ((k, v) # es) = k # strings_of v @ entry_strings es"

lemma first_pattern_None: "first_pattern a ps s = None \<longleftrightarrow> (\<forall>r \<in> set ps. \<not> test r s)"
  by (induction ps) auto

definition malicious :: "string \<Rightarrow> bool" where
  "malicious s = list_ex (\<lambda>r. test r s) (sqli_patterns @ xss_patterns)"

lemma scan_string_None: "scan_string s = None \<longleftrightarrow> \<not> malicious s"
  unfolding scan_string_def malicious_def list_ex_append
  using first_pattern_None [of Sqli sqli_patterns s] first_pattern_None [of Xss xss_patterns s]
  by (auto simp: list_ex_iff split: option.split)

lemma first_pattern_Some: "first_pattern a ps s = Some m \<Longrightarrow> inputSnippet m = s \<and> list_ex (\<lambda>r. test r s) ps"
  by (induction ps) (auto split: if_splits)

lemma scan_string_Some: "scan_string s = Some m \<Longrightarrow> inputSnippet m = s \<and> malicious s"
  by (auto simp: scan_string_def malicious_def dest!: first_pattern_Some split: option.splits)

lemma scan_None:
  "scanPayload v = None \<longleftrightarrow> (\<forall>s \<in> set (strings_of v). \<not> malicious s)"
  "scan_items vs = None \<longleftrightarrow> (\<forall>s \<in> set (item_strings vs). \<not> malicious s)"
  "scan_entries es = None \<longleftrightarrow> (\<forall>s \<in> set (entry_strings es). \<not> malicious s)"
  by (induction v and vs and es rule: scanPayload_scan_items_scan_entries.induct)
    (auto simp: scan_string_None ball_Un dest: scan_string_Some split: option.splits)

lemma scan_Some:
  "scanPayload v = Some m \<Longrightarrow> inputSnippet m \<in> set (strings_of v) \<and> malicious (inputSnippet m)"
  "scan_items vs = Some m \<Longrightarrow> inputSnippet m \<in> set (item_strings vs) \<and> malicious (inputSnippet m)"
  "scan_entries es = Some m \<Longrightarrow> inputSnippet m \<in> set (entry_strings es) \<and> malicious (inputSnippet m)"
  by (induction v and vs and es rule: scanPayload_scan_items_scan_entries.induct)
    (auto dest: scan_string_Some split: option.splits)

text \<open>
  C14: the firewall is exact. A request passes if and only if no string of its path, its query or (when
  there is one) its body, object keys and nested values included, is matched anywhere by one of the 22
  signatures in the standard semantics of regular expressions; a refused request gets 403 and leaves a
  \<open>waf-block\<close> event, a passing one changes nothing.
\<close>

theorem waf_exact:
  "let (v, s') = wafMiddleware now req query body s;
       inspected = req_path req # strings_of query @ (if truthy body then strings_of body else []);
       hit = (\<exists>str \<in> set inspected. \<exists>r \<in> set (sqli_patterns @ xss_patterns). \<exists>i j. i \<le> length str \<and> matches r str i j)
   in if hit then \<exists>msg d. v = Deny 403 msg \<and> s' = logEvent now ''waf-block'' req d s
      else v = Pass \<and> s' = s"
proof -
  have hit: "(\<exists>r \<in> set (sqli_patterns @ xss_patterns). \<exists>i j. i \<le> length str \<and> matches r str i j) \<longleftrightarrow> malicious str" for str
    by (simp add: malicious_def list_ex_iff test_matches)
  show ?thesis
    unfolding Let_def hit
    by (auto simp: wafMiddleware_def scan_None scan_string_None split: option.splits dest!: scan_Some scan_string_Some)
qed

lemma test_literal:
  assumes "js_lower w = l"
  shows "test [Lit l] (a @ w @ b)"
proof -
  have "match_at [Lit l] (a @ w @ b) (length a)"
    using assms by (auto simp: js_lower_def)
  then show ?thesis unfolding test_def list_ex_iff by (intro bexI [of _ "length a"]) (auto simp del: upt_Suc)
qed

text \<open>
  No letter case and no surroundings hide the literal signatures: a string that contains
  \<open>javascript:\<close> or \<open></script>\<close> in any mix of upper and lower case is found wherever it stands, as a
  value, as a key or inside an array.
\<close>

theorem waf_detects_literals:
  assumes "js_lower w = ''javascript:'' \<or> js_lower w = ''</script>''"
  shows "scanPayload (JStr (a @ w @ b)) \<noteq> None \<and>
         scanPayload (JObj [(k, JArr [v, JStr (a @ w @ b)])]) \<noteq> None \<and>
         scanPayload (JObj [(a @ w @ b, v)]) \<noteq> None"
proof -
  have "malicious (a @ w @ b)"
    using assms test_literal [of w _ a b] by (auto simp: malicious_def xss_patterns_def)
  then show ?thesis unfolding scan_None by simp
qed

theorem waf_detects_literals_witness:
  "scanPayload (JObj [(''q'', JArr [JNull, JStr (''x='' @ ''JaVaScRiPt:'' @ ''alert(1)'')])]) \<noteq> None"
proof -
  have "js_lower ''JaVaScRiPt:'' = ''javascript:''" by code_simp
  then show ?thesis using waf_detects_literals [of "''JaVaScRiPt:''" "''x=''" "''alert(1)''"] by blast
qed

end
