(* ===== verification/Perimeter.thy ===== *)
theory Perimeter
  imports Waf
begin

text \<open>
  The perimeter of the gateway: the address blocklist (\<^verbatim>\<open>src/security/ipBlocklist.js\<close>), the header checks
  (\<^verbatim>\<open>src/security/headerValidator.js\<close>), the token check (\<^verbatim>\<open>src/security/jwtMiddleware.js\<close>), the security API
  (\<^verbatim>\<open>src/security/securityRoutes.js\<close>), the HTTPS redirect (\<^verbatim>\<open>src/middleware/tlsRedirect.js\<close>), the correlation
  id (\<^verbatim>\<open>src/middleware/correlationId.js\<close>) and the final error handler (\<^verbatim>\<open>src/middleware/errorHandler.js\<close>).
  The library \<^verbatim>\<open>jsonwebtoken\<close> is the pair of parameters \<open>jwt_verify\<close>, \<open>jwt_sign\<close>. Replies keep their status and
  the data they carry; a dash stands for the typographic dash of the messages.
\<close>

record adc_sec = adc_an +
  blockedIps :: "js_value list"

section \<open>The blocklist\<close>

text \<open>
  The \<open>Set\<close> of blocked addresses in insertion order. The API adds whatever truthy value its JSON body
  holds; a parsed object or array is a new reference, so it never equals a member.
\<close>

fun by_reference :: "js_value \<Rightarrow> bool" where
  "by_reference (JArr _) = True"
| "by_reference (JObj _) = True"
| "by_reference _ = False"

definition set_add :: "js_value \<Rightarrow> js_value list \<Rightarrow> js_value list" where
  "set_add v vs = (if by_reference v \<or> v \<notin> set vs then vs @ [v] else vs)"

definition block :: "js_value \<Rightarrow> 'a adc_sec_scheme \<Rightarrow> 'a adc_sec_scheme" where
  "block ip s = s\<lparr>blockedIps := set_add ip (blockedIps s)\<rparr>"

definition unblock :: "string \<Rightarrow> 'a adc_sec_scheme \<Rightarrow> bool \<times> 'a adc_sec_scheme" where
  "unblock ip s = (JStr ip \<in> set (blockedIps s), s\<lparr>blockedIps := removeAll (JStr ip) (blockedIps s)\<rparr>)"

definition isBlocked :: "string \<Rightarrow> 'a adc_sec_scheme \<Rightarrow> bool" where
  "isBlocked ip s \<longleftrightarrow> JStr ip \<in> set (blockedIps s)"

definition getBlockedList :: "'a adc_sec_scheme \<Rightarrow> js_value list" where
  "getBlockedList s = blockedIps s"

definition blocklistMiddleware :: "time \<Rightarrow> 'r request_scheme \<Rightarrow> 'a adc_sec_scheme \<Rightarrow> verdict \<times> 'a adc_sec_scheme" where
  "blocklistMiddleware now req s =
     (let clientIp = getClientIp req
      in if isBlocked clientIp s then
           (Deny 403 ''Access Forbidden - client IP has been blocked by administrator'',
            logEvent now ''ip-blocked'' req
              [(''reason'', JStr ''Client IP is present in the firewall blocklist'')] s)
         else (Pass, s))"

section \<open>Header checks\<close>

definition SCANNERS :: "regex list" where
  "SCANNERS = [[Lit ''nikto''], [Lit ''sqlmap''], [Lit ''nmap''], [Lit ''acunetix''], [Lit ''w3af'']]"

definition headerValidator :: "time \<Rightarrow> 'r request_scheme \<Rightarrow> 'a adc_log_scheme \<Rightarrow> verdict \<times> 'a adc_log_scheme" where
  "headerValidator now req s =
     (if \<not> truthy_str (header req ''host'') then
        (Deny 400 ''Bad Request - Missing Host header'',
         logEvent now ''header-invalid'' req
           [(''reason'', JStr ''Request missing mandatory HTTP Host header'')] s)
      else
        case header req ''user-agent'' of
          None \<Rightarrow> (Pass, s)
        | Some userAgent \<Rightarrow>
            if userAgent = [] then (Pass, s)
            else case find (\<lambda>r. test r userAgent) SCANNERS of
                None \<Rightarrow> (Pass, s)
              | Some scannerRegex \<Rightarrow>
                  (Deny 403 ''Forbidden - scanner signature detected'',
                   logEvent now ''scanner-detected'' req
                     [(''reason'', JStr (''Malicious scanner User-Agent detected: \"'' @ userAgent @ ''\"'')),
                      (''match'', JStr (regex_source scannerRegex))] s))"

section \<open>Tokens\<close>

text \<open>
  \<open>jwt_verify now token secret\<close> is the decoded payload, or the message of the error the library throws;
  \<open>jwt_sign now payload secret expiresIn\<close> is the token.
\<close>

record jwt_lib =
  jwt_verify :: "time \<Rightarrow> string \<Rightarrow> string \<Rightarrow> string + js_value"
  jwt_sign :: "time \<Rightarrow> js_value \<Rightarrow> string \<Rightarrow> string \<Rightarrow> string"
  jwtSecret :: string
  jwtExpiry :: string

definition jwtMiddleware ::
  "jwt_lib \<Rightarrow> time \<Rightarrow> 'r request_scheme \<Rightarrow> 'a adc_log_scheme \<Rightarrow> (string + js_value) \<times> 'a adc_log_scheme" where
  "jwtMiddleware jwt now req s =
     (let missing =
        (Inl ''Unauthorized - Missing or malformed Authorization token'',
         logEvent now ''unauthorized-jwt'' req
           [(''reason'', JStr ''Missing or malformed Authorization Bearer header'')] s)
      in case header req ''authorization'' of
           None \<Rightarrow> missing
         | Some authHeader \<Rightarrow>
             if authHeader = [] \<or> \<not> js_startsWith authHeader ''Bearer '' then missing
             else case jwt_verify jwt now (js_split (CHR '' '') authHeader ! 1) (jwtSecret jwt) of
                 Inr decoded \<Rightarrow> (Inr decoded, s)
               | Inl message \<Rightarrow>
                   (Inl (''Unauthorized - Invalid or expired token: '' @ message),
                    logEvent now ''unauthorized-jwt'' req
                      [(''reason'', JStr (''JWT verification failed: '' @ message)),
                       (''error'', JStr message)] s))"

section \<open>The error handler\<close>

record js_error =
  err_statusCode :: "nat option"
  err_status :: "nat option"
  err_message :: string
  err_stack :: string

record error_reply =
  er_status :: nat
  er_message :: string
  er_requestId :: string
  er_stack :: "string option"

definition or_status :: "nat option \<Rightarrow> nat \<Rightarrow> nat" where
  "or_status a d = (case a of Some n \<Rightarrow> if n = 0 then d else n | None \<Rightarrow> d)"

definition errorHandler :: "string option \<Rightarrow> js_error \<Rightarrow> 'r request_scheme \<Rightarrow> error_reply" where
  "errorHandler NODE_ENV err req =
     (let statusCode = or_status (err_statusCode err) (or_status (err_status err) 500)
      in \<lparr>er_status = statusCode,
          er_message = (if 500 \<le> statusCode then ''Internal Server Error'' else err_message err),
          er_requestId = the (or_else (header req ''x-request-id'') (Some ''unknown'')),
          er_stack = (if NODE_ENV = Some ''development'' then Some (err_stack err) else None)\<rparr>)"

text \<open>An exception of a route handler reaches the error handler as an \<open>Error\<close> without a status.\<close>

definition thrown :: "string \<Rightarrow> string \<Rightarrow> js_error" where
  "thrown message stack = \<lparr>err_statusCode = None, err_status = None, err_message = message, err_stack = stack\<rparr>"

section \<open>The security API\<close>

text \<open>\<open>const { name } = body\<close> on a parsed JSON body: an object, or an array, which has no such field.\<close>

fun field :: "js_value \<Rightarrow> string \<Rightarrow> js_value" where
  "field (JObj es) name = (case map_of es name of Some v \<Rightarrow> v | None \<Rightarrow> JUndefined)"
| "field _ name = JUndefined"

definition login :: "jwt_lib \<Rightarrow> time \<Rightarrow> js_value \<Rightarrow> string api_reply" where
  "login jwt now body =
     (if field body ''username'' = JStr ''admin'' \<and> field body ''password'' = JStr ''sentinel'' then
        Ok (jwt_sign jwt now (JObj [(''username'', JStr ''admin''), (''role'', JStr ''admin'')])
              (jwtSecret jwt) (jwtExpiry jwt))
      else Refused 401 ''Invalid credentials. Default: admin / sentinel'')"

definition getEvents :: "'a adc_log_scheme \<Rightarrow> sec_event list api_reply" where
  "getEvents s = Ok (events s)"

definition deleteEvents :: "'a adc_log_scheme \<Rightarrow> unit api_reply \<times> 'a adc_log_scheme" where
  "deleteEvents s = (Ok (), clearLogs s)"

definition getBlocklist :: "'a adc_sec_scheme \<Rightarrow> js_value list api_reply" where
  "getBlocklist s = Ok (getBlockedList s)"

definition postBlocklist :: "js_value \<Rightarrow> 'a adc_sec_scheme \<Rightarrow> js_value list api_reply \<times> 'a adc_sec_scheme" where
  "postBlocklist body s =
     (let ip = field body ''ip''
      in if \<not> truthy ip then (Refused 400 ''Missing required body field: \"ip\"'', s)
         else let s = block ip s in (Ok (getBlockedList s), s))"

definition deleteBlocklist :: "string \<Rightarrow> 'a adc_sec_scheme \<Rightarrow> js_value list api_reply \<times> 'a adc_sec_scheme" where
  "deleteBlocklist ip s =
     (let (existed, s) = unblock ip s
      in if \<not> existed then (Refused 404 (''IP address \"'' @ ip @ ''\" was not found in the blocklist''), s)
         else (Ok (getBlockedList s), s))"

text \<open>
  The three anomaly routes read the variable \<open>anomalyDetector\<close>, which the module neither declares nor
  imports: evaluating it throws a \<open>ReferenceError\<close> before anything is changed.
\<close>

definition anomaly_reference_error :: "string option \<Rightarrow> string \<Rightarrow> 'r request_scheme \<Rightarrow> error_reply" where
  "anomaly_reference_error NODE_ENV stack req = errorHandler NODE_ENV (thrown ''anomalyDetector is not defined'' stack) req"

definition getAnomaliesRoute ::
  "string option \<Rightarrow> string \<Rightarrow> 'r request_scheme \<Rightarrow> 'a adc_sec_scheme \<Rightarrow> error_reply \<times> 'a adc_sec_scheme" where
  "getAnomaliesRoute NODE_ENV stack req s = (anomaly_reference_error NODE_ENV stack req, s)"

definition postAnomaliesConfig ::
  "string option \<Rightarrow> string \<Rightarrow> 'r request_scheme \<Rightarrow> js_value \<Rightarrow> 'a adc_sec_scheme \<Rightarrow> error_reply \<times> 'a adc_sec_scheme" where
  "postAnomaliesConfig NODE_ENV stack req body s = (anomaly_reference_error NODE_ENV stack req, s)"

definition deleteAnomalies ::
  "string option \<Rightarrow> string \<Rightarrow> 'r request_scheme \<Rightarrow> 'a adc_sec_scheme \<Rightarrow> error_reply \<times> 'a adc_sec_scheme" where
  "deleteAnomalies NODE_ENV stack req s = (anomaly_reference_error NODE_ENV stack req, s)"

section \<open>HTTPS redirect and correlation id\<close>

record tls_config =
  tls_enabled :: bool
  tls_redirect :: bool
  tls_port :: nat

datatype redirect_verdict = NoRedirect | Redirect nat string

text \<open>Express's \<open>req.secure\<close> is \<open>req.protocol === 'https'\<close>; \<open>req_url\<close> is the request target.\<close>

definition tlsRedirect :: "tls_config \<Rightarrow> string \<Rightarrow> 'r proxy_req_scheme \<Rightarrow> redirect_verdict" where
  "tlsRedirect cfg req_url req =
     (if \<not> tls_enabled cfg \<or> \<not> tls_redirect cfg then NoRedirect
      else if protocol req \<noteq> ''https'' \<and> protocol req = ''http'' then
        let host = (if truthy_str (header req ''host'') then hd (js_split (CHR '':'') (the (header req ''host'')))
                    else ''localhost'');
            httpsPort = (if tls_port cfg = 443 then [] else '':'' @ nat_str (tls_port cfg))
        in Redirect 301 (''https://'' @ host @ httpsPort @ req_url)
      else NoRedirect)"

definition correlationIdMiddleware :: "string \<Rightarrow> 'r proxy_req_scheme \<Rightarrow> 'r proxy_req_scheme" where
  "correlationIdMiddleware uuid req =
     req\<lparr>correlationId := or_else (header req ''x-correlation-id'')
                           (or_else (header req ''x-request-id'')
                             (or_else (header req ''x-request-id'') (Some uuid)))\<rparr>"

section \<open>What the blocklist decides\<close>

datatype blocklist_call = PostBlocklist js_value | DeleteBlocklist string

fun blocklist_step :: "blocklist_call \<Rightarrow> 'a adc_sec_scheme \<Rightarrow> 'a adc_sec_scheme" where
  "blocklist_step (PostBlocklist body) s = snd (postBlocklist body s)"
| "blocklist_step (DeleteBlocklist ip) s = snd (deleteBlocklist ip s)"

text \<open>The specification: the last call that names the address decides.\<close>

fun names_address :: "string \<Rightarrow> blocklist_call \<Rightarrow> bool" where
  "names_address ip (PostBlocklist body) \<longleftrightarrow> ip \<noteq> [] \<and> field body ''ip'' = JStr ip"
| "names_address ip (DeleteBlocklist ip') \<longleftrightarrow> ip' = ip"

fun is_post :: "blocklist_call \<Rightarrow> bool" where
  "is_post (PostBlocklist _) = True"
| "is_post (DeleteBlocklist _) = False"

definition last_call_blocks :: "blocklist_call list \<Rightarrow> string \<Rightarrow> bool \<Rightarrow> bool" where
  "last_call_blocks cs ip before =
     (case find (names_address ip) (rev cs) of Some c \<Rightarrow> is_post c | None \<Rightarrow> before)"

lemma isBlocked_block: "isBlocked ip (block v s) \<longleftrightarrow> v = JStr ip \<or> isBlocked ip s"
  by (auto simp: isBlocked_def block_def set_add_def)

lemma isBlocked_unblock: "isBlocked ip (snd (unblock ip' s)) \<longleftrightarrow> ip \<noteq> ip' \<and> isBlocked ip s"
  by (auto simp: isBlocked_def unblock_def)

lemma snd_postBlocklist:
  "snd (postBlocklist body s) = (if truthy (field body ''ip'') then block (field body ''ip'') s else s)"
  by (simp add: postBlocklist_def Let_def)

lemma snd_deleteBlocklist: "snd (deleteBlocklist ip s) = snd (unblock ip s)"
  by (simp add: deleteBlocklist_def Let_def split_def)

lemma isBlocked_step:
  "isBlocked ip (blocklist_step c s) \<longleftrightarrow> (if names_address ip c then is_post c else isBlocked ip s)"
  by (cases c) (auto simp: snd_postBlocklist snd_deleteBlocklist isBlocked_block isBlocked_unblock)

lemma isBlocked_calls:
  "isBlocked ip (fold blocklist_step cs s) \<longleftrightarrow> last_call_blocks cs ip (isBlocked ip s)"
  by (induction cs rule: rev_induct) (simp_all add: last_call_blocks_def isBlocked_step)

text \<open>
  The firewall refuses exactly the blocked addresses. After any sequence of calls that add and
  remove addresses, a request is refused with 403, leaving an \<open>ip-blocked\<close> event, if and only if the last
  call that named its address was an addition (or no call named it and it was blocked before); otherwise
  it passes and nothing changes.
\<close>

theorem blocklist_exact:
  "let s' = fold blocklist_step cs s;
       (v, s'') = blocklistMiddleware now req s'
   in (v \<noteq> Pass \<longleftrightarrow> last_call_blocks cs (getClientIp req) (isBlocked (getClientIp req) s)) \<and>
      s'' = (if v = Pass then s' else logEvent now ''ip-blocked'' req
               [(''reason'', JStr ''Client IP is present in the firewall blocklist'')] s') \<and>
      v \<in> {Pass, Deny 403 ''Access Forbidden - client IP has been blocked by administrator''}"
  by (simp add: blocklistMiddleware_def Let_def isBlocked_calls)

text \<open>
  The blocklist believes the client. The address it tests is the first entry of the client's own
  \<open>X-Forwarded-For\<close> header: a client on a blocked socket address passes by naming any address that is not
  blocked, and is refused if it names a blocked one.
\<close>

theorem blocklist_trusts_header:
  assumes "header req ''x-forwarded-for'' = Some f" "f \<noteq> []"
  shows "fst (blocklistMiddleware now (req\<lparr>remoteAddress := socket\<rparr>) s) = Pass \<longleftrightarrow>
         \<not> isBlocked (js_trim (takeWhile (\<lambda>c. c \<noteq> CHR '','') f)) s"
proof -
  have "header (req\<lparr>remoteAddress := socket\<rparr>) ''x-forwarded-for'' = Some f"
    using assms(1) by (simp add: header_def)
  from getClientIp_forwarded [OF this assms(2)] show ?thesis
    by (simp add: blocklistMiddleware_def Let_def)
qed

definition demo_sec :: adc_sec where
  "demo_sec = adc_an.extend demo_an \<lparr>blockedIps = [JStr ''10.6.6.6'']\<rparr>"

theorem blocklist_trusts_header_witness:
  "fst (blocklistMiddleware 7 (demo_req\<lparr>headers := [], remoteAddress := Some ''10.6.6.6''\<rparr>) demo_sec) \<noteq> Pass \<and>
   fst (blocklistMiddleware 7 (demo_req\<lparr>headers := [(''x-forwarded-for'', ''1.2.3.4'')], remoteAddress := Some ''10.6.6.6''\<rparr>) demo_sec) = Pass"
proof -
  let ?req = "demo_req\<lparr>headers := [(''x-forwarded-for'', ''1.2.3.4'')]\<rparr>"
  have b: "blockedIps demo_sec = [JStr ''10.6.6.6'']" by (simp add: demo_sec_def adc_an.defs)
  have "js_trim (takeWhile (\<lambda>c. c \<noteq> CHR '','') ''1.2.3.4'') = ''1.2.3.4''" by code_simp
  then have "fst (blocklistMiddleware 7 (?req\<lparr>remoteAddress := Some ''10.6.6.6''\<rparr>) demo_sec) = Pass"
    using blocklist_trusts_header [of ?req "''1.2.3.4''" 7 "Some ''10.6.6.6''" demo_sec]
    by (simp add: isBlocked_def b header_def)
  then show ?thesis
    by (simp add: blocklistMiddleware_def isBlocked_def b getClientIp_def header_def)
qed

section \<open>What the header checks decide\<close>

definition contains_nocase :: "string \<Rightarrow> string \<Rightarrow> bool" where
  "contains_nocase w s \<longleftrightarrow> (\<exists>a x b. s = a @ x @ b \<and> js_lower x = w)"

lemma test_lit_iff: "test [Lit w] s \<longleftrightarrow> contains_nocase w s"
proof
  assume "test [Lit w] s"
  then obtain i where "js_lower (take (length w) (drop i s)) = w"
    unfolding test_def list_ex_iff by (auto simp del: upt_Suc simp: js_lower_def split: if_splits)
  moreover have "s = take i s @ take (length w) (drop i s) @ drop (length w) (drop i s)"
    by (simp only: append_take_drop_id)
  ultimately show "contains_nocase w s" unfolding contains_nocase_def by blast
next
  assume "contains_nocase w s"
  then show "test [Lit w] s" using test_literal by (auto simp: contains_nocase_def)
qed

definition scanner_names :: "string list" where
  "scanner_names = [''nikto'', ''sqlmap'', ''nmap'', ''acunetix'', ''w3af'']"

lemma find_SCANNERS: "find (\<lambda>r. test r ua) SCANNERS = None \<longleftrightarrow> (\<forall>w \<in> set scanner_names. \<not> contains_nocase w ua)"
  by (simp add: SCANNERS_def scanner_names_def test_lit_iff)

lemma found_scanner: "find (\<lambda>r. test r ua) SCANNERS = Some r \<Longrightarrow> \<exists>w \<in> set scanner_names. contains_nocase w ua"
  using find_SCANNERS [of ua] by auto

lemma not_in_empty: "w \<in> set scanner_names \<Longrightarrow> \<not> contains_nocase w []"
  by (auto simp: scanner_names_def contains_nocase_def js_lower_def)

text \<open>
  The header check refuses exactly requests without a \<open>Host\<close> (400) and, of the others, those whose
  \<open>User-Agent\<close> contains the name of one of the five scanners in any mix of case (403); what it passes is
  unchanged, what it refuses leaves one event.
\<close>

theorem header_validator_exact:
  "let (v, s') = headerValidator now req s;
       agent = the (or_else (header req ''user-agent'') (Some []))
   in if \<not> truthy_str (header req ''host'')
      then v = Deny 400 ''Bad Request - Missing Host header'' \<and> (\<exists>d. s' = logEvent now ''header-invalid'' req d s)
      else if \<exists>w \<in> set scanner_names. contains_nocase w agent
      then v = Deny 403 ''Forbidden - scanner signature detected'' \<and> (\<exists>d. s' = logEvent now ''scanner-detected'' req d s)
      else v = Pass \<and> s' = s"
  unfolding headerValidator_def Let_def
  by (cases "header req ''user-agent''")
     (auto simp: not_in_empty or_else_def dest!: find_SCANNERS [THEN iffD1] found_scanner split: option.splits)

section \<open>Tokens open the protected routes\<close>

lemma js_split_no: "c \<notin> set s \<Longrightarrow> js_split c s = [s]"
  by (induction s) auto

text \<open>
  A token obtained from the login route opens the protected routes while it is valid, with the
  administrator's identity, and the check changes nothing. The hypotheses are what \<^verbatim>\<open>jsonwebtoken\<close>
  documents: a token verifies under the secret that signed it until it expires, and a compact token
  contains no space.
\<close>

theorem login_token_accepted:
  fixes payload :: js_value
  defines "payload \<equiv> JObj [(''username'', JStr ''admin''), (''role'', JStr ''admin'')]"
  assumes verifies: "jwt_verify jwt later (jwt_sign jwt now payload (jwtSecret jwt) (jwtExpiry jwt)) (jwtSecret jwt) = Inr payload"
    and compact: "CHR '' '' \<notin> set (jwt_sign jwt now payload (jwtSecret jwt) (jwtExpiry jwt))"
    and login: "login jwt now body = Ok token"
    and sent: "header req ''authorization'' = Some (''Bearer '' @ token)"
  shows "jwtMiddleware jwt later req s = (Inr payload, s)"
proof -
  have token: "token = jwt_sign jwt now payload (jwtSecret jwt) (jwtExpiry jwt)"
    using login by (simp add: login_def payload_def split: if_splits)
  have "js_split (CHR '' '') (''Bearer '' @ token) ! 1 = token"
    using compact by (simp add: token js_split_no)
  then show ?thesis
    using verifies sent by (simp add: jwtMiddleware_def Let_def js_startsWith_def token)
qed

definition demo_jwt :: jwt_lib where
  "demo_jwt = \<lparr>
     jwt_verify = (\<lambda>t token secret.
       if token = ''hdr.admin.'' @ secret then Inr (JObj [(''username'', JStr ''admin''), (''role'', JStr ''admin'')])
       else Inl ''invalid signature''),
     jwt_sign = (\<lambda>t payload secret expiry. ''hdr.admin.'' @ secret),
     jwtSecret = ''s3cret'', jwtExpiry = ''1h''\<rparr>"

definition demo_login :: js_value where
  "demo_login = JObj [(''username'', JStr ''admin''), (''password'', JStr ''sentinel'')]"

theorem login_token_accepted_witness:
  "fst (jwtMiddleware demo_jwt 900 (demo_req\<lparr>headers := [(''authorization'', ''Bearer hdr.admin.s3cret'')]\<rparr>) demo_sec) =
     Inr (JObj [(''username'', JStr ''admin''), (''role'', JStr ''admin'')])"
proof -
  have "jwtMiddleware demo_jwt 900 (demo_req\<lparr>headers := [(''authorization'', ''Bearer hdr.admin.s3cret'')]\<rparr>) demo_sec =
     (Inr (JObj [(''username'', JStr ''admin''), (''role'', JStr ''admin'')]), demo_sec)"
    by (rule login_token_accepted [of demo_jwt 900 5 demo_login "''hdr.admin.s3cret''"])
       (simp_all add: demo_jwt_def demo_login_def login_def header_def)
  then show ?thesis by simp
qed

text \<open>
  The error handler hides the gateway's internals. For a server error the reply does not depend on
  the error's message, unless \<open>NODE_ENV\<close> is \<open>development\<close> it carries no stack, and in every case the status it names is
  the error's own, 500 when it has none.
\<close>

theorem error_reply_hides_details:
  "let r = errorHandler env err req;
       status = or_status (err_statusCode err) (or_status (err_status err) 500)
   in er_status r = status \<and> status \<noteq> 0 \<and>
      er_stack r = (if env = Some ''development'' then Some (err_stack err) else None) \<and>
      (if 500 \<le> status then errorHandler env (err\<lparr>err_message := m\<rparr>) req = r
       else er_message r = err_message err)"
  by (simp add: errorHandler_def Let_def or_status_def split: option.split)

text \<open>
  The HTTPS redirect keeps the resource. A plain request for \<open>name\<close> or \<open>name:port\<close> goes to the same
  target on the HTTPS port with 301, whatever its method; a request that came over HTTPS is never
  redirected, so no redirect loops.
\<close>

theorem tls_redirect_target:
  assumes "tls_enabled cfg" "tls_redirect cfg" "CHR '':'' \<notin> set name" "name \<noteq> []"
    and "header req ''host'' = Some (name @ port)" "port = [] \<or> hd port = CHR '':''"
  shows "tlsRedirect cfg u (req\<lparr>protocol := ''http''\<rparr>) =
           Redirect 301 (''https://'' @ name @ (if tls_port cfg = 443 then [] else '':'' @ nat_str (tls_port cfg)) @ u) \<and>
         tlsRedirect cfg u (req\<lparr>protocol := ''https''\<rparr>) = NoRedirect"
proof -
  have "takeWhile (\<lambda>c. c \<noteq> CHR '':'') port = []"
    using assms(6) by (cases port) auto
  with assms(3) have "takeWhile (\<lambda>c. c \<noteq> CHR '':'') (name @ port) = name"
    by (subst takeWhile_append2) auto
  moreover have "header (req\<lparr>protocol := p\<rparr>) ''host'' = header req ''host''" for p
    by (simp add: header_def)
  moreover have "truthy_str (Some (name @ port))" using assms(4) by simp
  ultimately show ?thesis
    by (simp only: tlsRedirect_def assms(1,2,5) hd_js_split Let_def proxy_req.simps option.sel simp_thms if_True if_False)
       simp
qed

theorem tls_redirect_target_witness:
  "tlsRedirect \<lparr>tls_enabled = True, tls_redirect = True, tls_port = 443\<rparr> ''/a''
     (demo_preq\<lparr>headers := [(''host'', ''adc.example:3000'')], protocol := ''http''\<rparr>) = Redirect 301 ''https://adc.example/a''"
  using tls_redirect_target [of "\<lparr>tls_enabled = True, tls_redirect = True, tls_port = 443\<rparr>" "''adc.example''"
      "demo_preq\<lparr>headers := [(''host'', ''adc.example:3000'')]\<rparr>" "'':3000''" "''/a''"]
  by (simp add: header_def)

text \<open>An IPv6 literal in the \<open>Host\<close> header is cut at its first colon: the redirect target has no host.\<close>

lemma tls_redirect_breaks_ipv6:
  assumes "tls_enabled cfg" "tls_redirect cfg" "tls_port cfg = 443" "header req ''host'' = Some ''[::1]:3000''"
    and "protocol req = ''http''"
  shows "tlsRedirect cfg ''/x'' req = Redirect 301 ''https://[/x''"
  using assms by (simp add: tlsRedirect_def)

end
