(* ===== verification/Cache.thy ===== *)
theory Cache
  imports Perimeter
begin

text \<open>
  \<^verbatim>\<open>src/cache/cacheService.js\<close> and \<^verbatim>\<open>src/cache/cacheRoutes.js\<close>: the response cache, its in-memory fallback with
  expiry, its statistics and its API. Redis is a parameter, the record \<open>redis_client\<close> of the commands the
  service sends over an abstract server state; a command that fails gives \<open>Inl\<close> with the error's message.
  Log lines are left out.
\<close>

section \<open>State\<close>

record cache_value =
  cv_status :: nat
  cv_headers :: "(string \<times> js_value) list"
  cv_body :: string

record cache_record =
  cr_value :: cache_value
  cr_expiresAt :: time

record 'r adc_ca = adc_sec +
  memoryCache :: "(string \<times> cache_record) list"
  useMemoryFallback :: bool
  redis :: 'r
  hits :: nat
  misses :: nat
  totalHitLatency :: rat
  totalMissLatency :: rat
  totalBypasses :: nat

record cache_config =
  cache_enabled :: bool
  cache_ttl :: int

record 'r redis_client =
  rc_ready :: "'r \<Rightarrow> bool"
  rc_get :: "time \<Rightarrow> string \<Rightarrow> 'r \<Rightarrow> string + cache_value option"
  rc_set :: "time \<Rightarrow> string \<Rightarrow> cache_value \<Rightarrow> int \<Rightarrow> 'r \<Rightarrow> string + 'r"
  rc_del :: "string list \<Rightarrow> 'r \<Rightarrow> string + 'r"
  rc_keys :: "string \<Rightarrow> 'r \<Rightarrow> string + string list"
  rc_flushdb :: "'r \<Rightarrow> string + 'r"

section \<open>Connection events\<close>

text \<open>
  The constructor, and what the events of the Redis socket do to the fallback flag. The retry strategy
  gives the delay of the next attempt, or gives up after the third.
\<close>

definition init_cache :: "cache_config \<Rightarrow> bool \<Rightarrow> ('r, 'a) adc_ca_scheme \<Rightarrow> ('r, 'a) adc_ca_scheme" where
  "init_cache cfg offline s =
     s\<lparr>memoryCache := [], useMemoryFallback := cache_enabled cfg \<and> offline, hits := 0, misses := 0,
       totalHitLatency := 0, totalMissLatency := 0, totalBypasses := 0\<rparr>"

definition retryStrategy :: "nat \<Rightarrow> ('r, 'a) adc_ca_scheme \<Rightarrow> int option \<times> ('r, 'a) adc_ca_scheme" where
  "retryStrategy tries s =
     (if 3 < tries then (None, s\<lparr>useMemoryFallback := True\<rparr>) else (Some (min (int tries * 100) 2000), s))"

definition on_connect :: "('r, 'a) adc_ca_scheme \<Rightarrow> ('r, 'a) adc_ca_scheme" where
  "on_connect s = s\<lparr>useMemoryFallback := False\<rparr>"

definition on_error :: "('r, 'a) adc_ca_scheme \<Rightarrow> ('r, 'a) adc_ca_scheme" where
  "on_error s = s\<lparr>useMemoryFallback := True\<rparr>"

definition isActive :: "cache_config \<Rightarrow> 'r redis_client \<Rightarrow> ('r, 'a) adc_ca_scheme \<Rightarrow> bool" where
  "isActive cfg rc s \<longleftrightarrow> cache_enabled cfg \<and> (useMemoryFallback s \<or> rc_ready rc (redis s))"

section \<open>Operations\<close>

definition cache_get ::
  "cache_config \<Rightarrow> 'r redis_client \<Rightarrow> time \<Rightarrow> string \<Rightarrow> ('r, 'a) adc_ca_scheme \<Rightarrow>
   cache_value option \<times> ('r, 'a) adc_ca_scheme" where
  "cache_get cfg rc now key s =
     (if \<not> isActive cfg rc s then (None, s)
      else if useMemoryFallback s then
        (case map_of (memoryCache s) key of
           None \<Rightarrow> (None, s)
         | Some r \<Rightarrow>
             if cr_expiresAt r < now then (None, s\<lparr>memoryCache := AList.delete key (memoryCache s)\<rparr>)
             else (Some (cr_value r), s))
      else case rc_get rc now key (redis s) of
          Inl e \<Rightarrow> (None, s)
        | Inr data \<Rightarrow> (data, s))"

definition cache_set ::
  "cache_config \<Rightarrow> 'r redis_client \<Rightarrow> time \<Rightarrow> string \<Rightarrow> cache_value \<Rightarrow> int \<Rightarrow> ('r, 'a) adc_ca_scheme \<Rightarrow>
   ('r, 'a) adc_ca_scheme" where
  "cache_set cfg rc now key value ttl s =
     (if \<not> isActive cfg rc s then s
      else if useMemoryFallback s then
        s\<lparr>memoryCache := AList.update key \<lparr>cr_value = value, cr_expiresAt = now + ttl * 1000\<rparr> (memoryCache s)\<rparr>
      else case rc_set rc now key value ttl (redis s) of
          Inl e \<Rightarrow> s
        | Inr r \<Rightarrow> s\<lparr>redis := r\<rparr>)"

definition cache_delete ::
  "cache_config \<Rightarrow> 'r redis_client \<Rightarrow> string \<Rightarrow> ('r, 'a) adc_ca_scheme \<Rightarrow> ('r, 'a) adc_ca_scheme" where
  "cache_delete cfg rc key s =
     (if \<not> isActive cfg rc s then s
      else if useMemoryFallback s then s\<lparr>memoryCache := AList.delete key (memoryCache s)\<rparr>
      else case rc_del rc [key] (redis s) of
          Inl e \<Rightarrow> s
        | Inr r \<Rightarrow> s\<lparr>redis := r\<rparr>)"

definition flushAll ::
  "cache_config \<Rightarrow> 'r redis_client \<Rightarrow> ('r, 'a) adc_ca_scheme \<Rightarrow> ('r, 'a) adc_ca_scheme" where
  "flushAll cfg rc s =
     (if \<not> isActive cfg rc s then s
      else if useMemoryFallback s then s\<lparr>memoryCache := []\<rparr>
      else case rc_flushdb rc (redis s) of
          Inl e \<Rightarrow> s
        | Inr r \<Rightarrow> s\<lparr>redis := r\<rparr>)"

subsection \<open>Invalidation by pattern\<close>

text \<open>
  In memory mode the pattern becomes the regular expression \<open>^...$\<close> with every \<open>*\<close> replaced by \<open>.*\<close>
  and nothing escaped: a dot of the pattern stands for any character that ends no line, and a question
  mark makes the character before it optional. Patterns with other operators (\<open>foreign\<close>) are left to the
  parameter \<open>regexp\<close>; \<open>None\<close> is the \<open>SyntaxError\<close> of \<open>new RegExp\<close>.
\<close>

datatype glob_atom = One char | Opt char | Star

definition foreign :: "char \<Rightarrow> bool" where
  "foreign c \<longleftrightarrow> c \<in> set ''^$+()[]{}|'' \<or> c = CHR 0x5C"

definition char_ok :: "char \<Rightarrow> char \<Rightarrow> bool" where
  "char_ok p c \<longleftrightarrow> (if p = CHR ''.'' then c \<noteq> CHR 0x0A \<and> c \<noteq> CHR 0x0D else p = c)"

definition glob_atom_of :: "bool \<Rightarrow> char \<Rightarrow> glob_atom" where
  "glob_atom_of optional p = (if p = CHR ''*'' then Star else if optional then Opt p else One p)"

text \<open>A second question mark only makes the first one lazy, which does not change the language.\<close>

definition skip_lazy :: "char \<Rightarrow> string \<Rightarrow> string" where
  "skip_lazy p cs = (if p \<noteq> CHR ''*'' \<and> cs \<noteq> [] \<and> hd cs = CHR ''?'' then tl cs else cs)"

lemma length_skip_lazy [termination_simp]: "length (skip_lazy p cs) \<le> length cs"
  by (simp add: skip_lazy_def)

fun parse_glob :: "string \<Rightarrow> glob_atom list option" where
  "parse_glob [] = Some []"
| "parse_glob [p] = (if p = CHR ''?'' then None else Some [glob_atom_of False p])"
| "parse_glob (p # q # cs) =
     (if p = CHR ''?'' then None
      else if q \<noteq> CHR ''?'' then map_option (Cons (glob_atom_of False p)) (parse_glob (q # cs))
      else map_option (Cons (glob_atom_of True p)) (parse_glob (skip_lazy p cs)))"

fun glob_match :: "glob_atom list \<Rightarrow> string \<Rightarrow> bool" where
  "glob_match [] s \<longleftrightarrow> s = []"
| "glob_match (One p # g) s \<longleftrightarrow> (case s of c # cs \<Rightarrow> char_ok p c \<and> glob_match g cs | [] \<Rightarrow> False)"
| "glob_match (Opt p # g) s \<longleftrightarrow>
     (case s of c # cs \<Rightarrow> char_ok p c \<and> glob_match g cs | [] \<Rightarrow> False) \<or> glob_match g s"
| "glob_match (Star # g) s \<longleftrightarrow>
     list_ex (\<lambda>k. list_all (char_ok (CHR ''.'')) (take k s) \<and> glob_match g (drop k s)) [0..<Suc (length s)]"

definition pattern_test :: "(string \<Rightarrow> (string \<Rightarrow> bool) option) \<Rightarrow> string \<Rightarrow> (string \<Rightarrow> bool) option" where
  "pattern_test regexp pattern =
     (if list_ex foreign pattern then regexp pattern else map_option glob_match (parse_glob pattern))"

definition invalidatePattern ::
  "(string \<Rightarrow> (string \<Rightarrow> bool) option) \<Rightarrow> cache_config \<Rightarrow> 'r redis_client \<Rightarrow> string \<Rightarrow> ('r, 'a) adc_ca_scheme \<Rightarrow>
   nat option \<times> ('r, 'a) adc_ca_scheme" where
  "invalidatePattern regexp cfg rc pattern s =
     (if \<not> isActive cfg rc s then (Some 0, s)
      else if useMemoryFallback s then
        (case pattern_test regexp pattern of
           None \<Rightarrow> (None, s)
         | Some t \<Rightarrow>
             (Some (length (filter (\<lambda>(k, r). t k) (memoryCache s))),
              s\<lparr>memoryCache := filter (\<lambda>(k, r). \<not> t k) (memoryCache s)\<rparr>))
      else case rc_keys rc pattern (redis s) of
          Inl e \<Rightarrow> (Some 0, s)
        | Inr keys \<Rightarrow>
            if keys = [] then (Some 0, s)
            else case rc_del rc keys (redis s) of
                Inl e \<Rightarrow> (Some 0, s)
              | Inr r \<Rightarrow> (Some (length keys), s\<lparr>redis := r\<rparr>))"

section \<open>Statistics\<close>

definition recordHit :: "rat \<Rightarrow> ('r, 'a) adc_ca_scheme \<Rightarrow> ('r, 'a) adc_ca_scheme" where
  "recordHit latency s = s\<lparr>hits := hits s + 1, totalHitLatency := fadd (totalHitLatency s) latency\<rparr>"

definition recordMiss :: "rat \<Rightarrow> ('r, 'a) adc_ca_scheme \<Rightarrow> ('r, 'a) adc_ca_scheme" where
  "recordMiss latency s = s\<lparr>misses := misses s + 1, totalMissLatency := fadd (totalMissLatency s) latency\<rparr>"

definition recordBypass :: "('r, 'a) adc_ca_scheme \<Rightarrow> ('r, 'a) adc_ca_scheme" where
  "recordBypass s = s\<lparr>totalBypasses := totalBypasses s + 1\<rparr>"

record cache_stats =
  cs_enabled :: bool
  cs_hits :: nat
  cs_misses :: nat
  cs_totalRequests :: nat
  cs_bypasses :: nat
  cs_hitRatio :: rat
  cs_averageCacheLatencyMs :: rat
  cs_averageBackendLatencyMs :: rat

text \<open>The \<open>status\<close> field, the state of the Redis socket, is left out.\<close>

definition getStats :: "cache_config \<Rightarrow> ('r, 'a) adc_ca_scheme \<Rightarrow> cache_stats" where
  "getStats cfg s =
     (let totalRequests = hits s + misses s
      in \<lparr>cs_enabled = cache_enabled cfg, cs_hits = hits s, cs_misses = misses s, cs_totalRequests = totalRequests,
          cs_bypasses = totalBypasses s,
          cs_hitRatio = (if 0 < totalRequests then uptime_of (hits s) totalRequests else 0),
          cs_averageCacheLatencyMs = (if 0 < hits s then round2 (fdiv (totalHitLatency s) (of_nat (hits s))) else 0),
          cs_averageBackendLatencyMs = (if 0 < misses s then round2 (fdiv (totalMissLatency s) (of_nat (misses s))) else 0)\<rparr>)"

section \<open>The cache API\<close>

definition deleteCache ::
  "cache_config \<Rightarrow> 'r redis_client \<Rightarrow> ('r, 'a) adc_ca_scheme \<Rightarrow> unit api_reply \<times> ('r, 'a) adc_ca_scheme" where
  "deleteCache cfg rc s =
     (if \<not> isActive cfg rc s then (Refused 503 ''Cache service is currently offline or disabled'', s)
      else (Ok (), flushAll cfg rc s))"

text \<open>A \<open>SyntaxError\<close> rejects the promise of the handler, which nobody handles: no reply is sent (\<open>None\<close>),
  and Node ends the process (\<open>Lifecycle\<close>).\<close>

definition deleteInvalidate ::
  "(string \<Rightarrow> (string \<Rightarrow> bool) option) \<Rightarrow> cache_config \<Rightarrow> 'r redis_client \<Rightarrow> string option \<Rightarrow>
   ('r, 'a) adc_ca_scheme \<Rightarrow> nat api_reply option \<times> ('r, 'a) adc_ca_scheme" where
  "deleteInvalidate regexp cfg rc pattern s =
     (if \<not> truthy_str pattern then (Some (Refused 400 ''Missing required query parameter \"pattern\"''), s)
      else if \<not> isActive cfg rc s then (Some (Refused 503 ''Cache service is currently offline or disabled''), s)
      else case invalidatePattern regexp cfg rc (the pattern) s of
          (None, s) \<Rightarrow> (None, s)
        | (Some purgedCount, s) \<Rightarrow> (Some (Ok purgedCount), s))"

section \<open>The contract of an expiring store\<close>

text \<open>
  What the cache promises its client: \<open>look t k s\<close> is what a lookup of \<open>k\<close> at time \<open>t\<close> returns, \<open>touch\<close>
  what such a lookup leaves behind.
\<close>

datatype 'v cache_op = OpGet string | OpSet string 'v int | OpDelete string

fun run_op ::
  "(time \<Rightarrow> string \<Rightarrow> 's \<Rightarrow> 's) \<Rightarrow> (time \<Rightarrow> string \<Rightarrow> 'v \<Rightarrow> int \<Rightarrow> 's \<Rightarrow> 's) \<Rightarrow> (string \<Rightarrow> 's \<Rightarrow> 's) \<Rightarrow>
   time \<times> 'v cache_op \<Rightarrow> 's \<Rightarrow> 's" where
  "run_op touch put remove (t, OpGet k) s = touch t k s"
| "run_op touch put remove (t, OpSet k v ttl) s = put t k v ttl s"
| "run_op touch put remove (t, OpDelete k) s = remove k s"

text \<open>The specification: the newest write or removal of the key decides (the history is newest first).\<close>

fun visible :: "(time \<times> 'v cache_op) list \<Rightarrow> string \<Rightarrow> time \<Rightarrow> 'v option \<Rightarrow> 'v option" where
  "visible [] k t before = before"
| "visible ((t', OpGet k') # h) k t before = visible h k t before"
| "visible ((t', OpSet k' v ttl) # h) k t before =
     (if k = k' then if t \<le> t' + ttl * 1000 then Some v else None else visible h k t before)"
| "visible ((t', OpDelete k') # h) k t before = (if k = k' then None else visible h k t before)"

locale ttl_store =
  fixes ok :: "'s \<Rightarrow> bool"
    and look :: "time \<Rightarrow> string \<Rightarrow> 's \<Rightarrow> 'v option"
    and touch :: "time \<Rightarrow> string \<Rightarrow> 's \<Rightarrow> 's"
    and put :: "time \<Rightarrow> string \<Rightarrow> 'v \<Rightarrow> int \<Rightarrow> 's \<Rightarrow> 's"
    and remove :: "string \<Rightarrow> 's \<Rightarrow> 's"
  assumes ok_touch: "ok s \<Longrightarrow> ok (touch t k s)"
    and ok_put: "ok s \<Longrightarrow> ok (put t k v ttl s)"
    and ok_drop: "ok s \<Longrightarrow> ok (remove k s)"
    and look_touch: "ok s \<Longrightarrow> t' \<le> t \<Longrightarrow> look t k (touch t' k' s) = look t k s"
    and look_put: "ok s \<Longrightarrow> look t k (put t' k' v ttl s) =
                     (if k = k' then if t \<le> t' + ttl * 1000 then Some v else None else look t k s)"
    and look_drop: "ok s \<Longrightarrow> look t k (remove k' s) = (if k = k' then None else look t k s)"
begin

lemma ok_run: "ok s \<Longrightarrow> ok (foldr (run_op touch put remove) h s)"
proof (induction h)
  case (Cons e h)
  then show ?case by (cases e; cases "snd e") (auto simp: ok_touch ok_put ok_drop)
qed simp

lemma look_run:
  "ok s \<Longrightarrow> \<forall>e \<in> set h. fst e \<le> t \<Longrightarrow> look t k (foldr (run_op touch put remove) h s) = visible h k t (look t k s)"
proof (induction h)
  case (Cons e h)
  have "ok (foldr (run_op touch put remove) h s)" using Cons.prems(1) by (rule ok_run)
  with Cons show ?case by (cases e; cases "snd e") (auto simp: look_touch look_put look_drop)
qed simp

end

abbreviation memory_mode :: "cache_config \<Rightarrow> ('r, 'a) adc_ca_scheme \<Rightarrow> bool" where
  "memory_mode cfg s \<equiv> cache_enabled cfg \<and> useMemoryFallback s"

lemma isActive_memory [simp]: "memory_mode cfg s \<Longrightarrow> isActive cfg rc s"
  by (simp add: isActive_def)

lemma look_memory:
  "memory_mode cfg s \<Longrightarrow> fst (cache_get cfg rc now k s) =
     (case map_of (memoryCache s) k of Some r \<Rightarrow> if cr_expiresAt r < now then None else Some (cr_value r) | None \<Rightarrow> None)"
  by (simp add: cache_get_def split: option.split)

lemma touch_memory:
  "memory_mode cfg s \<Longrightarrow> map_of (memoryCache (snd (cache_get cfg rc now k s))) k' =
     (case map_of (memoryCache s) k' of Some r \<Rightarrow> if k = k' \<and> cr_expiresAt r < now then None else Some r | None \<Rightarrow> None)"
  by (auto simp: cache_get_def delete_conv' split: option.split)

lemma mode_after_get: "memory_mode cfg s \<Longrightarrow> useMemoryFallback (snd (cache_get cfg rc now k s))"
  by (auto simp: cache_get_def split: option.split)

interpretation memory: ttl_store "\<lambda>s. memory_mode cfg s" "\<lambda>t k s. fst (cache_get cfg rc t k s)"
    "\<lambda>t k s. snd (cache_get cfg rc t k s)" "\<lambda>t k v ttl s. cache_set cfg rc t k v ttl s" "\<lambda>k s. cache_delete cfg rc k s"
  for cfg rc
  by unfold_locales
     (auto simp: cache_set_def cache_delete_def look_memory update_conv' delete_conv' mode_after_get touch_memory split: option.split)

text \<open>
  C15: the in-memory cache is an expiring map. After any history of lookups, stores and removals made up
  to time \<open>now\<close> (newest first), a lookup finds exactly the value of the newest store of that key if it was
  not removed since and its lifetime has not passed, and otherwise nothing (what was there before, if the
  history never wrote the key).
\<close>

theorem cache_lookup_spec:
  assumes "cache_enabled cfg" "useMemoryFallback s" "\<forall>e \<in> set h. fst e \<le> now"
  shows "fst (cache_get cfg rc now key
           (foldr (run_op (\<lambda>t k s. snd (cache_get cfg rc t k s)) (\<lambda>t k v ttl s. cache_set cfg rc t k v ttl s)
                          (\<lambda>k s. cache_delete cfg rc k s)) h s)) =
         visible h key now (fst (cache_get cfg rc now key s))"
  using assms by (intro memory.look_run) auto

definition demo_redis :: "nat redis_client" where
  "demo_redis = \<lparr>rc_ready = (\<lambda>r. False), rc_get = (\<lambda>t k r. Inl ''closed''), rc_set = (\<lambda>t k v ttl r. Inl ''closed''),
     rc_del = (\<lambda>ks r. Inl ''closed''), rc_keys = (\<lambda>p r. Inl ''closed''), rc_flushdb = (\<lambda>r. Inl ''closed'')\<rparr>"

definition demo_ca :: "nat adc_ca" where
  "demo_ca = adc_sec.extend demo_sec
     \<lparr>memoryCache = [], useMemoryFallback = True, redis = 0, hits = 0, misses = 0,
      totalHitLatency = 0, totalMissLatency = 0, totalBypasses = 0\<rparr>"

definition demo_ca_cfg :: cache_config where
  "demo_ca_cfg = \<lparr>cache_enabled = True, cache_ttl = 60\<rparr>"

lemma demo_ca_fields:
  "useMemoryFallback demo_ca" "memoryCache demo_ca = []" "cache_enabled demo_ca_cfg" "cache_ttl demo_ca_cfg = 60"
  by (simp_all add: demo_ca_def demo_ca_cfg_def adc_sec.defs)

definition demo_page :: cache_value where
  "demo_page = \<lparr>cv_status = 200, cv_headers = [], cv_body = ''hello''\<rparr>"

theorem cache_lookup_spec_witness:
  "fst (cache_get demo_ca_cfg demo_redis 61000 ''k''
     (cache_set demo_ca_cfg demo_redis 1000 ''k'' demo_page 60 demo_ca)) = Some demo_page \<and>
   fst (cache_get demo_ca_cfg demo_redis 61001 ''k''
     (cache_set demo_ca_cfg demo_redis 1000 ''k'' demo_page 60 demo_ca)) = None"
  using cache_lookup_spec [OF demo_ca_fields(3) demo_ca_fields(1), of "[(1000, OpSet ''k'' demo_page 60)]" 61000 demo_redis "''k''"]
    cache_lookup_spec [OF demo_ca_fields(3) demo_ca_fields(1), of "[(1000, OpSet ''k'' demo_page 60)]" 61001 demo_redis "''k''"]
  by simp

section \<open>What a pattern purges\<close>

definition plain :: "string \<Rightarrow> bool" where
  "plain s \<longleftrightarrow> list_all (\<lambda>c. \<not> foreign c \<and> c \<noteq> CHR ''.'' \<and> c \<noteq> CHR ''?'' \<and> c \<noteq> CHR ''*'') s"

lemma plain_simps [simp]:
  "plain []"
  "plain (c # s) \<longleftrightarrow> \<not> foreign c \<and> c \<noteq> CHR ''.'' \<and> c \<noteq> CHR ''?'' \<and> c \<noteq> CHR ''*'' \<and> plain s"
  by (auto simp: plain_def)

lemma plain_not_foreign: "plain s \<Longrightarrow> \<not> list_ex foreign s"
  by (induction s) auto

lemma map_of_filter_key: "P k \<Longrightarrow> map_of (filter (\<lambda>(k, r). P k) xs) k = map_of xs k"
  by (induction xs) auto

lemma parse_glob_plain:
  "plain a \<Longrightarrow> b = [] \<or> hd b \<noteq> CHR ''?'' \<Longrightarrow> parse_glob (a @ b) = map_option (\<lambda>g. map One a @ g) (parse_glob b)"
proof (induction a)
  case (Cons c a)
  then show ?case
    by (cases a; cases b) (auto simp: glob_atom_of_def option.map_comp comp_def)
qed (cases "parse_glob b", auto)

lemma glob_match_plain:
  "plain a \<Longrightarrow> glob_match (map One a @ g) s \<longleftrightarrow> (\<exists>r. s = a @ r \<and> glob_match g r)"
proof (induction a arbitrary: s)
  case (Cons c a)
  then show ?case by (cases s) (auto simp: char_ok_def)
qed simp

definition one_line :: "string \<Rightarrow> bool" where
  "one_line s \<longleftrightarrow> CHR 0x0A \<notin> set s \<and> CHR 0x0D \<notin> set s"

lemma glob_star_end: "one_line s \<Longrightarrow> glob_match [Star] s"
  by (auto simp: list_ex_iff list_all_iff char_ok_def one_line_def intro!: bexI [of _ "length s"] simp del: upt_Suc)

lemma pattern_prefix:
  assumes "plain pre" "one_line key"
  shows "\<exists>t. pattern_test regexp (pre @ ''*'') = Some t \<and> (t key \<longleftrightarrow> js_startsWith key pre)"
proof -
  have "\<not> foreign CHR ''*''" by (simp add: foreign_def)
  with plain_not_foreign [OF assms(1)] have "pattern_test regexp (pre @ ''*'') = Some (glob_match (map One pre @ [Star]))"
    using parse_glob_plain [OF assms(1), of "''*''"] by (simp add: pattern_test_def glob_atom_of_def)
  moreover have "glob_match (map One pre @ [Star]) key \<longleftrightarrow> (\<exists>r. key = pre @ r)"
    using assms glob_match_plain [OF assms(1)] glob_star_end by (auto simp: one_line_def)
  moreover have "js_startsWith key pre \<longleftrightarrow> (\<exists>r. key = pre @ r)"
    by (metis js_startsWith_def append_eq_conv_conj append_take_drop_id)
  ultimately show ?thesis by blast
qed

text \<open>
  A trailing \<open>*\<close> purges by prefix. For a pattern of ordinary characters followed by \<open>*\<close>, exactly the
  entries whose keys start with them are removed, everything else is kept in place, and the reported
  number is the number removed.
\<close>

theorem invalidate_prefix:
  assumes "cache_enabled cfg" "useMemoryFallback s" "plain pre" "\<forall>e \<in> set (memoryCache s). one_line (fst e)"
  shows "invalidatePattern regexp cfg rc (pre @ ''*'') s =
           (Some (length (memoryCache s) - length (filter (\<lambda>(k, r). \<not> js_startsWith k pre) (memoryCache s))),
            s\<lparr>memoryCache := filter (\<lambda>(k, r). \<not> js_startsWith k pre) (memoryCache s)\<rparr>)"
proof -
  from pattern_prefix [OF assms(3), of "[]"] obtain t where t: "pattern_test regexp (pre @ ''*'') = Some t"
    by (auto simp: one_line_def)
  have "t (fst e) \<longleftrightarrow> js_startsWith (fst e) pre" if "e \<in> set (memoryCache s)" for e
    using pattern_prefix [OF assms(3), of "fst e" regexp] assms(4) that t by auto
  then have f: "filter (\<lambda>(k, r). \<not> t k) (memoryCache s) = filter (\<lambda>(k, r). \<not> js_startsWith k pre) (memoryCache s)"
    by (intro filter_cong) auto
  have "length (filter (\<lambda>(k, r). t k) (memoryCache s)) =
        length (memoryCache s) - length (filter (\<lambda>(k, r). \<not> t k) (memoryCache s))"
    using sum_length_filter_compl [of "\<lambda>(k, r). t k" "memoryCache s"] by (simp add: case_prod_unfold)
  with f t assms(1,2) show ?thesis by (simp add: invalidatePattern_def)
qed

definition demo_full :: "nat adc_ca" where
  "demo_full = demo_ca\<lparr>memoryCache :=
     [(''sentinel:cache:/a'', \<lparr>cr_value = demo_page, cr_expiresAt = 90000\<rparr>),
      (''sentinel:cache:/b?x=1'', \<lparr>cr_value = demo_page, cr_expiresAt = 90000\<rparr>)]\<rparr>"

theorem invalidate_prefix_witness:
  "fst (invalidatePattern (\<lambda>p. None) demo_ca_cfg demo_redis ''sentinel:cache:/a*'' demo_full) = Some 1"
proof -
  have "plain ''sentinel:cache:/a''" by code_simp
  then show ?thesis
    using invalidate_prefix [of demo_ca_cfg demo_full "''sentinel:cache:/a''" "\<lambda>p. None" demo_redis]
    by (simp add: demo_full_def demo_ca_fields one_line_def js_startsWith_def)
qed

text \<open>
  Naming a key with a query string does not purge it. The characters of the pattern are not escaped,
  so in \<open>...?...\<close> the question mark is an operator: an invalidation with exactly the cached key
  \<open>a?b\<close> as its pattern leaves that entry in the cache, and reports that nothing matched it.
\<close>

theorem invalidate_misses_query_key:
  assumes "cache_enabled cfg" "useMemoryFallback s" "plain (a @ [c])" "plain b"
    and "map_of (memoryCache s) (a @ c # ''?'' @ b) = Some r"
  shows "map_of (memoryCache (snd (invalidatePattern regexp cfg rc (a @ c # ''?'' @ b) s))) (a @ c # ''?'' @ b) = Some r \<and>
         fst (invalidatePattern regexp cfg rc (a @ c # ''?'' @ b) s) \<noteq> None"
proof -
  let ?key = "a @ c # ''?'' @ b"
  have ac: "plain a" "plain [c]" using assms(3) by (auto simp: plain_def)
  have b: "parse_glob b = Some (map One b)" using parse_glob_plain [OF assms(4), of "[]"] by simp
  have "skip_lazy c b = b" using assms(4) by (cases b) (auto simp: skip_lazy_def)
  then have "parse_glob (c # ''?'' @ b) = Some (Opt c # map One b)" using ac(2) by (simp add: glob_atom_of_def b)
  then have p: "parse_glob ?key = Some (map One a @ Opt c # map One b)"
    using parse_glob_plain [OF ac(1), of "c # ''?'' @ b"] ac(2) by simp
  have "\<not> list_ex foreign ?key" using plain_not_foreign [OF assms(3)] plain_not_foreign [OF assms(4)]
    by (simp add: foreign_def)
  with p have t: "pattern_test regexp ?key = Some (glob_match (map One a @ Opt c # map One b))"
    by (simp add: pattern_test_def)
  have "\<not> glob_match (Opt c # map One b) (c # ''?'' @ b)"
    using ac(2) glob_match_plain [OF assms(4), of "[]"] by auto
  then have "\<not> glob_match (map One a @ Opt c # map One b) ?key"
    using glob_match_plain [OF ac(1)] by simp
  then have "map_of (filter (\<lambda>(k, r). \<not> glob_match (map One a @ Opt c # map One b) k) (memoryCache s)) ?key = Some r"
    by (subst map_of_filter_key) (use assms(5) in simp_all)
  with t assms(1,2) show ?thesis by (simp add: invalidatePattern_def)
qed

theorem invalidate_misses_query_key_witness:
  "map_of (memoryCache (snd (invalidatePattern (\<lambda>p. None) demo_ca_cfg demo_redis ''sentinel:cache:/b?x=1'' demo_full)))
     ''sentinel:cache:/b?x=1'' = Some \<lparr>cr_value = demo_page, cr_expiresAt = 90000\<rparr>"
proof -
  have "plain (''sentinel:cache:/'' @ ''b'')" "plain ''x=1''" by (code_simp, code_simp)
  then show ?thesis
    using invalidate_misses_query_key [of demo_ca_cfg demo_full "''sentinel:cache:/''" "CHR ''b''" "''x=1''"]
    by (simp add: demo_full_def demo_ca_fields)
qed

text \<open>
  The published statistics are consistent: requests are hits plus misses, and the hit ratio is a
  percentage, rounding included.
\<close>

theorem cache_stats_bounded:
  "let st = getStats cfg s
   in cs_totalRequests st = cs_hits st + cs_misses st \<and> 0 \<le> cs_hitRatio st \<and> cs_hitRatio st \<le> 100"
  by (simp add: getStats_def Let_def uptime_of_bounds)

end
