(* ===== verification/CacheHttp.thy ===== *)
theory CacheHttp
  imports Cache
begin

text \<open>
  \<^verbatim>\<open>src/cache/cacheMiddleware.js\<close>: which requests the cache answers, what it replays, what it stores when the
  response ends, and what the text conversion does to a body. Bodies are byte strings, one \<open>char\<close> a byte;
  the cached text is kept as its UTF-8 bytes, the bytes \<open>res.send\<close> writes. The \<open>catch\<close> branch, reached only
  when Node refuses to set a header, is not modelled.
\<close>

section \<open>Buffer.toString('utf8') and back\<close>

text \<open>
  The ranges of the bytes that may follow a lead byte. An ill-formed sequence becomes U+FFFD, one for each
  longest prefix of a sequence, as Node's decoder does.
\<close>

definition follow :: "nat \<Rightarrow> (nat \<times> nat) list option" where
  "follow b =
     (if b < 128 then Some []
      else if 194 \<le> b \<and> b < 224 then Some [(128, 191)]
      else if b = 224 then Some [(160, 191), (128, 191)]
      else if b = 237 then Some [(128, 159), (128, 191)]
      else if 225 \<le> b \<and> b < 240 then Some [(128, 191), (128, 191)]
      else if b = 240 then Some [(144, 191), (128, 191), (128, 191)]
      else if 241 \<le> b \<and> b < 244 then Some [(128, 191), (128, 191), (128, 191)]
      else if b = 244 then Some [(128, 143), (128, 191), (128, 191)]
      else None)"

fun prefix_len :: "(nat \<times> nat) list \<Rightarrow> string \<Rightarrow> nat" where
  "prefix_len ((lo, hi) # rs) (c # cs) = (if lo \<le> of_char c \<and> of_char c \<le> hi then Suc (prefix_len rs cs) else 0)"
| "prefix_len _ _ = 0"

definition replacement :: string where
  "replacement = [CHR 0xEF, CHR 0xBF, CHR 0xBD]"

function utf8_text :: "string \<Rightarrow> string" where
  "utf8_text [] = []"
| "utf8_text (b # bs) =
     (case follow (of_char b) of
        None \<Rightarrow> replacement @ utf8_text bs
      | Some rs \<Rightarrow>
          let n = prefix_len rs bs
          in (if n = length rs then b # take n bs else replacement) @ utf8_text (drop n bs))"
  by pat_completeness auto
termination by (relation "measure length") auto

text \<open>Well-formedness: a sequence of complete characters.\<close>

inductive utf8_ok :: "string \<Rightarrow> bool" where
  ok_nil: "utf8_ok []"
| ok_char: "follow (of_char b) = Some rs \<Longrightarrow> list_all2 (\<lambda>(lo, hi) c. lo \<le> of_char c \<and> of_char c \<le> hi) rs cs \<Longrightarrow>
            utf8_ok bs \<Longrightarrow> utf8_ok (b # cs @ bs)"

section \<open>The middleware\<close>

definition setHeader :: "string \<Rightarrow> js_value \<Rightarrow> (string \<times> js_value) list \<Rightarrow> (string \<times> js_value) list" where
  "setHeader name v hs = AList.update (js_lower name) v hs"

fun apply_cached :: "(string \<times> js_value) list \<Rightarrow> (string \<times> js_value) list \<Rightarrow> (string \<times> js_value) list" where
  "apply_cached [] hs = hs"
| "apply_cached ((name, v) # cs) hs =
     apply_cached cs
       (if js_lower name \<noteq> ''connection'' \<and> js_lower name \<noteq> ''content-length'' then setHeader name v hs else hs)"

text \<open>
  \<open>hs\<close> are the headers already set on the response. \<open>CacheHit\<close> carries the reply, \<open>CacheMiss\<close> the key and
  the start time that the interceptor of \<open>res.end\<close> closes over; on a hit \<open>X-Cache-Latency\<close> is the number
  without its unit.
\<close>

datatype cache_decision =
    CacheBypass "(string \<times> js_value) list"
  | CacheHit nat "(string \<times> js_value) list" string
  | CacheMiss string int "(string \<times> js_value) list"

definition hasNoCacheHeader :: "'q request_scheme \<Rightarrow> bool" where
  "hasNoCacheHeader req \<longleftrightarrow>
     header req ''cache-control'' = Some ''no-cache'' \<or> header req ''pragma'' = Some ''no-cache''"

text \<open>Express always sets \<open>originalUrl\<close>.\<close>

definition url_of :: "'q request_scheme \<Rightarrow> string" where
  "url_of req = (case originalUrl req of Some u \<Rightarrow> u | None \<Rightarrow> [])"

definition cacheMiddleware ::
  "cache_config \<Rightarrow> 'r redis_client \<Rightarrow> time \<Rightarrow> int \<Rightarrow> int \<Rightarrow> 'q request_scheme \<Rightarrow> (string \<times> js_value) list \<Rightarrow>
   ('r, 'a) adc_ca_scheme \<Rightarrow> cache_decision \<times> ('r, 'a) adc_ca_scheme" where
  "cacheMiddleware cfg rc now ns ns' req hs s =
     (let isGet = (http_method req = Some ''GET'');
          isApi = js_startsWith (url_of req) ''/api''
      in if \<not> isActive cfg rc s \<or> \<not> isGet \<or> isApi \<or> hasNoCacheHeader req then
           (CacheBypass (setHeader ''x-cache'' (JStr ''BYPASS'') hs), recordBypass s)
         else
           let cacheKey = ''sentinel:cache:'' @ url_of req
           in case cache_get cfg rc now cacheKey s of
                (Some cached, s) \<Rightarrow>
                  let latency = elapsedMs ns' ns;
                      s = recordHit latency s;
                      hs = apply_cached (cv_headers cached) hs;
                      hs = setHeader ''x-cache'' (JStr ''HIT'') hs;
                      hs = setHeader ''X-Cache-Latency'' (JNum latency) hs
                  in (CacheHit (or_status (Some (cv_status cached)) 200) hs (cv_body cached), s)
              | (None, s) \<Rightarrow> (CacheMiss cacheKey ns (setHeader ''x-cache'' (JStr ''MISS'') hs), s))"

text \<open>The replaced \<open>res.end\<close>: \<open>chunks\<close> are the chunks of all writes, \<open>hs\<close> the final headers of the response.\<close>

definition cacheEnd ::
  "cache_config \<Rightarrow> 'r redis_client \<Rightarrow> time \<Rightarrow> int \<Rightarrow> string \<Rightarrow> int \<Rightarrow> nat \<Rightarrow> (string \<times> js_value) list \<Rightarrow> string list \<Rightarrow>
   ('r, 'a) adc_ca_scheme \<Rightarrow> ('r, 'a) adc_ca_scheme" where
  "cacheEnd cfg rc now ns' cacheKey ns statusCode hs chunks s =
     (let responseBody = utf8_text (concat chunks);
          s = (if statusCode = 200 then
                 cache_set cfg rc now cacheKey
                   \<lparr>cv_status = statusCode, cv_headers = AList.delete ''x-cache'' hs, cv_body = responseBody\<rparr>
                   (cache_ttl cfg) s
               else s);
          latency = elapsedMs ns' ns
      in recordMiss latency s)"

section \<open>One exchange\<close>

text \<open>
  The middleware around the rest of the chain: \<open>origin\<close> turns the response headers set so far into the
  answer of the routes or of a backend, a status, final headers and chunks. The client sees status,
  headers and bytes; the flag tells whether the rest of the chain was run.
\<close>

record clocks =
  ck_lookup :: time
  ck_end :: time
  ck_start :: int
  ck_found :: int
  ck_done :: int

type_synonym origin = "(string \<times> js_value) list \<Rightarrow> nat \<times> (string \<times> js_value) list \<times> string list"

definition exchange ::
  "cache_config \<Rightarrow> 'r redis_client \<Rightarrow> clocks \<Rightarrow> 'q request_scheme \<Rightarrow> (string \<times> js_value) list \<Rightarrow> origin \<Rightarrow>
   ('r, 'a) adc_ca_scheme \<Rightarrow> (nat \<times> (string \<times> js_value) list \<times> string \<times> bool) \<times> ('r, 'a) adc_ca_scheme" where
  "exchange cfg rc ck req hs origin s =
     (case cacheMiddleware cfg rc (ck_lookup ck) (ck_start ck) (ck_found ck) req hs s of
        (CacheBypass hs, s) \<Rightarrow> (case origin hs of (st, hs, chunks) \<Rightarrow> ((st, hs, concat chunks, True), s))
      | (CacheHit st hs body, s) \<Rightarrow> ((st, hs, body, False), s)
      | (CacheMiss key ns hs, s) \<Rightarrow>
          (case origin hs of (st, hs, chunks) \<Rightarrow>
             ((st, hs, concat chunks, True), cacheEnd cfg rc (ck_end ck) (ck_done ck) key ns st hs chunks s)))"

section \<open>Bodies\<close>

lemma prefix_len_le: "prefix_len rs bs \<le> length rs \<and> prefix_len rs bs \<le> length bs"
  by (induction rs bs rule: prefix_len.induct) auto

lemma prefix_len_full:
  "prefix_len rs bs = length rs \<Longrightarrow>
   list_all2 (\<lambda>(lo, hi) c. lo \<le> of_char c \<and> of_char c \<le> hi) rs (take (length rs) bs)"
  by (induction rs bs rule: prefix_len.induct) (auto split: if_splits)

lemma prefix_len_append:
  "list_all2 (\<lambda>(lo, hi) c. lo \<le> of_char c \<and> of_char c \<le> hi) rs cs \<Longrightarrow> prefix_len rs (cs @ bs) = length cs"
  by (induction rs cs rule: list_all2_induct) auto

lemma utf8_text_ok: "utf8_ok s \<Longrightarrow> utf8_text s = s"
proof (induction rule: utf8_ok.induct)
  case (ok_char b rs cs bs)
  then show ?case by (simp add: prefix_len_append list_all2_lengthD)
qed simp

lemma ok_append: "utf8_ok a \<Longrightarrow> utf8_ok b \<Longrightarrow> utf8_ok (a @ b)"
  by (induction rule: utf8_ok.induct) (auto intro: utf8_ok.intros)

lemma ok_replacement: "utf8_ok replacement"
  unfolding replacement_def
  using ok_char [of "CHR 0xEF" "[(128, 191), (128, 191)]" "[CHR 0xBF, CHR 0xBD]" "[]"]
  by (simp add: follow_def ok_nil)

lemma ok_utf8_text: "utf8_ok (utf8_text s)"
proof (induction s rule: utf8_text.induct)
  case (2 b bs)
  show ?case
  proof (cases "follow (of_char b)")
    case None
    with 2 show ?thesis by (simp add: ok_append ok_replacement)
  next
    case (Some rs)
    show ?thesis
    proof (cases "prefix_len rs bs = length rs")
      case True
      have "utf8_ok (utf8_text (drop (length rs) bs))" using 2(2) [OF Some refl] True by simp
      with ok_char [OF Some prefix_len_full [OF True]]
      have "utf8_ok (b # take (length rs) bs @ utf8_text (drop (length rs) bs))" .
      with Some True show ?thesis by (simp add: Let_def)
    next
      case False
      with Some 2(2) show ?thesis by (simp add: Let_def ok_append ok_replacement)
    qed
  qed
qed (simp add: ok_nil)

text \<open>
  What the cache does to a body. The text it keeps is always well-formed, and it is the original
  body exactly when the body is well-formed UTF-8: every other body (an image, a compressed response)
  is replayed changed.
\<close>

theorem cached_body_exact:
  "utf8_ok (utf8_text body) \<and> (utf8_text body = body \<longleftrightarrow> utf8_ok body)"
  using ok_utf8_text [of body] utf8_text_ok [of body] by metis

lemma png_not_ok: "\<not> utf8_ok (CHR 0x89 # s)"
proof
  assume "utf8_ok (CHR 0x89 # s)"
  then obtain rs where "follow (of_char CHR 0x89) = Some rs" by cases auto
  then show False by (simp add: follow_def)
qed

section \<open>Which requests the cache answers\<close>

definition cacheable :: "'q request_scheme \<Rightarrow> bool" where
  "cacheable req \<longleftrightarrow>
     http_method req = Some ''GET'' \<and> \<not> js_startsWith (url_of req) ''/api'' \<and> \<not> hasNoCacheHeader req"

definition cache_key :: "'q request_scheme \<Rightarrow> string" where
  "cache_key req = ''sentinel:cache:'' @ url_of req"

text \<open>What an exchange does when the cache has nothing to say, and what an answer of the chain leaves behind.\<close>

definition stored :: "cache_config \<Rightarrow> 'r redis_client \<Rightarrow> clocks \<Rightarrow> 'q request_scheme \<Rightarrow> nat \<Rightarrow>
    (string \<times> js_value) list \<Rightarrow> string list \<Rightarrow> ('r, 'a) adc_ca_scheme \<Rightarrow> ('r, 'a) adc_ca_scheme" where
  "stored cfg rc ck req st hs chunks s =
     (if st = 200 then cache_set cfg rc (ck_end ck) (cache_key req)
        \<lparr>cv_status = st, cv_headers = AList.delete ''x-cache'' hs, cv_body = utf8_text (concat chunks)\<rparr> (cache_ttl cfg) s
      else s)"

lemma exchange_bypass:
  assumes "\<not> isActive cfg rc s \<or> \<not> cacheable req"
    and "origin (setHeader ''x-cache'' (JStr ''BYPASS'') hs) = (st, hs', chunks)"
  shows "exchange cfg rc ck req hs origin s = ((st, hs', concat chunks, True), recordBypass s)"
  using assms by (auto simp: exchange_def cacheMiddleware_def cacheable_def Let_def)

lemma exchange_miss:
  assumes "isActive cfg rc s" "cacheable req" "cache_get cfg rc (ck_lookup ck) (cache_key req) s = (None, s')"
    and "origin (setHeader ''x-cache'' (JStr ''MISS'') hs) = (st, hs', chunks)"
  shows "exchange cfg rc ck req hs origin s =
    ((st, hs', concat chunks, True),
     recordMiss (elapsedMs (ck_done ck) (ck_start ck)) (stored cfg rc ck req st hs' chunks s'))"
  using assms by (simp add: exchange_def cacheMiddleware_def cacheEnd_def cacheable_def cache_key_def stored_def Let_def)

lemma exchange_hit:
  assumes "isActive cfg rc s" "cacheable req" "cache_get cfg rc (ck_lookup ck) (cache_key req) s = (Some v, s')"
  shows "exchange cfg rc ck req hs origin s =
    ((or_status (Some (cv_status v)) 200,
      setHeader ''X-Cache-Latency'' (JNum (elapsedMs (ck_found ck) (ck_start ck)))
        (setHeader ''x-cache'' (JStr ''HIT'') (apply_cached (cv_headers v) hs)),
      cv_body v, False), recordHit (elapsedMs (ck_found ck) (ck_start ck)) s')"
  using assms by (simp add: exchange_def cacheMiddleware_def cacheable_def cache_key_def Let_def)

text \<open>Counting touches no entry, and no operation touches the counters.\<close>

lemma counting_frame [adc_frame, simp]:
  "memoryCache (recordHit l s) = memoryCache s" "useMemoryFallback (recordHit l s) = useMemoryFallback s"
  "memoryCache (recordMiss l s) = memoryCache s" "useMemoryFallback (recordMiss l s) = useMemoryFallback s"
  "memoryCache (recordBypass s) = memoryCache s" "useMemoryFallback (recordBypass s) = useMemoryFallback s"
  by (simp_all add: recordHit_def recordMiss_def recordBypass_def)

definition counted :: "('r, 'a) adc_ca_scheme \<Rightarrow> nat" where
  "counted s = hits s + misses s + totalBypasses s"

lemma counted_simps [simp]:
  "counted (recordHit l s) = Suc (counted s)"
  "counted (recordMiss l s) = Suc (counted s)"
  "counted (recordBypass s) = Suc (counted s)"
  "counted (cache_set cfg rc t k v ttl s) = counted s"
  by (simp_all add: counted_def recordHit_def recordMiss_def recordBypass_def cache_set_def split: sum.split)

lemma counted_get: "cache_get cfg rc t k s = (v, s') \<Longrightarrow> counted s' = counted s"
  by (auto simp: counted_def cache_get_def split: if_splits option.splits sum.splits)

lemma exchange_cases:
  obtains (bypass) st hs' chunks where "origin (setHeader ''x-cache'' (JStr ''BYPASS'') hs) = (st, hs', chunks)"
      "\<not> isActive cfg rc s \<or> \<not> cacheable req"
  | (miss) st hs' chunks s' where "origin (setHeader ''x-cache'' (JStr ''MISS'') hs) = (st, hs', chunks)"
      "isActive cfg rc s" "cacheable req" "cache_get cfg rc (ck_lookup ck) (cache_key req) s = (None, s')"
  | (hit) v s' where "isActive cfg rc s" "cacheable req" "cache_get cfg rc (ck_lookup ck) (cache_key req) s = (Some v, s')"
  by (metis prod.exhaust option.exhaust)

text \<open>
  Every request is counted exactly once, as a hit, a miss or a bypass, whatever the store does and
  whatever the answer of the chain is; and the counter a request moves says how it was answered: a hit
  never runs the rest of the chain, a miss and a bypass always do.
\<close>

theorem cache_counts_every_request:
  "let (r, s') = exchange cfg rc ck req hs origin s
   in counted s' = counted s + 1 \<and> (snd (snd (snd r)) \<longleftrightarrow> hits s' = hits s)"
proof -
  have get: "hits s' = hits s" if "cache_get cfg rc t k s = (v, s')" for t k v s'
    using that by (auto simp: cache_get_def split: if_splits option.splits sum.splits)
  show ?thesis
  proof (cases rule: exchange_cases [where origin = origin and hs = hs and cfg = cfg and rc = rc and s = s and req = req and ck = ck])
    case (bypass st hs' chunks)
    then show ?thesis by (simp add: exchange_bypass) (simp add: recordBypass_def)
  next
    case (miss st hs' chunks s')
    moreover have "hits (recordMiss l (stored cfg rc ck req st hs' chunks s')) = hits s'" for l
      by (simp add: recordMiss_def stored_def cache_set_def split: sum.split)
    ultimately show ?thesis by (simp add: exchange_miss stored_def counted_get get)
  next
    case (hit v s')
    then show ?thesis by (simp add: exchange_hit counted_get) (simp add: recordHit_def get)
  qed
qed

text \<open>
  The cache keeps its hands off what it must not answer. A request that is not a \<open>GET\<close>, that goes to
  \<open>/api\<close>, that asks for no cache, or that comes while the cache is off, gets the chain's own answer, byte
  for byte, with \<open>x-cache: BYPASS\<close> announced to the chain, and stores nothing.
\<close>

theorem cache_bypass_untouched:
  assumes "\<not> isActive cfg rc s \<or> http_method req \<noteq> Some ''GET'' \<or> js_startsWith (url_of req) ''/api'' \<or>
           header req ''cache-control'' = Some ''no-cache'' \<or> header req ''pragma'' = Some ''no-cache''"
  shows "exchange cfg rc ck req hs origin s =
           (case origin (setHeader ''x-cache'' (JStr ''BYPASS'') hs) of
              (st, hs', chunks) \<Rightarrow> ((st, hs', concat chunks, True), s\<lparr>totalBypasses := totalBypasses s + 1\<rparr>))"
proof -
  have "\<not> isActive cfg rc s \<or> \<not> cacheable req" using assms by (auto simp: cacheable_def hasNoCacheHeader_def)
  from exchange_bypass [OF this] show ?thesis by (simp add: recordBypass_def split: prod.split)
qed

definition demo_ck :: "time \<Rightarrow> clocks" where
  "demo_ck t = \<lparr>ck_lookup = t, ck_end = t + 20, ck_start = 1000000 * t, ck_found = 1000000 * t + 500000,
                 ck_done = 1000000 * (t + 20)\<rparr>"

definition demo_origin :: origin where
  "demo_origin hs = (200, (''x-correlation-id'', JStr ''first'') # hs, [''hel'', ''lo''])"

definition demo_get :: request where
  "demo_get = demo_req\<lparr>headers := [], http_method := Some ''GET'', originalUrl := Some ''/a''\<rparr>"

definition demo_post :: request where
  "demo_post = demo_get\<lparr>http_method := Some ''POST''\<rparr>"

theorem cache_bypass_untouched_witness:
  "fst (exchange demo_ca_cfg demo_redis (demo_ck 5) demo_post [] demo_origin demo_ca) =
     (200, [(''x-correlation-id'', JStr ''first''), (''x-cache'', JStr ''BYPASS'')], ''hello'', True)"
proof -
  have "setHeader ''x-cache'' (JStr ''BYPASS'') [] = [(''x-cache'', JStr ''BYPASS'')]" by code_simp
  then show ?thesis
    using cache_bypass_untouched [of demo_ca_cfg demo_redis demo_ca demo_post "demo_ck 5" "[]" demo_origin]
    by (simp add: demo_post_def demo_get_def demo_origin_def)
qed

section \<open>Replay\<close>

lemma memory_get_hit:
  assumes "memory_mode cfg s" "fst (cache_get cfg rc t k s) = Some v"
  shows "cache_get cfg rc t k s = (Some v, s)"
  using assms by (auto simp: cache_get_def split: option.splits if_splits)

lemma look_recordMiss: "memory_mode cfg s \<Longrightarrow> fst (cache_get cfg rc t k (recordMiss l s)) = fst (cache_get cfg rc t k s)"
  by (simp add: look_memory)


lemma demo_get_facts: "cacheable demo_get" "url_of demo_get = ''/a''" "http_method demo_get = Some ''GET''"
  by (simp_all add: demo_get_def cacheable_def url_of_def hasNoCacheHeader_def header_def js_startsWith_def)


section \<open>The replayed headers\<close>

lemma map_of_setHeader: "map_of (setHeader n v hs) k = (if k = js_lower n then Some v else map_of hs k)"
  by (simp add: setHeader_def update_conv')

definition lower_keys :: "(string \<times> js_value) list \<Rightarrow> bool" where
  "lower_keys hs \<longleftrightarrow> distinct (map fst hs) \<and> (\<forall>(n, v) \<in> set hs. js_lower n = n)"

lemma map_of_apply_cached:
  "lower_keys cs \<Longrightarrow> map_of (apply_cached cs hs) n =
     (if n = ''connection'' \<or> n = ''content-length'' then map_of hs n
      else case map_of cs n of Some v \<Rightarrow> Some v | None \<Rightarrow> map_of hs n)"
proof (induction cs arbitrary: hs)
  case (Cons c cs)
  obtain m v where c: "c = (m, v)" by (cases c)
  have m: "js_lower m = m" and cs: "lower_keys cs" "map_of cs m = None"
    using Cons.prems by (auto simp: lower_keys_def c map_of_eq_None_iff)
  show ?case using Cons.IH [OF cs(1)] cs(2) by (auto simp: c m map_of_setHeader split: option.split)
qed simp

text \<open>
  A hit replays the headers of the first answer. On a hit every cached header but \<open>connection\<close> and
  \<open>content-length\<close> overrides what the gateway had set for the second request, and the cache then writes
  only \<open>x-cache\<close> and its latency: the second client receives the first one's \<open>x-correlation-id\<close>,
  \<open>x-request-id\<close>, rate-limit headers and \<open>set-cookie\<close>.
\<close>

theorem cache_hit_replays_headers:
  assumes "isActive cfg rc s" "cacheable req"
    and "cache_get cfg rc (ck_lookup ck) (cache_key req) s = (Some v, s')"
    and "lower_keys (cv_headers v)"
    and "n \<notin> {''connection'', ''content-length'', ''x-cache'', ''x-cache-latency''}"
  shows "map_of (fst (snd (fst (exchange cfg rc ck req hs origin s)))) n =
           (case map_of (cv_headers v) n of Some h \<Rightarrow> Some h | None \<Rightarrow> map_of hs n)"
proof -
  have "js_lower ''x-cache'' = ''x-cache''" "js_lower ''X-Cache-Latency'' = ''x-cache-latency''"
    by (code_simp, code_simp)
  with assms(4,5) exchange_hit [OF assms(1-3), of hs origin] show ?thesis
    by (simp add: map_of_setHeader map_of_apply_cached)
qed

definition demo_hit :: "nat adc_ca" where
  "demo_hit = demo_ca\<lparr>memoryCache := [(''sentinel:cache:/a'',
     \<lparr>cr_value = \<lparr>cv_status = 200, cv_headers = [(''x-correlation-id'', JStr ''first'')], cv_body = ''hello''\<rparr>,
      cr_expiresAt = 90000\<rparr>)]\<rparr>"

theorem cache_hit_replays_headers_witness:
  "map_of (fst (snd (fst (exchange demo_ca_cfg demo_redis (demo_ck 9000) demo_get
     [(''x-correlation-id'', JStr ''second'')] demo_origin demo_hit)))) ''x-correlation-id'' = Some (JStr ''first'')"
proof -
  have "cache_get demo_ca_cfg demo_redis (ck_lookup (demo_ck 9000)) (cache_key demo_get) demo_hit =
      (Some \<lparr>cv_status = 200, cv_headers = [(''x-correlation-id'', JStr ''first'')], cv_body = ''hello''\<rparr>, demo_hit)"
    by (simp add: cache_get_def isActive_def demo_hit_def demo_ca_fields demo_ck_def cache_key_def demo_get_facts)
  moreover have "lower_keys [(''x-correlation-id'', JStr ''first'')]" by code_simp
  moreover have "isActive demo_ca_cfg demo_redis demo_hit" by (simp add: isActive_def demo_hit_def demo_ca_fields)
  ultimately show ?thesis
    using cache_hit_replays_headers [of demo_ca_cfg demo_redis demo_hit demo_get "demo_ck 9000" _ demo_hit
        "''x-correlation-id''" "[(''x-correlation-id'', JStr ''second'')]" demo_origin]
    by (simp add: demo_get_facts)
qed

text \<open>
  The cache fails open. When Redis answers every command with an error and no fallback is active,
  no request is refused or delayed by the cache: each is answered by the chain itself and no entry is
  served or kept.
\<close>

theorem cache_fail_open:
  assumes "\<not> useMemoryFallback s" "\<And>t k. \<exists>e. rc_get rc t k (redis s) = Inl e"
    and "\<And>t k v ttl. \<exists>e. rc_set rc t k v ttl (redis s) = Inl e"
  shows "let mark = (if isActive cfg rc s \<and> cacheable req then ''MISS'' else ''BYPASS'');
             (st, hs', chunks) = origin (setHeader ''x-cache'' (JStr mark) hs);
             (r, s') = exchange cfg rc ck req hs origin s
         in r = (st, hs', concat chunks, True) \<and> redis s' = redis s \<and> memoryCache s' = memoryCache s"
proof (cases rule: exchange_cases [where origin = origin and hs = hs and cfg = cfg and rc = rc and s = s and req = req and ck = ck])
  case (bypass st hs' chunks)
  then have "\<not> (isActive cfg rc s \<and> cacheable req)" by blast
  with bypass(1) show ?thesis
    by (simp only: if_False) (simp add: exchange_bypass bypass recordBypass_def)
next
  case (miss st hs' chunks s')
  have [simp]: "s' = s" using miss(2,4) assms(1) by (auto simp: cache_get_def split: sum.splits)
  have "cache_set cfg rc t k v ttl s = s" for t k v ttl
    using assms(1) assms(3) [of t k v ttl] by (auto simp: cache_set_def)
  with miss show ?thesis by (simp add: exchange_miss stored_def) (simp add: recordMiss_def)
next
  case (hit v s')
  with assms(1) assms(2) [of "ck_lookup ck" "cache_key req"] show ?thesis by (auto simp: cache_get_def)
qed

definition broken_redis :: "nat redis_client" where
  "broken_redis = demo_redis\<lparr>rc_ready := (\<lambda>r. True)\<rparr>"

theorem cache_fail_open_witness:
  "fst (exchange demo_ca_cfg broken_redis (demo_ck 5) demo_get [] demo_origin (demo_ca\<lparr>useMemoryFallback := False\<rparr>)) =
     (200, [(''x-correlation-id'', JStr ''first''), (''x-cache'', JStr ''MISS'')], ''hello'', True)"
proof -
  have "setHeader ''x-cache'' (JStr ''MISS'') [] = [(''x-cache'', JStr ''MISS'')]" by code_simp
  then show ?thesis
    using cache_fail_open [where s = "demo_ca\<lparr>useMemoryFallback := False\<rparr>" and rc = broken_redis and origin = demo_origin and
        cfg = demo_ca_cfg and req = demo_get and hs = "[]" and ck = "demo_ck 5"]
    by (simp add: broken_redis_def demo_redis_def isActive_def demo_ca_fields demo_get_facts demo_origin_def Let_def
             split: prod.splits)
qed

end
