(* ===== verification/Gateway.thy ===== *)
theory Gateway
  imports CacheHttp
begin

text \<open>
  How \<^verbatim>\<open>src/app.js\<close> composes the components: the chain of filters every request passes before the cache, and the
  API routes with the token check in front of them, including the read-only handlers of
  \<^verbatim>\<open>src/health/healthRoutes.js\<close>, \<^verbatim>\<open>src/metrics/metricsRoutes.js\<close>, \<^verbatim>\<open>src/resilience/resilienceRoutes.js\<close>,
  \<^verbatim>\<open>src/api/adminRoutes.js\<close>, \<^verbatim>\<open>src/api/statusRoutes.js\<close> and \<^verbatim>\<open>src/cache/cacheRoutes.js\<close>. The packages
  \<^verbatim>\<open>helmet\<close> and \<^verbatim>\<open>cors\<close> only add response headers, except that \<^verbatim>\<open>cors\<close> may answer a request itself (a
  preflight): which ones is the parameter \<open>cors_answers\<close>.
\<close>

section \<open>The filters in front of the cache\<close>

record gw_config =
  g_tls :: tls_config
  g_rl :: rl_config
  g_an :: an_config
  g_cb :: cb_config
  g_cache :: cache_config

datatype edge =
    Redirected string
  | Refuse nat string
  | Preflight
  | Limited rl_headers int
  | Admitted rl_headers

text \<open>
  The firewall checks, in order. When the firewall runs, no body parser has run yet: the request has no
  \<open>body\<close>.
\<close>

definition edge_filters ::
  "gw_config \<Rightarrow> ('q proxy_req_scheme \<Rightarrow> bool) \<Rightarrow> time \<Rightarrow> redis_call \<Rightarrow> 'q proxy_req_scheme \<Rightarrow> js_value \<Rightarrow>
   'a adc_sec_scheme \<Rightarrow> edge \<times> 'a adc_sec_scheme" where
  "edge_filters cfg cors_answers now limiter_redis req query s =
     (case tlsRedirect (g_tls cfg) (url_of req) req of
        Redirect code target \<Rightarrow> (Redirected target, s)
      | NoRedirect \<Rightarrow>
        (case blocklistMiddleware now req s of
           (Deny code msg, s) \<Rightarrow> (Refuse code msg, s)
         | (Pass, s) \<Rightarrow>
           (case headerValidator now req s of
              (Deny code msg, s) \<Rightarrow> (Refuse code msg, s)
            | (Pass, s) \<Rightarrow>
              if cors_answers req then (Preflight, s)
              else (case rateLimit (g_rl cfg) now limiter_redis req s of
                 (RlTooMany hs retryAfter, s) \<Rightarrow> (Limited hs retryAfter, s)
               | (RlNext hs, s) \<Rightarrow>
                 let s = anomalyMiddleware (g_an cfg) now req s
                 in (case wafMiddleware now req query JUndefined s of
                    (Deny code msg, s) \<Rightarrow> (Refuse code msg, s)
                  | (Pass, s) \<Rightarrow> (Admitted hs, s))))))"

section \<open>The remaining API handlers\<close>

definition getAlgorithmRoute :: "'a adc_rt_scheme \<Rightarrow> (string \<times> string list) api_reply" where
  "getAlgorithmRoute s = Ok (algorithm s, getAvailableAlgorithms)"

definition getBackendsRoute :: "'a adc_scheme \<Rightarrow> backend list api_reply" where
  "getBackendsRoute s = Ok (pool s)"

definition getHealthRoute :: "'a adc_hs_scheme \<Rightarrow> (overall \<times> backend_health option list) api_reply" where
  "getHealthRoute s = Ok (getGatewayOverallHealth s, getAllBackendHealth s)"

definition getHealthById :: "backend_id \<Rightarrow> 'a adc_hs_scheme \<Rightarrow> backend_health api_reply" where
  "getHealthById i s =
     (case getBackendHealth i s of Some h \<Rightarrow> Ok h | None \<Rightarrow> Refused 404 (not_found i))"

definition getMetricsRoute :: "time \<Rightarrow> 'a adc_mt_scheme \<Rightarrow> metrics option list api_reply \<times> 'a adc_mt_scheme" where
  "getMetricsRoute now s = (case getAllMetrics now s of (ms, s) \<Rightarrow> (Ok ms, s))"

definition getMetricsById :: "time \<Rightarrow> backend_id \<Rightarrow> 'a adc_mt_scheme \<Rightarrow> metrics api_reply \<times> 'a adc_mt_scheme" where
  "getMetricsById now i s =
     (case getBackendMetrics now i s of (Some m, s) \<Rightarrow> (Ok m, s) | (None, s) \<Rightarrow> (Refused 404 (not_found i), s))"

definition getCircuitBreakers :: "cb_config \<Rightarrow> time \<Rightarrow> 'a adc_cb_scheme \<Rightarrow> cb_view list api_reply" where
  "getCircuitBreakers cfg now s = Ok (getAllStates cfg now s)"

definition postReset ::
  "cb_config \<Rightarrow> time \<Rightarrow> string option \<Rightarrow> 'a adc_cb_scheme \<Rightarrow> cb_view list api_reply \<times> 'a adc_cb_scheme" where
  "postReset cfg now backendId s =
     (if \<not> truthy_str backendId then (Refused 400 ''Missing required parameter \"backendId\"'', s)
      else let s = reset_breaker now (the backendId) s in (Ok (getAllStates cfg now s), s))"

definition postResetAll ::
  "cb_config \<Rightarrow> time \<Rightarrow> 'a adc_cb_scheme \<Rightarrow> cb_view list api_reply \<times> 'a adc_cb_scheme" where
  "postResetAll cfg now s = (let s = reset_all cfg now s in (Ok (getAllStates cfg now s), s))"

definition getCacheStats :: "cache_config \<Rightarrow> ('r, 'a) adc_ca_scheme \<Rightarrow> cache_stats api_reply" where
  "getCacheStats cfg s = Ok (getStats cfg s)"

section \<open>The API\<close>

text \<open>One constructor per route, with what the handler reads of the request.\<close>

datatype api_call =
    GetStatus | GetPing
  | GetHealth | GetHealthOf backend_id | PostOverride backend_id js_value
  | GetMetrics | GetMetricsOf backend_id
  | GetAlgorithm | PutAlgorithm "string option" | GetBackends | PutWeight backend_id "string option"
  | PostDrain backend_id "string option" "string option" | PostUndrain backend_id
  | GetCacheStats | DeleteCache | DeleteInvalidate "string option"
  | Login js_value | GetEvents | DeleteEvents | GetBlocklist | PostBlock js_value | DeleteBlock string
  | GetAnomalies | PostAnomalies js_value | DeleteAnomalies
  | GetBreakers | PostResetOne "string option" | PostResets

text \<open>The routes mounted before, or without, a token check.\<close>

fun open_route :: "api_call \<Rightarrow> bool" where
  "open_route GetStatus = True"
| "open_route GetPing = True"
| "open_route GetHealth = True"
| "open_route (GetHealthOf _) = True"
| "open_route GetMetrics = True"
| "open_route (GetMetricsOf _) = True"
| "open_route GetCacheStats = True"
| "open_route (Login _) = True"
| "open_route _ = False"

fun code_of :: "'v api_reply \<Rightarrow> nat" where
  "code_of (Ok _) = 200"
| "code_of (Refused n _) = n"

record api_env =
  env_node :: "string option"
  env_stack :: string
  env_regexp :: "string \<Rightarrow> (string \<Rightarrow> bool) option"

text \<open>The status code of the answer (\<open>None\<close>: none is ever sent) and the new state.\<close>

fun run_route ::
  "gw_config \<Rightarrow> jwt_lib \<Rightarrow> 'r redis_client \<Rightarrow> api_env \<Rightarrow> time \<Rightarrow> 'q request_scheme \<Rightarrow> api_call \<Rightarrow>
   ('r, 'a) adc_ca_scheme \<Rightarrow> nat option \<times> ('r, 'a) adc_ca_scheme" where
  "run_route cfg jwt rc e now req GetStatus s = (case getStatus (g_cb cfg) now s of (_, s) \<Rightarrow> (Some 200, s))"
| "run_route cfg jwt rc e now req GetPing s = (Some 200, s)"
| "run_route cfg jwt rc e now req GetHealth s = (Some (code_of (getHealthRoute s)), s)"
| "run_route cfg jwt rc e now req (GetHealthOf i) s = (Some (code_of (getHealthById i s)), s)"
| "run_route cfg jwt rc e now req (PostOverride i v) s =
     (case overrideHealth i v s of (Inl n, s) \<Rightarrow> (Some n, s) | (Inr _, s) \<Rightarrow> (Some 200, s))"
| "run_route cfg jwt rc e now req GetMetrics s = (case getMetricsRoute now s of (r, s) \<Rightarrow> (Some (code_of r), s))"
| "run_route cfg jwt rc e now req (GetMetricsOf i) s = (case getMetricsById now i s of (r, s) \<Rightarrow> (Some (code_of r), s))"
| "run_route cfg jwt rc e now req GetAlgorithm s = (Some (code_of (getAlgorithmRoute s)), s)"
| "run_route cfg jwt rc e now req (PutAlgorithm a) s = (case putAlgorithm a s of (r, s) \<Rightarrow> (Some (code_of r), s))"
| "run_route cfg jwt rc e now req GetBackends s = (Some (code_of (getBackendsRoute s)), s)"
| "run_route cfg jwt rc e now req (PutWeight i w) s = (case putWeight i w s of (r, s) \<Rightarrow> (Some (code_of r), s))"
| "run_route cfg jwt rc e now req (PostDrain i b q) s = (case postDrain now i b q s of (r, s) \<Rightarrow> (Some (code_of r), s))"
| "run_route cfg jwt rc e now req (PostUndrain i) s = (case postUndrain i s of (r, s) \<Rightarrow> (Some (code_of r), s))"
| "run_route cfg jwt rc e now req GetCacheStats s = (Some (code_of (getCacheStats (g_cache cfg) s)), s)"
| "run_route cfg jwt rc e now req DeleteCache s = (case deleteCache (g_cache cfg) rc s of (r, s) \<Rightarrow> (Some (code_of r), s))"
| "run_route cfg jwt rc e now req (DeleteInvalidate p) s =
     (case deleteInvalidate (env_regexp e) (g_cache cfg) rc p s of (r, s) \<Rightarrow> (map_option code_of r, s))"
| "run_route cfg jwt rc e now req (Login b) s = (Some (code_of (login jwt now b)), s)"
| "run_route cfg jwt rc e now req GetEvents s = (Some (code_of (getEvents s)), s)"
| "run_route cfg jwt rc e now req DeleteEvents s = (case deleteEvents s of (r, s) \<Rightarrow> (Some (code_of r), s))"
| "run_route cfg jwt rc e now req GetBlocklist s = (Some (code_of (getBlocklist s)), s)"
| "run_route cfg jwt rc e now req (PostBlock b) s = (case postBlocklist b s of (r, s) \<Rightarrow> (Some (code_of r), s))"
| "run_route cfg jwt rc e now req (DeleteBlock ip) s = (case deleteBlocklist ip s of (r, s) \<Rightarrow> (Some (code_of r), s))"
| "run_route cfg jwt rc e now req GetAnomalies s =
     (case getAnomaliesRoute (env_node e) (env_stack e) req s of (r, s) \<Rightarrow> (Some (er_status r), s))"
| "run_route cfg jwt rc e now req (PostAnomalies b) s =
     (case postAnomaliesConfig (env_node e) (env_stack e) req b s of (r, s) \<Rightarrow> (Some (er_status r), s))"
| "run_route cfg jwt rc e now req DeleteAnomalies s =
     (case deleteAnomalies (env_node e) (env_stack e) req s of (r, s) \<Rightarrow> (Some (er_status r), s))"
| "run_route cfg jwt rc e now req GetBreakers s = (Some (code_of (getCircuitBreakers (g_cb cfg) now s)), s)"
| "run_route cfg jwt rc e now req (PostResetOne b) s = (case postReset (g_cb cfg) now b s of (r, s) \<Rightarrow> (Some (code_of r), s))"
| "run_route cfg jwt rc e now req PostResets s = (case postResetAll (g_cb cfg) now s of (r, s) \<Rightarrow> (Some (code_of r), s))"

definition api ::
  "gw_config \<Rightarrow> jwt_lib \<Rightarrow> 'r redis_client \<Rightarrow> api_env \<Rightarrow> time \<Rightarrow> 'q request_scheme \<Rightarrow> api_call \<Rightarrow>
   ('r, 'a) adc_ca_scheme \<Rightarrow> nat option \<times> ('r, 'a) adc_ca_scheme" where
  "api cfg jwt rc e now req call s =
     (if open_route call then run_route cfg jwt rc e now req call s
      else case jwtMiddleware jwt now req s of
          (Inl message, s) \<Rightarrow> (Some 401, s)
        | (Inr user, s) \<Rightarrow> run_route cfg jwt rc e now req call s)"

section \<open>Who may change the gateway\<close>

definition valid_token :: "jwt_lib \<Rightarrow> time \<Rightarrow> 'q request_scheme \<Rightarrow> bool" where
  "valid_token jwt now req \<longleftrightarrow>
     (case header req ''authorization'' of
        Some a \<Rightarrow> js_startsWith a ''Bearer '' \<and>
                  (case jwt_verify jwt now (js_split (CHR '' '') a ! 1) (jwtSecret jwt) of Inr _ \<Rightarrow> True | Inl _ \<Rightarrow> False)
      | None \<Rightarrow> False)"

lemma jwtMiddleware_refuses:
  "\<not> valid_token jwt now req \<Longrightarrow>
   \<exists>m d. jwtMiddleware jwt now req s = (Inl m, logEvent now ''unauthorized-jwt'' req d s)"
  by (auto simp: jwtMiddleware_def valid_token_def Let_def split: option.splits sum.splits)

text \<open>What an administrator controls.\<close>

definition admin_view :: "('r, 'a) adc_ca_scheme \<Rightarrow> _" where
  "admin_view s =
     (algorithm s, map (\<lambda>b. (bid b, url b, weight b, adminDisabled b)) (pool s), blockedIps s, memoryCache s, redis s,
      penalizedIps s, autoEnforce s, zThreshold s)"

lemma admin_view_simps [simp]:
  "admin_view (logEvent now t req d s) = admin_view s"
  "admin_view (put_breaker i br s) = admin_view s"
  "admin_view (s\<lparr>emitted := em\<rparr>) = admin_view s"
  "admin_view (s\<lparr>history := h\<rparr>) = admin_view s"
  by (simp_all add: admin_view_def logEvent_def put_breaker_def)

lemma admin_view_set_health [simp]: "admin_view (update_backend i (set_health h st) s) = admin_view s"
proof -
  have "map (\<lambda>b. (bid b, url b, weight b, adminDisabled b)) (modify_first P (set_health h st) bs) =
        map (\<lambda>b. (bid b, url b, weight b, adminDisabled b)) bs" for P bs
    by (rule map_modify_first) (simp add: set_health_def)
  then show ?thesis by (simp add: admin_view_def update_backend_def)
qed

lemma admin_view_transition [simp]: "admin_view (transitionTo now i br st r s) = admin_view s"
  by (simp add: transitionTo_def Let_def split: circuit_state.split)

lemma admin_view_canExecute [simp]: "admin_view (snd (canExecute cfg now i s)) = admin_view s"
  by (auto simp: canExecute_def getBreaker_def update_breaker_def Let_def split: option.split circuit_state.split)

lemma admin_view_filter [simp]: "admin_view (snd (filter_healthy cfg now is s)) = admin_view s"
proof (induction "is" arbitrary: s)
  case (Cons i "is")
  have "admin_view (snd (filter_healthy cfg now is (snd (canExecute cfg now i s)))) = admin_view s"
    using Cons.IH by simp
  with Cons.IH show ?case by (simp add: Let_def split_def split: option.split)
qed simp

lemma admin_view_metrics [simp]: "admin_view (snd (getBackendMetrics now i s)) = admin_view s"
  by (auto simp: getBackendMetrics_def cleanup_def put_history_def Let_def split: option.split)

lemma admin_view_metrics_loop [simp]: "admin_view (snd (getAllMetrics_loop now is s)) = admin_view s"
  by (induction "is" arbitrary: s) (simp_all add: Let_def split_def)

lemma open_route_harmless:
  "open_route call \<Longrightarrow> admin_view (snd (run_route cfg jwt rc e now req call s)) = admin_view s"
  by (cases call)
     (simp_all add: getStatus_def getHealthyBackends_def getMetricsRoute_def getMetricsById_def getAllMetrics_def
        split_def Let_def split: option.split)

text \<open>
  C3: nobody changes the gateway without a token. A request whose \<open>Authorization\<close> header holds no token
  that verifies changes neither algorithm, weights, disabled backends, blocklist, cache contents, penalties nor
  anomaly settings, on any route of the API; and every protected route answers it with 401 and does
  nothing but write one audit event.
\<close>

theorem admin_needs_token:
  assumes "\<not> valid_token jwt now req"
  shows "admin_view (snd (api cfg jwt rc e now req call s)) = admin_view s \<and>
         (open_route call \<or>
          (\<exists>d. api cfg jwt rc e now req call s = (Some 401, logEvent now ''unauthorized-jwt'' req d s)))"
proof (cases "open_route call")
  case True
  then show ?thesis by (simp add: api_def open_route_harmless)
next
  case False
  obtain m d where "jwtMiddleware jwt now req s = (Inl m, logEvent now ''unauthorized-jwt'' req d s)"
    using jwtMiddleware_refuses [OF assms] by blast
  with False show ?thesis by (auto simp: api_def)
qed

definition demo_gw :: gw_config where
  "demo_gw = \<lparr>g_tls = \<lparr>tls_enabled = False, tls_redirect = False, tls_port = 8443\<rparr>, g_rl = demo_rl_cfg,
     g_an = demo_an_cfg, g_cb = demo_cfg, g_cache = demo_ca_cfg\<rparr>"

definition demo_api_env :: api_env where
  "demo_api_env = \<lparr>env_node = None, env_stack = [], env_regexp = (\<lambda>p. None)\<rparr>"

theorem admin_needs_token_witness:
  "admin_view (snd (api demo_gw demo_jwt demo_redis demo_api_env 9 demo_get (PutWeight ''backend-1'' (Some ''0'')) demo_ca)) =
     admin_view demo_ca \<and>
   fst (api demo_gw demo_jwt demo_redis demo_api_env 9 demo_get (PutWeight ''backend-1'' (Some ''0'')) demo_ca) = Some 401"
proof -
  have "\<not> valid_token demo_jwt 9 demo_get" by (simp add: valid_token_def demo_get_def header_def)
  from admin_needs_token [OF this, of demo_gw demo_redis demo_api_env "PutWeight ''backend-1'' (Some ''0'')" demo_ca]
  show ?thesis by auto
qed

section \<open>What the filters admit\<close>

definition passes_firewall :: "'q request_scheme \<Rightarrow> 'a adc_sec_scheme \<Rightarrow> bool" where
  "passes_firewall req s \<longleftrightarrow>
     \<not> isBlocked (getClientIp req) s \<and> truthy_str (header req ''host'') \<and>
     (case header req ''user-agent'' of
        Some a \<Rightarrow> \<forall>w \<in> set scanner_names. \<not> contains_nocase w a
      | None \<Rightarrow> True)"

lemma headerValidator_pass:
  "fst (headerValidator now req s) = Pass \<longleftrightarrow>
     truthy_str (header req ''host'') \<and>
     (case header req ''user-agent'' of Some a \<Rightarrow> \<forall>w \<in> set scanner_names. \<not> contains_nocase w a | None \<Rightarrow> True)"
  unfolding headerValidator_def
  by (auto simp: not_in_empty find_SCANNERS dest: found_scanner split: option.splits)

lemma verdict_state:
  "blocklistMiddleware now req t = (Pass, t') \<Longrightarrow> t' = t"
  "headerValidator now req s = (Pass, s') \<Longrightarrow> s' = s"
  "wafMiddleware now req q b s = (Pass, s') \<Longrightarrow> s' = s"
  by (auto simp: blocklistMiddleware_def headerValidator_def wafMiddleware_def Let_def split: if_splits option.splits)

lemma waf_pass: "fst (wafMiddleware now req query JUndefined s) = Pass \<longleftrightarrow>
    \<not> malicious (req_path req) \<and> (\<forall>str \<in> set (strings_of query). \<not> malicious str)"
  by (auto simp: wafMiddleware_def scan_None scan_string_None split: option.splits dest!: scan_Some scan_string_Some)

lemma edge_admits_parts:
  "(\<exists>hs. fst (edge_filters cfg cors_answers now lr req query s) = Admitted hs) \<longleftrightarrow>
   tlsRedirect (g_tls cfg) (url_of req) req = NoRedirect \<and> passes_firewall req s \<and> \<not> cors_answers req \<and>
   (\<exists>hs. fst (rateLimit (g_rl cfg) now lr req s) = RlNext hs) \<and>
   (\<forall>str \<in> set (req_path req # strings_of query). \<not> malicious str)"
proof (cases "tlsRedirect (g_tls cfg) (url_of req) req")
  case NoRedirect
  obtain v1 s1 where b: "blocklistMiddleware now req s = (v1, s1)" by (cases "blocklistMiddleware now req s")
  show ?thesis
  proof (cases "v1 = Pass")
    case False
    then have "isBlocked (getClientIp req) s" using b by (auto simp: blocklistMiddleware_def Let_def split: if_splits)
    with False b NoRedirect show ?thesis
      by (cases v1) (simp_all add: edge_filters_def passes_firewall_def)
  next
    case True
    then have s1: "s1 = s" "\<not> isBlocked (getClientIp req) s"
      using b verdict_state(1) [of now req s s1] by (auto simp: blocklistMiddleware_def Let_def split: if_splits)
    obtain v2 s2 where h: "headerValidator now req s = (v2, s2)" by (cases "headerValidator now req s")
    show ?thesis
    proof (cases "v2 = Pass")
      case False
      with h headerValidator_pass [of now req s] have "\<not> passes_firewall req s" by (auto simp: passes_firewall_def)
      with False b h s1 True NoRedirect show ?thesis by (cases v2) (simp_all add: edge_filters_def)
    next
      case True2: True
      have fw: "passes_firewall req s" "s2 = s"
        using h True2 s1 headerValidator_pass [of now req s] verdict_state(2) [of now req s s2]
        by (auto simp: passes_firewall_def)
      obtain v3 s3 where r: "rateLimit (g_rl cfg) now lr req s = (v3, s3)" by (cases "rateLimit (g_rl cfg) now lr req s")
      obtain v4 s4 where w: "wafMiddleware now req query JUndefined (anomalyMiddleware (g_an cfg) now req s3) = (v4, s4)"
        by (metis prod.exhaust)
      have "v4 = Pass \<longleftrightarrow> \<not> malicious (req_path req) \<and> (\<forall>str \<in> set (strings_of query). \<not> malicious str)"
        using waf_pass [of now req query "anomalyMiddleware (g_an cfg) now req s3"] w by simp
      then show ?thesis
        using NoRedirect b h r w s1(1) fw True True2
        by (cases v3; cases v4) (auto simp: edge_filters_def Let_def)
    qed
  qed
qed (simp add: edge_filters_def)

text \<open>
  C8: the gateway lets a request through to the cache and the routes exactly when it is not redirected to
  HTTPS, its address is not blocked, it names a host and no scanner, it is no preflight, its address has a
  token left, and neither path nor query carries a signature.
\<close>

theorem edge_admits_exactly:
  "(\<exists>hs. fst (edge_filters cfg cors_answers now lr req query s) = Admitted hs) \<longleftrightarrow>
   tlsRedirect (g_tls cfg) (url_of req) req = NoRedirect \<and> passes_firewall req s \<and> \<not> cors_answers req \<and>
   (\<exists>hs. fst (rateLimit (g_rl cfg) now lr req s) = RlNext hs) \<and>
   \<not> list_ex malicious (req_path req # strings_of query)"
  unfolding edge_admits_parts list_ex_iff by blast

text \<open>
  Bodies are never inspected. The body parser runs after the firewall, so the gateway lets requests
  pass whose body carries a signature that the firewall, given that body, refuses with 403.
\<close>

theorem waf_misses_bodies:
  assumes "fst (edge_filters cfg cors_answers now lr req query s) = Admitted hs"
    and "truthy body" "str \<in> set (strings_of body)" "malicious str"
  shows "\<exists>msg. fst (wafMiddleware now req query body s) = Deny 403 msg"
proof -
  have "\<not> malicious (req_path req)" "\<forall>str \<in> set (strings_of query). \<not> malicious str"
    using edge_admits_parts [of cfg cors_answers now lr req query s] assms(1) by auto
  moreover have "scanPayload body \<noteq> None" using assms(3,4) by (auto simp: scan_None)
  ultimately show ?thesis
    using assms(2) by (auto simp: wafMiddleware_def scan_None scan_string_None split: option.split dest!: scan_Some scan_string_Some)
qed

definition demo_edge_req :: proxy_req where
  "demo_edge_req = demo_preq\<lparr>headers := [(''host'', ''adc'')], remoteAddress := Some ''10.1.1.1'', req_path := ''/a'',
     originalUrl := Some ''/a''\<rparr>"

lemma rateLimit_new_client:
  assumes "map_of (penalizedIps s) (getClientIp req) = None" "map_of (memoryBuckets s) (getClientIp req) = None"
    and "1 \<le> rl_maxRequests cfg"
  shows "\<exists>hs. fst (rateLimit cfg now RedisInactive req s) = RlNext hs"
  using assms
  by (simp add: rateLimit_def effective_capacity_def evalTokenBucketMemory_def refill_def spend_def Let_def split_def)

lemma demo_edge_facts:
  "getClientIp demo_edge_req = ''10.1.1.1''" "header demo_edge_req ''host'' = Some ''adc''"
  "header demo_edge_req ''user-agent'' = None" "req_path demo_edge_req = ''/a''"
  by (simp_all add: demo_edge_req_def getClientIp_def header_def)

lemma demo_sec_fields:
  "blockedIps demo_sec = [JStr ''10.6.6.6'']" "penalizedIps demo_sec = []" "memoryBuckets demo_sec = []"
  by (simp_all add: demo_sec_def demo_an_def demo_rl_def adc_an.defs adc_rl.defs adc_rt.defs)

lemma mal_demo: "malicious ''JaVaScRiPt:1''"
proof -
  have "js_lower ''JaVaScRiPt:'' = ''javascript:''" by code_simp
  from test_literal [OF this, of "[]" "''1''"] show ?thesis by (simp add: malicious_def xss_patterns_def)
qed

lemma clean_demo: "\<not> malicious ''/a''"
  by code_simp

theorem waf_misses_bodies_witness:
  "(\<exists>hs. fst (edge_filters demo_gw (\<lambda>r. False) 30000 RedisInactive demo_edge_req (JObj []) demo_sec) = Admitted hs) \<and>
   (\<exists>msg. fst (wafMiddleware 30000 demo_edge_req (JObj []) (JObj [(''c'', JStr ''JaVaScRiPt:1'')]) demo_sec) = Deny 403 msg)"
proof -
  have mal: "malicious ''JaVaScRiPt:1''" and clean: "\<not> malicious ''/a''"
    by (rule mal_demo, rule clean_demo)
  have tls: "tlsRedirect (g_tls demo_gw) u demo_edge_req = NoRedirect" for u
    by (simp add: tlsRedirect_def demo_gw_def)
  have fw: "passes_firewall demo_edge_req demo_sec"
    by (simp add: passes_firewall_def demo_edge_facts isBlocked_def demo_sec_fields)
  have rl: "\<exists>hs. fst (rateLimit (g_rl demo_gw) 30000 RedisInactive demo_edge_req demo_sec) = RlNext hs"
    by (rule rateLimit_new_client) (simp_all add: demo_edge_facts demo_sec_fields demo_gw_def demo_rl_cfg_def)
  have "\<exists>hs. fst (edge_filters demo_gw (\<lambda>r. False) 30000 RedisInactive demo_edge_req (JObj []) demo_sec) = Admitted hs"
    unfolding edge_admits_parts using tls fw rl clean by (simp add: demo_edge_facts)
  then obtain hs where hs: "fst (edge_filters demo_gw (\<lambda>r. False) 30000 RedisInactive demo_edge_req (JObj []) demo_sec) = Admitted hs" ..
  have "\<exists>msg. fst (wafMiddleware 30000 demo_edge_req (JObj []) (JObj [(''c'', JStr ''JaVaScRiPt:1'')]) demo_sec) = Deny 403 msg"
    by (rule waf_misses_bodies [OF hs, of _ "''JaVaScRiPt:1''"]) (use mal in simp_all)
  with hs show ?thesis by blast
qed

section \<open>What a refusal costs\<close>

lemma blocked_edge:
  assumes "tlsRedirect (g_tls cfg) (url_of req) req = NoRedirect" "isBlocked (getClientIp req) s"
  shows "edge_filters cfg cors_answers now lr req query s =
    (Refuse 403 ''Access Forbidden - client IP has been blocked by administrator'',
     logEvent now ''ip-blocked'' req [(''reason'', JStr ''Client IP is present in the firewall blocklist'')] s)"
  using assms by (simp add: edge_filters_def blocklistMiddleware_def)

lemma headerValidator_deny:
  "headerValidator now req s = (Deny c m, s') \<Longrightarrow> \<exists>t d. s' = logEvent now t req d s"
  by (auto simp: headerValidator_def split: if_splits option.splits)

definition charged :: "'a adc_sec_scheme \<Rightarrow> _" where
  "charged s = (memoryBuckets s, redisBuckets s, penalizedIps s, ipStats s)"

lemma charged_log [simp]:
  "charged (logEvent now t req d s) = charged s"
  "breakers (logEvent now t req d c) = breakers c"
  by (simp_all add: charged_def logEvent_def)

text \<open>
  A request refused by the blocklist or the header check, redirected, or answered as a preflight costs
  its address nothing: no token is spent, no penalty expires and no rate is recorded; at most one audit
  event is written, and the pool and its breakers are never touched by any filter's verdict.
\<close>

theorem refused_early_is_free:
  assumes "\<not> passes_firewall req s \<or> cors_answers req \<or> tlsRedirect (g_tls cfg) (url_of req) req \<noteq> NoRedirect"
  shows "let (v, s') = edge_filters cfg cors_answers now lr req query s
         in charged s' = charged s \<and> pool s' = pool s \<and> breakers s' = breakers s \<and>
            (s' = s \<or> (\<exists>t d. s' = logEvent now t req d s))"
proof (cases "tlsRedirect (g_tls cfg) (url_of req) req")
  case NoRedirect
  show ?thesis
  proof (cases "isBlocked (getClientIp req) s")
    case True
    show ?thesis unfolding blocked_edge [OF NoRedirect True] by auto
  next
    case False
    then have b: "blocklistMiddleware now req s = (Pass, s)" by (simp add: blocklistMiddleware_def)
    obtain v2 s2 where h: "headerValidator now req s = (v2, s2)" by (cases "headerValidator now req s")
    show ?thesis
    proof (cases v2)
      case Pass
      then have "s2 = s" "cors_answers req"
        using h assms False NoRedirect headerValidator_pass [of now req s] verdict_state(2) [of now req s s2]
        by (auto simp: passes_firewall_def)
      then show ?thesis using NoRedirect b h Pass by (simp add: edge_filters_def)
    next
      case (Deny c m)
      then obtain t d where "s2 = logEvent now t req d s" using headerValidator_deny h by blast
      then show ?thesis using NoRedirect b h Deny by (auto simp: edge_filters_def)
    qed
  qed
qed (simp add: edge_filters_def)

theorem refused_early_is_free_witness:
  "let (v, s') = edge_filters demo_gw (\<lambda>r. False) 30000 RedisInactive
         (demo_edge_req\<lparr>remoteAddress := Some ''10.6.6.6''\<rparr>) (JObj []) demo_sec
   in charged s' = charged demo_sec \<and> pool s' = pool demo_sec"
proof -
  let ?req = "demo_edge_req\<lparr>remoteAddress := Some ''10.6.6.6''\<rparr>"
  have "\<not> passes_firewall ?req demo_sec"
    by (simp add: passes_firewall_def isBlocked_def demo_sec_fields getClientIp_def header_def demo_edge_req_def)
  then show ?thesis
    using refused_early_is_free [of ?req demo_sec "\<lambda>r. False" demo_gw 30000 RedisInactive "JObj []"]
    by (auto simp: Let_def split_def)
qed

end
