(* ===== verification/WellFormed.thy ===== *)
theory WellFormed
  imports Gateway
begin

text \<open>
  What every operation of the gateway keeps: the members of the pool as seen through a view (locales \<open>pool_view\<close>
  and \<open>counter_free\<close>), usable strategy indices, an advertised algorithm, and the limits of the report buffers.
  One lemma per operation, from the primitive updates up to the filters and the API.
\<close>

section \<open>Well-formed states\<close>

definition members :: "'a adc_scheme \<Rightarrow> (backend_id \<times> string) list" where
  "members s = map (\<lambda>b. (bid b, url b)) (pool s)"

lemma ids_members: "ids s = map fst (members s)"
  by (simp add: ids_def members_def)

text \<open>The buffers the gateway keeps in memory for its reports: events, anomalies, checks and transactions.\<close>

definition windows_bounded :: "'a adc_an_scheme \<Rightarrow> bool" where
  "windows_bounded s \<longleftrightarrow>
     length (events s) \<le> event_limit \<and> length (anomalies s) \<le> 100 \<and>
     list_all (\<lambda>(i, st). length (checks st) \<le> historyLimit) (hstats s) \<and>
     list_all (\<lambda>(i, l). length l \<le> metricsLimit) (history s)"

text \<open>
  The pool is compared through a view \<open>v\<close> of its members, so that one proof per operation covers whatever the
  operation leaves alone: their identity, or identity and connection counters.
\<close>

definition well_formed :: "(backend \<Rightarrow> 'v) \<Rightarrow> 'v list \<Rightarrow> 'a adc_an_scheme \<Rightarrow> bool" where
  "well_formed v ms s \<longleftrightarrow>
     map v (pool s) = ms \<and> lb_good s \<and> algorithm s \<in> set getAvailableAlgorithms \<and> windows_bounded s"

lemma list_all_update [simp]:
  "list_all P al \<Longrightarrow> P (k, v) \<Longrightarrow> list_all P (AList.update k v al)"
  by (induction al) (auto split: if_splits)

lemma list_all_map_of: "list_all (\<lambda>(k, v). P v) al \<Longrightarrow> map_of al k = Some v \<Longrightarrow> P v"
  by (auto simp: list_all_iff dest: map_of_SomeD)

text \<open>A name that \<open>PUT /api/admin/algorithm\<close> accepts without being a strategy.\<close>

fun harmless_call :: "api_call \<Rightarrow> bool" where
  "harmless_call (PutAlgorithm (Some a)) \<longleftrightarrow> a \<notin> set object_prototype"
| "harmless_call _ = True"

text \<open>A view that tells members apart by identity and counter at most.\<close>

locale pool_view =
  fixes v :: "backend \<Rightarrow> 'v"
  assumes same_view: "bid b = bid c \<Longrightarrow> url b = url c \<Longrightarrow> activeConnections b = activeConnections c \<Longrightarrow> v b = v c"
begin

lemma wf_update [adc_inv]:
  assumes "well_formed v ms s" "\<And>b. bid (f b) = bid b" "\<And>b. url (f b) = url b"
    and "\<And>b. activeConnections (f b) = activeConnections b"
  shows "well_formed v ms (update_backend i f s)"
proof -
  have "map v (modify_first P f bs) = map v bs" for P bs
    by (intro map_modify_first same_view assms(2-4))
  with assms(1) show ?thesis
    by (simp add: well_formed_def members_def windows_bounded_def update_backend_def lb_good_iff)
qed

lemma wf_log [adc_inv]: "well_formed v ms s \<Longrightarrow> well_formed v ms (logEvent now t req d s)"
  using logEvent_bounded [of s now t req d]
  by (simp add: well_formed_def members_def windows_bounded_def lb_good_iff) (simp add: logEvent_def)

lemma wf_fields [adc_inv]:
  assumes "well_formed v ms s"
  shows "well_formed v ms (put_breaker i br s)"
    and "well_formed v ms (s\<lparr>emitted := em\<rparr>)"
    and "well_formed v ms (s\<lparr>drainTimers := dt\<rparr>)"
    and "well_formed v ms (s\<lparr>memoryBuckets := mb\<rparr>)"
    and "well_formed v ms (s\<lparr>redisBuckets := rb\<rparr>)"
    and "well_formed v ms (s\<lparr>penalizedIps := pen\<rparr>)"
    and "well_formed v ms (s\<lparr>ipStats := st\<rparr>)"
  using assms by (simp_all add: well_formed_def members_def windows_bounded_def lb_good_iff put_breaker_def)

lemma wf_sec_fields [adc_inv]:
  assumes "well_formed v ms s"
  shows "well_formed v ms (s\<lparr>blockedIps := bl\<rparr>)"
  using assms by (simp add: well_formed_def members_def windows_bounded_def lb_good_iff)

lemma wf_cache_fields [adc_inv]:
  assumes "well_formed v ms s"
  shows "well_formed v ms (s\<lparr>memoryCache := mc\<rparr>)"
    and "well_formed v ms (s\<lparr>useMemoryFallback := u\<rparr>)"
    and "well_formed v ms (s\<lparr>redis := r\<rparr>)"
    and "well_formed v ms (recordHit l s)"
    and "well_formed v ms (recordMiss l s)"
    and "well_formed v ms (recordBypass s)"
  using assms
  by (simp_all add: well_formed_def members_def windows_bounded_def lb_good_iff recordHit_def recordMiss_def recordBypass_def)

lemma wf_put_stats [adc_inv]:
  "well_formed v ms s \<Longrightarrow> length (checks st) \<le> historyLimit \<Longrightarrow> well_formed v ms (put_stats i st s)"
  by (simp add: well_formed_def members_def windows_bounded_def lb_good_iff put_stats_def)

lemma wf_put_history [adc_inv]:
  "well_formed v ms s \<Longrightarrow> length l \<le> metricsLimit \<Longrightarrow> well_formed v ms (put_history i l s)"
  by (simp add: well_formed_def members_def windows_bounded_def lb_good_iff put_history_def)

lemma wf_checks: "well_formed v ms s \<Longrightarrow> get_stats i s = Some st \<Longrightarrow> length (checks st) \<le> historyLimit"
  by (auto simp: well_formed_def windows_bounded_def get_stats_def
      dest: list_all_map_of [where P = "\<lambda>st. length (checks st) \<le> historyLimit"])

section \<open>Breakers, probes, drains and metrics\<close>

lemmas wf_intros = wf_update wf_log wf_fields wf_sec_fields wf_cache_fields wf_put_stats wf_put_history

lemma wf_breaker [adc_inv]:
  assumes "well_formed v ms s"
  shows "well_formed v ms (update_breaker i g s)"
    and "well_formed v ms (transitionTo now i br st r s)"
    and "well_formed v ms (snd (getBreaker now i s))"
  using assms
  by (auto simp: update_breaker_def transitionTo_def getBreaker_def Let_def
      intro!: wf_fields wf_update wf_log split: option.split circuit_state.split)

lemma wf_cb_ops [adc_inv]:
  assumes "well_formed v ms s"
  shows "well_formed v ms (snd (canExecute cfg now i s))"
    and "well_formed v ms (recordSuccess cfg now i s)"
    and "well_formed v ms (recordFailure cfg now i err s)"
    and "well_formed v ms (reset_breaker now i s)"
  using assms wf_breaker(3) [OF assms, of now i]
  by (auto simp: canExecute_def recordSuccess_def recordFailure_def reset_breaker_def Let_def split_def
      intro!: wf_fields wf_breaker split: circuit_state.split)

lemma wf_fold [adc_inv]:
  "well_formed v ms s \<Longrightarrow> (\<And>x s. well_formed v ms s \<Longrightarrow> well_formed v ms (g x s)) \<Longrightarrow> well_formed v ms (fold g xs s)"
  by (induction xs arbitrary: s) auto

lemma wf_reset_all [adc_inv]: "well_formed v ms s \<Longrightarrow> well_formed v ms (reset_all cfg now s)"
  unfolding reset_all_def by (intro wf_fold wf_cb_ops)

lemma length_checks_note: "length (checks st) \<le> historyLimit \<Longrightarrow> length (checks (note_result now ok l st)) \<le> historyLimit"
  by (simp add: note_result_def Let_def length_push_shift)

lemma health_state_frame:
  "bid (updateBackendHealthState st b) = bid b"
  "url (updateBackendHealthState st b) = url b"
  "activeConnections (updateBackendHealthState st b) = activeConnections b"
  by (simp_all add: updateBackendHealthState_def)

lemma wf_health [adc_inv]:
  assumes "well_formed v ms s"
  shows "well_formed v ms (recordResult now i ok l s)"
    and "well_formed v ms (snd (overrideHealth i w s))"
proof -
  show "well_formed v ms (recordResult now i ok l s)"
    using assms wf_checks [OF assms, of i]
    by (auto simp: recordResult_def Let_def health_state_frame length_checks_note
        intro!: wf_update wf_put_stats split: option.split)
  show "well_formed v ms (snd (overrideHealth i w s))"
    using assms wf_checks [OF assms, of i]
    by (auto simp: overrideHealth_def Let_def intro!: wf_update wf_put_stats split: js_value.split option.split)
qed

lemma wf_checkBackend [adc_inv]: "well_formed v ms s \<Longrightarrow> well_formed v ms (checkBackend cfg now el i out s)"
  by (auto simp: checkBackend_def intro!: wf_cb_ops wf_health split: fetch_outcome.split)

lemma wf_completeDrain [adc_inv]: "well_formed v ms s \<Longrightarrow> well_formed v ms (completeDrain now i r s)"
  by (auto simp: completeDrain_def clear_timer_def intro!: wf_log wf_update wf_fields)

lemma wf_drain [adc_inv]:
  assumes "well_formed v ms s"
  shows "well_formed v ms (snd (drainBackend now i t s))"
    and "well_formed v ms (snd (undrainBackend i s))"
    and "well_formed v ms (fire_timer now i s)"
    and "well_formed v ms (onDrainComplete_cb now i s)"
  using assms
  by (auto simp: drainBackend_def undrainBackend_def fire_timer_def onDrainComplete_cb_def clear_timer_def
      Let_def intro!: wf_log wf_update wf_fields wf_completeDrain split: option.split)

lemma wf_metrics [adc_inv]:
  assumes "well_formed v ms s"
  shows "well_formed v ms (cleanup now i s)"
    and "well_formed v ms (recordTransaction now i l e s)"
    and "well_formed v ms (snd (getBackendMetrics now i s))"
proof -
  have c: "well_formed v ms (cleanup now i t)" if "well_formed v ms t" for t
    using that by (auto simp: cleanup_def length_trim_history intro!: wf_put_history split: option.split)
  then show "well_formed v ms (cleanup now i s)" "well_formed v ms (snd (getBackendMetrics now i s))"
    using assms by (auto simp: getBackendMetrics_def Let_def split: option.split)
  have "AList.update i b (AList.update i a al) = AList.update i b al" for a b and al :: "(backend_id \<times> tx list) list"
    by (induction al) auto
  then have "put_history i b (put_history i a s) = put_history i b s" for a b
    by (simp add: put_history_def)
  then show "well_formed v ms (recordTransaction now i l e s)"
    using assms by (auto simp: recordTransaction_def cleanup_def length_trim_history intro!: wf_put_history split: option.split)
qed

section \<open>Selecting a backend\<close>

lemma windows_index [simp]:
  "windows_bounded (s\<lparr>rrIndex := x\<rparr>) = windows_bounded s"
  "windows_bounded (s\<lparr>wrrIndex := y\<rparr>) = windows_bounded s"
  "windows_bounded (s\<lparr>wrrWeight := z\<rparr>) = windows_bounded s"
  by (simp_all add: windows_bounded_def)

lemma windows_put_history: "windows_bounded s \<Longrightarrow> length l \<le> metricsLimit \<Longrightarrow> windows_bounded (put_history i l s)"
  by (simp add: windows_bounded_def put_history_def)

lemma windows_cleanup: "windows_bounded s \<Longrightarrow> windows_bounded (cleanup now i s)"
  by (auto simp: cleanup_def length_trim_history intro: windows_put_history split: option.split)

lemma windows_read_score [simp]: "windows_bounded s \<Longrightarrow> windows_bounded (snd (read_score now i s))"
  by (auto simp: read_score_def getBackendMetrics_def case_prod_unfold Let_def windows_cleanup split: option.split)

lemma windows_read_scores:
  "windows_bounded s \<Longrightarrow> windows_bounded (snd (read_scores now is s))"
  "windows_bounded s \<Longrightarrow> windows_bounded (snd (break_tie now bs acc s))"
  by (induction "is" arbitrary: s, simp_all add: case_prod_unfold Let_def)
    (induction bs arbitrary: acc s, simp_all add: case_prod_unfold Let_def)

lemma windows_strategy: "windows_bounded s \<Longrightarrow> windows_bounded (snd (strategy_select md5 st now req bs s))"
  by (cases st)
    (auto simp: rr_select_def lc_select_def wrr_select_def ipHash_select_def ch_select_def
      case_prod_unfold Let_def windows_read_scores split: option.split list.split)

lemma wf_strategy [adc_inv]:
  assumes "well_formed v ms s" "is_strategy st" "bs \<noteq> []"
  shows "well_formed v ms (snd (strategy_select md5 st now req bs s))"
proof -
  obtain b r s' where "strategy_select md5 st now req bs s = (Some (b, r), s')" "lb_good s'" "pool s' = pool s"
    using strategy_select_candidate [OF assms(2,3)] assms(1) by (fastforce simp: well_formed_def)
  moreover have "algorithm (snd (strategy_select md5 st now req bs s)) = algorithm s" by simp
  moreover have "windows_bounded (snd (strategy_select md5 st now req bs s))"
    using assms(1) by (intro windows_strategy) (simp add: well_formed_def)
  ultimately show ?thesis using assms(1) by (simp add: well_formed_def members_def)
qed

lemma wf_getHealthy [adc_inv]:
  assumes "well_formed v ms s"
  shows "well_formed v ms (snd (getHealthyBackends cfg now s))"
proof -
  have "well_formed v ms (snd (filter_healthy cfg now is s))" for "is"
    using assms
  proof (induction "is" arbitrary: s)
    case (Cons i "is")
    then show ?case
      by (auto simp: case_prod_unfold Let_def intro!: Cons.IH wf_cb_ops split: option.split)
  qed simp
  then show ?thesis by (simp add: getHealthyBackends_def)
qed

lemma map_filter_found:
  "i \<in> set is \<Longrightarrow> get_backend i s \<noteq> None \<Longrightarrow> List.map_filter (\<lambda>i. get_backend i s) is \<noteq> []"
  by (induction "is") (auto simp: List.map_filter_simps split: option.split)

lemma well_formed_routable: "well_formed v ms s \<Longrightarrow> pool_ok s \<Longrightarrow> routable s"
  by (simp add: well_formed_def routable_def)

lemma wf_select [adc_inv]:
  assumes "well_formed v ms s" "pool_ok s"
  shows "well_formed v ms (snd (selectBackend cfg md5 now req failed s))"
proof -
  let ?s = "snd (getHealthyBackends cfg now s)" and ?h = "fst (getHealthyBackends cfg now s)"
  have wf: "well_formed v ms ?s" by (rule wf_getHealthy [OF assms(1)])
  have sub: "set ?h \<subseteq> set (ids ?s)" using assms(2) by (auto simp: getHealthyBackends_eligible)
  obtain st where st: "getStrategy (algorithm ?s) = Inr st" "is_strategy st"
    using getStrategy_known wf by (auto simp: well_formed_def)
  have "well_formed v ms (snd (strategy_select md5 st now req (List.map_filter (\<lambda>i. get_backend i ?s) is) ?s))"
    if "is \<noteq> []" "set is \<subseteq> set ?h" for "is"
  proof -
    from that sub have "get_backend (hd is) ?s \<noteq> None" using get_backend_None [of "hd is" ?s] by (cases "is") auto
    with that(1) have "List.map_filter (\<lambda>i. get_backend i ?s) is \<noteq> []" by (intro map_filter_found [of "hd is"]) auto
    with wf st(2) show ?thesis by (intro wf_strategy)
  qed
  then show ?thesis
    using wf st(1) by (auto simp: selectBackend_def case_prod_unfold Let_def split: option.split)
qed

lemma wf_proxy [adc_inv]:
  assumes "well_formed v ms s"
  shows "well_formed v ms (snd (snd (handleProxyError cfg now ns rnd err req s)))"
    and "well_formed v ms (snd (proxyRes cfg now ns code req s))"
proof -
  have c: "well_formed v ms (collectProxyError now ns b t s)" "well_formed v ms (collectProxyResponse now ns b t code s)"
    for b t
    using assms by (auto simp: collectProxyError_def collectProxyResponse_def intro!: wf_metrics split: option.split)
  show "well_formed v ms (snd (snd (handleProxyError cfg now ns rnd err req s)))"
    using c by (auto simp: handleProxyError_def Let_def intro!: wf_cb_ops split: option.split)
  show "well_formed v ms (snd (proxyRes cfg now ns code req s))"
    using c by (auto simp: proxyRes_def Let_def intro!: wf_cb_ops split: option.split)
qed

section \<open>The filters and the API\<close>

lemma wf_limiter [adc_inv]:
  assumes "well_formed v ms s"
  shows "well_formed v ms (snd (rateLimit cfg now rd req s))"
proof -
  have e: "well_formed v ms (snd (effective_capacity cfg now ip s))" for ip
    using assms by (auto simp: effective_capacity_def intro!: wf_fields split: option.split)
  have b: "well_formed v ms (snd (evalTokenBucketMemory ip c r now k t))" "well_formed v ms (snd (evalTokenBucketRedis ip c r now k t))"
    if "well_formed v ms t" for ip c r k t
    using that by (auto simp: evalTokenBucketMemory_def evalTokenBucketRedis_def case_prod_unfold Let_def intro!: wf_fields)
  show ?thesis
    using e by (auto simp: rateLimit_def case_prod_unfold Let_def intro!: wf_log b split: redis_call.split)
qed

lemma wf_anomaly [adc_inv]:
  assumes "well_formed v ms s"
  shows "well_formed v ms (anomalyMiddleware cfg now req s)"
    and "well_formed v ms (evaluateWindows cfg' now s)"
proof -
  show "well_formed v ms (anomalyMiddleware cfg now req s)"
    using assms by (auto simp: anomalyMiddleware_def recordRequest_def Let_def intro!: wf_fields)
  have p: "well_formed v ms (t\<lparr>anomalies := push_shift 100 e (anomalies t)\<rparr>)" if "well_formed v ms t" for t e
    using that length_push_shift [of "anomalies t" 100 e]
    by (simp add: well_formed_def members_def windows_bounded_def lb_good_iff)
  have f: "well_formed v ms (flag_anomaly cfg' now e t)" if "well_formed v ms t" for t e
    using p [OF that, of e] by (auto simp: flag_anomaly_def applyPenalty_def Let_def intro!: wf_fields wf_log)
  have "well_formed v ms (evaluate_loop cfg' now ips t)" if "well_formed v ms t" for ips t
    using that
  proof (induction ips arbitrary: t)
    case (Cons ip ips)
    then show ?case
      by (auto simp: case_prod_unfold Let_def intro!: Cons.IH wf_fields f split: option.split)
  qed simp
  with assms show "well_formed v ms (evaluateWindows cfg' now s)" by (simp add: evaluateWindows_def)
qed

lemma wf_edge [adc_inv]:
  assumes "well_formed v ms s"
  shows "well_formed v ms (snd (edge_filters cfg cors now rd req q s))"
proof -
  let ?s1 = "snd (blocklistMiddleware now req s)"
  let ?s2 = "snd (headerValidator now req ?s1)"
  let ?s3 = "snd (rateLimit (g_rl cfg) now rd req ?s2)"
  let ?s4 = "anomalyMiddleware (g_an cfg) now req ?s3"
  let ?s5 = "snd (wafMiddleware now req q JUndefined ?s4)"
  have s1: "well_formed v ms ?s1"
    using assms by (auto simp: blocklistMiddleware_def Let_def intro!: wf_log)
  then have s2: "well_formed v ms ?s2"
    by (auto simp: headerValidator_def intro!: wf_log split: option.split)
  have s3: "well_formed v ms ?s3" by (rule wf_limiter [OF s2])
  then have s5: "well_formed v ms ?s5"
    using wf_anomaly(1) [OF s3] by (auto simp: wafMiddleware_def intro!: wf_log split: option.split)
  have "snd (edge_filters cfg cors now rd req q s) \<in> {s, ?s1, ?s2, ?s3, ?s5}"
    by (simp add: edge_filters_def case_prod_unfold Let_def split: redirect_verdict.split verdict.split rl_verdict.split)
  with assms s1 s2 s3 s5 show ?thesis by auto
qed

lemma wf_cache [adc_inv]:
  assumes "well_formed v ms s"
  shows "well_formed v ms (snd (cacheMiddleware cfg rc now ns ns' req hs s))"
    and "well_formed v ms (cacheEnd cfg rc now ns' k ns code hs chunks s)"
    and "well_formed v ms (snd (deleteCache cfg rc s))"
    and "well_formed v ms (snd (deleteInvalidate rx cfg rc p s))"
proof -
  have g: "well_formed v ms (snd (cache_get cfg rc now k s))" for k
    using assms by (auto simp: cache_get_def intro!: wf_cache_fields split: option.split sum.split)
  then show "well_formed v ms (snd (cacheMiddleware cfg rc now ns ns' req hs s))"
    using assms
    by (auto simp: cacheMiddleware_def Let_def intro!: wf_cache_fields split: option.split prod.split) (metis snd_conv)+
  show "well_formed v ms (cacheEnd cfg rc now ns' k ns code hs chunks s)"
    using assms by (auto simp: cacheEnd_def cache_set_def Let_def intro!: wf_cache_fields split: sum.split)
  show "well_formed v ms (snd (deleteCache cfg rc s))"
    using assms by (auto simp: deleteCache_def flushAll_def intro!: wf_cache_fields split: sum.split)
  show "well_formed v ms (snd (deleteInvalidate rx cfg rc p s))"
    using assms
    by (auto simp: deleteInvalidate_def invalidatePattern_def intro!: wf_cache_fields split: sum.split option.split prod.split)
qed

lemma wf_setAlgorithm:
  assumes "well_formed v ms s" "a \<notin> set object_prototype"
  shows "well_formed v ms (snd (setAlgorithm a s))"
proof -
  have "a \<in> set getAvailableAlgorithms" if "getStrategy a = Inr st" for st
    using that assms(2) map_of_SomeD [of strategies a]
    by (auto simp: getStrategy_def getAvailableAlgorithms_def image_iff split: option.splits if_splits) force
  with assms(1) show ?thesis
    by (auto simp: setAlgorithm_def well_formed_def members_def windows_bounded_def lb_good_iff split: sum.split)
qed

lemma wf_metrics_loop [adc_inv]: "well_formed v ms s \<Longrightarrow> well_formed v ms (snd (getAllMetrics_loop now is s))"
  by (induction "is" arbitrary: s) (simp_all add: case_prod_unfold Let_def wf_metrics)

lemma wf_routes:
  assumes "well_formed v ms s"
  shows "well_formed v ms (snd (getStatus cb now s))"
    and "well_formed v ms (snd (getMetricsRoute now s))"
    and "well_formed v ms (snd (getMetricsById now i s))"
    and "well_formed v ms (snd (putWeight i w s))"
    and "well_formed v ms (snd (postDrain now i b q s))"
    and "well_formed v ms (snd (postUndrain i s))"
    and "well_formed v ms (snd (deleteEvents s))"
    and "well_formed v ms (snd (postReset cb now b s))"
    and "well_formed v ms (snd (postResetAll cb now s))"
    and "harmless_call (PutAlgorithm a) \<Longrightarrow> well_formed v ms (snd (putAlgorithm a s))"
proof -
  show "well_formed v ms (snd (getStatus cb now s))"
    using wf_getHealthy [OF assms, of cb now] by (simp add: getStatus_def case_prod_unfold Let_def)
  show "well_formed v ms (snd (getMetricsRoute now s))" "well_formed v ms (snd (getMetricsById now i s))"
    using wf_metrics_loop [OF assms, of now "ids s"] wf_metrics(3) [OF assms, of now i]
    by (auto simp: getMetricsRoute_def getMetricsById_def getAllMetrics_def case_prod_unfold Let_def split: option.split)
  show "well_formed v ms (snd (putWeight i w s))"
    using assms by (auto simp: putWeight_def intro!: wf_update split: option.split)
  show "well_formed v ms (snd (postDrain now i b q s))"
    using wf_drain(1) [OF assms, of now i "parse_or (or_else b q) 30"]
    by (auto simp: postDrain_def Let_def split: prod.split sum.split)
  show "well_formed v ms (snd (postUndrain i s))"
    using wf_drain(2) [OF assms, of i] by (auto simp: postUndrain_def Let_def split: prod.split sum.split)
  show "well_formed v ms (snd (deleteEvents s))"
    using assms by (simp add: deleteEvents_def clearLogs_def well_formed_def members_def windows_bounded_def lb_good_iff)
  show "well_formed v ms (snd (postReset cb now b s))" "well_formed v ms (snd (postResetAll cb now s))"
    using wf_cb_ops(4) [OF assms] wf_reset_all [OF assms] assms
    by (auto simp: postReset_def postResetAll_def Let_def)
  show "well_formed v ms (snd (putAlgorithm a s))" if "harmless_call (PutAlgorithm a)"
    using that assms wf_setAlgorithm [OF assms, of "the a"]
    by (cases a) (auto simp: putAlgorithm_def split: prod.split sum.split)
qed

lemma wf_run_route:
  assumes "well_formed v ms s" "harmless_call call"
  shows "well_formed v ms (snd (run_route cfg jwt rc e now req call s))"
  using assms wf_routes [OF assms(1)] wf_health(2) [OF assms(1)] wf_cache [OF assms(1)] wf_sec_fields [OF assms(1)]
  by (cases call)
    (simp_all add: case_prod_unfold Let_def getAnomaliesRoute_def postAnomaliesConfig_def deleteAnomalies_def
      postBlocklist_def deleteBlocklist_def block_def unblock_def split: sum.split)

lemma wf_api [adc_inv]:
  assumes "well_formed v ms s" "harmless_call call"
  shows "well_formed v ms (snd (api cfg jwt rc e now req call s))"
proof -
  have "well_formed v ms (snd (jwtMiddleware jwt now req s))"
    using assms(1) by (auto simp: jwtMiddleware_def Let_def intro!: wf_log split: option.split sum.split)
  with assms show ?thesis
    by (auto simp: api_def wf_run_route split: prod.split sum.split)
qed

end

text \<open>A view that does not see the counter is also kept when connections open and close.\<close>

locale counter_free =
  fixes v :: "backend \<Rightarrow> 'v"
  assumes same_member: "bid b = bid c \<Longrightarrow> url b = url c \<Longrightarrow> v b = v c"

sublocale counter_free \<subseteq> pool_view v
  by unfold_locales (rule same_member)

context counter_free
begin

lemma wf_counter [adc_inv]:
  assumes "well_formed v ms s"
  shows "well_formed v ms (update_backend i (\<lambda>b. b\<lparr>activeConnections := n b\<rparr>) s)"
proof -
  have "map v (modify_first P (\<lambda>b. b\<lparr>activeConnections := n b\<rparr>) bs) = map v bs" for P bs
    by (intro map_modify_first same_member) simp_all
  with assms show ?thesis by (simp add: well_formed_def windows_bounded_def update_backend_def lb_good_iff)
qed

lemma wf_open [adc_inv]: "well_formed v ms s \<Longrightarrow> well_formed v ms (open_connection i s)"
  by (simp add: open_connection_def wf_counter)

lemma wf_response_ends [adc_inv]: "well_formed v ms s \<Longrightarrow> well_formed v ms (response_ends now is s)"
proof (induction "is" arbitrary: s)
  case (Cons i "is")
  have "well_formed v ms (decrement_connection now i s)"
    using Cons.prems by (auto simp: decrement_connection_def Let_def intro!: wf_counter wf_drain(4) split: option.split)
  with Cons.IH show ?case by simp
qed simp

lemma wf_router [adc_inv]:
  assumes "well_formed v ms s" "pool_ok s"
  shows "well_formed v ms (snd (snd (router cfg md5 now req s)))"
  using wf_select [OF assms, of cfg md5 now req "failedBackends req"] assms(1)
  by (auto simp: router_def intro!: wf_open split: option.split selection.split prod.split)

end

interpretation identity: counter_free "\<lambda>b. (bid b, url b)"
  by unfold_locales simp

interpretation counted: pool_view "\<lambda>b. (bid b, url b, activeConnections b)"
  by unfold_locales simp

end
