(* ===== verification/System.thy ===== *)
theory System
  imports WellFormed
begin

text \<open>
  The gateway as one state machine: how the module singletons are created when the process starts
  (\<open>boot\<close>), every operation that Node's event loop may run on the shared state as a step (\<open>gw_step\<close>), and what
  no sequence of steps breaks.
\<close>

section \<open>Start and steps\<close>

text \<open>
  Importing the modules runs the constructors: the pool from the configured URLs, then the stores over it. An
  unknown configured algorithm stops the start with its message.
\<close>

definition modules_loaded :: "string list \<Rightarrow> rat \<Rightarrow> bool \<Rightarrow> 'r \<Rightarrow> 'r adc_ca" where
  "modules_loaded urls threshold enforce r =
     \<lparr>pool = createBackendPool urls, events = [], breakers = [], emitted = [], hstats = [], drainTimers = [], history = [],
      rrIndex = None, wrrIndex = None, wrrWeight = 0, algorithm = [], memoryBuckets = [], penalizedIps = [], redisBuckets = [],
      zThreshold = threshold, autoEnforce = enforce, ipStats = [], anomalies = [], blockedIps = [], memoryCache = [],
      useMemoryFallback = False, redis = r, hits = 0, misses = 0, totalHitLatency = 0, totalMissLatency = 0,
      totalBypasses = 0\<rparr>"

definition boot ::
  "gw_config \<Rightarrow> time \<Rightarrow> string list \<Rightarrow> string \<Rightarrow> rat \<Rightarrow> bool \<Rightarrow> bool \<Rightarrow> 'r \<Rightarrow> string + 'r adc_ca" where
  "boot cfg now urls alg threshold enforce offline r =
     (let s = init_cache (g_cache cfg) offline (modules_loaded urls threshold enforce r);
          s = init_lb (init_history (init_hstats (initBreakers now s)))
      in case init_routing alg s of (Inl e, s) \<Rightarrow> Inl e | (Inr _, s) \<Rightarrow> Inr s)"

text \<open>
  One turn of the event loop that touches the shared state. Background steps are everything but proxying: a
  filter pass, a cache lookup or store, an API request, a completed probe, a timer, or an event of the Redis socket.
\<close>

inductive gw_background ::
  "gw_config \<Rightarrow> jwt_lib \<Rightarrow> 'r redis_client \<Rightarrow> api_env \<Rightarrow> (proxy_req \<Rightarrow> bool) \<Rightarrow> 'r adc_ca \<Rightarrow> 'r adc_ca \<Rightarrow> bool"
  for cfg :: gw_config and jwt :: jwt_lib and rc :: "'r redis_client" and e :: api_env
    and cors :: "proxy_req \<Rightarrow> bool" where
  edge: "gw_background cfg jwt rc e cors s (snd (edge_filters cfg cors now rd req q s))"
| lookup: "gw_background cfg jwt rc e cors s (snd (cacheMiddleware (g_cache cfg) rc now ns ns' (req :: proxy_req) hs s))"
| store: "gw_background cfg jwt rc e cors s (cacheEnd (g_cache cfg) rc now ns' key ns code hs chunks s)"
| admin: "harmless_call call \<Longrightarrow>
    gw_background cfg jwt rc e cors s (snd (api cfg jwt rc e now (req :: proxy_req) call s))"
| probed: "gw_background cfg jwt rc e cors s (checkBackend (g_cb cfg) now elapsed i outcome s)"
| deadline: "timer_due now i s \<Longrightarrow> gw_background cfg jwt rc e cors s (fire_timer now i s)"
| window: "gw_background cfg jwt rc e cors s (evaluateWindows (g_an cfg) now s)"
| sweep: "gw_background cfg jwt rc e cors s (cleanupMemoryStore now s)"
| connected: "gw_background cfg jwt rc e cors s (on_connect s)"
| broken: "gw_background cfg jwt rc e cors s (on_error s)"
| retried: "gw_background cfg jwt rc e cors s (snd (retryStrategy n s))"

text \<open>The parts of a proxied request: the router, the two hooks, and the end of a response.\<close>

inductive gw_step ::
  "gw_config \<Rightarrow> jwt_lib \<Rightarrow> 'r redis_client \<Rightarrow> api_env \<Rightarrow> (string \<Rightarrow> 8 word list) \<Rightarrow> (proxy_req \<Rightarrow> bool) \<Rightarrow>
   'r adc_ca \<Rightarrow> 'r adc_ca \<Rightarrow> bool"
  for cfg :: gw_config and jwt :: jwt_lib and rc :: "'r redis_client" and e :: api_env
    and md5 :: "string \<Rightarrow> 8 word list" and cors :: "proxy_req \<Rightarrow> bool" where
  background: "gw_background cfg jwt rc e cors s t \<Longrightarrow> gw_step cfg jwt rc e md5 cors s t"
| route: "gw_step cfg jwt rc e md5 cors s (snd (snd (router (g_cb cfg) md5 now (req :: proxy_req) s)))"
| failed: "gw_step cfg jwt rc e md5 cors s (snd (snd (handleProxyError (g_cb cfg) now ns rnd err (req :: proxy_req) s)))"
| passed: "gw_step cfg jwt rc e md5 cors s (snd (proxyRes (g_cb cfg) now ns code (req :: proxy_req) s))"
| ended: "gw_step cfg jwt rc e md5 cors s (response_ends now is s)"

context pool_view
begin

lemma wf_background:
  assumes "gw_background cfg jwt rc e cors s t" "well_formed v ms s"
  shows "well_formed v ms t"
  using assms(1)
proof cases
  case (sweep now)
  with assms(2) show ?thesis
    by (simp add: cleanupMemoryStore_def well_formed_def windows_bounded_def lb_good_iff)
qed (use assms in \<open>auto simp: on_connect_def on_error_def retryStrategy_def
      intro!: wf_edge wf_cache wf_api wf_checkBackend wf_drain wf_anomaly wf_cache_fields\<close>)

end

context counter_free
begin

lemma wf_step:
  assumes "gw_step cfg jwt rc e md5 cors s t" "well_formed v ms s" "pool_ok s"
  shows "well_formed v ms t"
  using assms(1)
proof cases
  case background
  then show ?thesis using assms(2) by (rule wf_background)
qed (use assms in \<open>auto intro!: wf_router wf_proxy wf_response_ends\<close>)

end

text \<open>The identity of the members is enough to know that ids stay distinct, so the invariant carries itself.\<close>

lemma identity_pool_ok: "well_formed (\<lambda>b. (bid b, url b)) ms s \<Longrightarrow> distinct (map fst ms) \<Longrightarrow> pool_ok s"
  by (auto simp: well_formed_def pool_ok_def comp_def)

lemma wf_steps:
  assumes "(gw_step cfg jwt rc e md5 cors)\<^sup>*\<^sup>* s t" "well_formed (\<lambda>b. (bid b, url b)) ms s" "distinct (map fst ms)"
  shows "well_formed (\<lambda>b. (bid b, url b)) ms t"
  using assms(1)
  by (induction rule: rtranclp_induct) (use assms(2,3) identity.wf_step identity_pool_ok in blast)+

definition configured :: "string list \<Rightarrow> (backend_id \<times> string) list" where
  "configured urls = map (\<lambda>(i, u). (''backend-'' @ nat_str (i + 1), strip_slashes u)) (enumerate 0 urls)"

lemma members_createBackendPool: "map (\<lambda>b. (bid b, url b)) (createBackendPool urls) = configured urls"
  by (simp add: createBackendPool_def configured_def mk_backend_def case_prod_unfold comp_def)

lemma initBreakers_frame [adc_frame]:
  "pool (initBreakers now s) = pool s"
  "events (initBreakers now s) = events s"
  "anomalies (initBreakers now t) = anomalies t"
proof -
  have "pool (fold (\<lambda>b. put_breaker (bid b) (fresh_breaker now (url b))) bs s) = pool s \<and>
      events (fold (\<lambda>b. put_breaker (bid b) (fresh_breaker now (url b))) bs s) = events s" for bs :: "backend list"
    by (induction bs arbitrary: s) (simp_all add: put_breaker_def)
  moreover have "anomalies (fold (\<lambda>b. put_breaker (bid b) (fresh_breaker now (url b))) bs t) = anomalies t" for bs :: "backend list"
    by (induction bs arbitrary: t) (simp_all add: put_breaker_def)
  ultimately show "pool (initBreakers now s) = pool s" "events (initBreakers now s) = events s"
    "anomalies (initBreakers now t) = anomalies t"
    by (simp_all add: initBreakers_def)
qed

lemma distinct_configured: "distinct (map fst (configured urls))"
proof -
  have "map fst (configured urls) = map bid (createBackendPool urls)"
    by (simp add: members_createBackendPool [symmetric] comp_def)
  then show ?thesis using createBackendPool_ok by simp
qed

lemma wf_boot:
  assumes "boot cfg now urls alg threshold enforce offline r = Inr s" "alg \<notin> set object_prototype"
  shows "well_formed (\<lambda>b. (bid b, url b)) (configured urls) s"
proof -
  let ?m = "init_cache (g_cache cfg) offline (modules_loaded urls threshold enforce r)"
  let ?s = "init_lb (init_history (init_hstats (initBreakers now ?m)))"
  have "members ?s = configured urls \<and> lb_good ?s \<and> windows_bounded ?s"
    by (simp add: members_def members_createBackendPool windows_bounded_def init_lb_def lb_good_iff initBreakers_frame
        init_history_def init_hstats_def init_cache_def modules_loaded_def fresh_stats_def list_all_iff)
  moreover have "s = ?s\<lparr>algorithm := alg\<rparr> \<and> alg \<in> set getAvailableAlgorithms"
    using assms map_of_SomeD [of strategies alg]
    by (auto simp: boot_def init_routing_def setAlgorithm_def getStrategy_def getAvailableAlgorithms_def Let_def image_iff
        split: option.splits if_splits) force
  ultimately show ?thesis
    by (auto simp: well_formed_def members_def windows_bounded_def lb_good_iff)
qed


lemma boot_starts: "alg \<in> set getAvailableAlgorithms \<Longrightarrow> \<exists>s. boot cfg now urls alg threshold enforce offline r = Inr s"
  using getStrategy_known by (fastforce simp: boot_def init_routing_def setAlgorithm_def Let_def)


end
