(* ===== verification/Config.thy ===== *)
theory Config
  imports System
begin

text \<open>
  \<^verbatim>\<open>src/config/index.js\<close>: the settings as a function of the environment (\<open>process.env\<close> after \<^verbatim>\<open>dotenv\<close> has added to
  it), with their defaults, and the start of the gateway from them. \<open>parseFloat\<close> reads a decimal literal; the
  word \<open>Infinity\<close> is not a number of the model and reads as NaN here.
\<close>

type_synonym environment = "string \<Rightarrow> string option"

section \<open>parseFloat\<close>

definition js_parseFloat :: "string \<Rightarrow> rat option" where
  "js_parseFloat s =
     (let t = dropWhile js_space s;
          neg = (t \<noteq> [] \<and> hd t = CHR ''-'');
          u = (if t \<noteq> [] \<and> (hd t = CHR ''-'' \<or> hd t = CHR ''+'') then tl t else t);
          whole = takeWhile is_digit u;
          v = dropWhile is_digit u;
          point = (v \<noteq> [] \<and> hd v = CHR ''.'');
          part = (if point then takeWhile is_digit (tl v) else []);
          w = (if point then dropWhile is_digit (tl v) else v);
          x = (if w \<noteq> [] \<and> (hd w = CHR ''e'' \<or> hd w = CHR ''E'') then tl w else []);
          xneg = (x \<noteq> [] \<and> hd x = CHR ''-'');
          xs = takeWhile is_digit (if x \<noteq> [] \<and> (hd x = CHR ''-'' \<or> hd x = CHR ''+'') then tl x else x);
          m = of_nat (digits_value (whole @ part)) / 10 ^ length part;
          y = (if xneg then m / 10 ^ digits_value xs else m * 10 ^ digits_value xs)
      in if whole @ part = [] then None else Some (fl (if neg then - y else y)))"

text \<open>\<open>parseFloat(x) || d\<close> and \<open>x || d\<close> on a variable that may be missing.\<close>

definition float_or :: "string option \<Rightarrow> rat \<Rightarrow> rat" where
  "float_or s d = (case Option.bind s js_parseFloat of None \<Rightarrow> d | Some x \<Rightarrow> if x = 0 then d else x)"

definition str_or :: "string option \<Rightarrow> string \<Rightarrow> string" where
  "str_or s d = the (or_else s (Some d))"

definition parseList :: "string option \<Rightarrow> string list \<Rightarrow> string list" where
  "parseList value fallback =
     (if \<not> truthy_str value then fallback
      else filter (\<lambda>s. s \<noteq> []) (map js_trim (js_split (CHR '','') (the value))))"

section \<open>The settings\<close>

record config =
  c_port :: int
  c_env :: string
  c_tls_enabled :: bool
  c_tls_port :: int
  c_keyPath :: string
  c_certPath :: string
  c_tls_redirect :: bool
  c_level :: string
  c_format :: string
  c_backends :: "string list"
  c_algorithm :: string
  c_stickySession :: bool
  c_interval :: int
  c_timeout :: int
  c_health_path :: string
  c_unhealthyThreshold :: int
  c_healthyThreshold :: int
  c_redis_host :: string
  c_redis_port :: int
  c_redis_password :: "string option"
  c_cache :: cache_config
  c_mongo_uri :: string
  c_retentionDays :: int
  c_jwtSecret :: string
  c_jwtExpiry :: string
  c_rateLimit :: rl_config
  c_anomaly :: an_config
  c_zThreshold :: rat
  c_autoEnforce :: bool
  c_circuitBreaker :: cb_config
  c_cors_origin :: string

definition load_config :: "environment \<Rightarrow> config" where
  "load_config env =
     \<lparr>c_port = parse_or (env ''PORT'') 3000,
      c_env = str_or (env ''NODE_ENV'') ''development'',
      c_tls_enabled = (env ''TLS_ENABLED'' = Some ''true''),
      c_tls_port = parse_or (env ''TLS_PORT'') 8443,
      c_keyPath = str_or (env ''TLS_KEY_PATH'') ''./certs/server.key'',
      c_certPath = str_or (env ''TLS_CERT_PATH'') ''./certs/server.crt'',
      c_tls_redirect = (env ''TLS_REDIRECT'' = Some ''true''),
      c_level = str_or (env ''LOG_LEVEL'') ''info'',
      c_format = str_or (env ''LOG_FORMAT'') ''json'',
      c_backends = parseList (env ''BACKENDS'') [''http://localhost:4001'', ''http://localhost:4002'', ''http://localhost:4003''],
      c_algorithm = str_or (env ''LB_ALGORITHM'') ''round-robin'',
      c_stickySession = (env ''STICKY_SESSION'' = Some ''true''),
      c_interval = parse_or (env ''HEALTH_CHECK_INTERVAL'') 5000,
      c_timeout = parse_or (env ''HEALTH_CHECK_TIMEOUT'') 3000,
      c_health_path = str_or (env ''HEALTH_CHECK_PATH'') ''/health'',
      c_unhealthyThreshold = parse_or (env ''UNHEALTHY_THRESHOLD'') 3,
      c_healthyThreshold = parse_or (env ''HEALTHY_THRESHOLD'') 2,
      c_redis_host = str_or (env ''REDIS_HOST'') ''localhost'',
      c_redis_port = parse_or (env ''REDIS_PORT'') 6379,
      c_redis_password = (if truthy_str (env ''REDIS_PASSWORD'') then env ''REDIS_PASSWORD'' else None),
      c_cache = \<lparr>cache_enabled = (env ''CACHE_ENABLED'' \<noteq> Some ''false''), cache_ttl = parse_or (env ''CACHE_TTL'') 60\<rparr>,
      c_mongo_uri = str_or (env ''MONGO_URI'') ''mongodb://localhost:27017/sentinel-adc'',
      c_retentionDays = parse_or (env ''ANALYTICS_RETENTION_DAYS'') 7,
      c_jwtSecret = str_or (env ''JWT_SECRET'') ''sentinel-adc-secret-change-in-production'',
      c_jwtExpiry = str_or (env ''JWT_EXPIRY'') ''1h'',
      c_rateLimit = \<lparr>rl_windowMs = parse_or (env ''RATE_LIMIT_WINDOW_MS'') 60000,
                     rl_maxRequests = parse_or (env ''RATE_LIMIT_MAX_REQUESTS'') 100\<rparr>,
      c_anomaly = \<lparr>an_enabled = (env ''ANOMALY_DETECTION_ENABLED'' \<noteq> Some ''false''),
                   penaltyMaxRequests = parse_or (env ''ANOMALY_PENALTY_MAX_REQUESTS'') 10,
                   penaltyWindowMs = parse_or (env ''ANOMALY_PENALTY_WINDOW_MS'') 300000\<rparr>,
      c_zThreshold = float_or (env ''ANOMALY_Z_THRESHOLD'') 3,
      c_autoEnforce = (env ''ANOMALY_AUTO_ENFORCE'' = Some ''true''),
      c_circuitBreaker = \<lparr>cb_enabled = (env ''CIRCUIT_BREAKER_ENABLED'' \<noteq> Some ''false''),
                          failureThreshold = parse_or (env ''CIRCUIT_BREAKER_FAILURE_THRESHOLD'') 5,
                          cooldownMs = parse_or (env ''CIRCUIT_BREAKER_COOLDOWN_MS'') 15000,
                          halfOpenMaxProbes = parse_or (env ''CIRCUIT_BREAKER_HALF_OPEN_PROBES'') 1\<rparr>,
      c_cors_origin = str_or (env ''CORS_ORIGIN'') ''http://localhost:5173''\<rparr>"

text \<open>What the components of the model take from it; a port is read as a natural number.\<close>

definition gw_settings :: "config \<Rightarrow> gw_config" where
  "gw_settings c =
     \<lparr>g_tls = \<lparr>tls_enabled = c_tls_enabled c, tls_redirect = c_tls_redirect c, tls_port = nat (c_tls_port c)\<rparr>,
      g_rl = c_rateLimit c, g_an = c_anomaly c, g_cb = c_circuitBreaker c, g_cache = c_cache c\<rparr>"

definition start_gateway :: "environment \<Rightarrow> time \<Rightarrow> bool \<Rightarrow> 'r \<Rightarrow> string + 'r adc_ca" where
  "start_gateway env now offline r =
     (let c = load_config env
      in boot (gw_settings c) now (c_backends c) (c_algorithm c) (c_zThreshold c) (c_autoEnforce c) offline r)"

section \<open>What a setting can and cannot do\<close>

lemma parse_or_nonzero: "d \<noteq> 0 \<Longrightarrow> parse_or v d \<noteq> 0"
  by (simp add: parse_or_def split: option.split)

lemma float_or_nonzero: "d \<noteq> 0 \<Longrightarrow> float_or v d \<noteq> 0"
  by (simp add: float_or_def split: option.split)

lemma str_or_nonempty: "d \<noteq> [] \<Longrightarrow> str_or v d \<noteq> []"
  by (cases v) (auto simp: str_or_def or_else_def)

lemma js_trim_idem: "js_trim (js_trim s) = js_trim s"
proof -
  have d: "dropWhile P (dropWhile P xs) = dropWhile P xs" for P and xs :: string
    by (induction xs) auto
  have "dropWhile js_space (js_trim s) = js_trim s"
  proof (cases "js_trim s")
    case (Cons c cs)
    let ?t = "dropWhile js_space s"
    have "js_trim s = rev (dropWhile js_space (rev ?t))" by (simp add: js_trim_def)
    then obtain u where u: "?t = js_trim s @ u"
      by (metis append_take_drop_id dropWhile_eq_drop rev_append rev_rev_ident takeWhile_dropWhile_id)
    then have "hd ?t = c" "?t \<noteq> []" using Cons by simp_all
    then have "\<not> js_space c" using hd_dropWhile [of js_space s] by auto
    then show ?thesis using Cons by simp
  qed simp
  then show ?thesis by (simp add: js_trim_def d)
qed

definition usable_url :: "string \<Rightarrow> bool" where
  "usable_url u \<longleftrightarrow> u \<noteq> [] \<and> js_trim u = u"

lemma parseList_usable: "list_all usable_url fallback \<Longrightarrow> list_all usable_url (parseList v fallback)"
  by (auto simp: parseList_def list_all_iff usable_url_def js_trim_idem)

definition settings_usable :: "config \<Rightarrow> bool" where
  "settings_usable c \<longleftrightarrow>
     c_port c \<noteq> 0 \<and> c_tls_port c \<noteq> 0 \<and> c_interval c \<noteq> 0 \<and> c_timeout c \<noteq> 0 \<and> c_unhealthyThreshold c \<noteq> 0 \<and>
     c_healthyThreshold c \<noteq> 0 \<and> c_redis_port c \<noteq> 0 \<and> cache_ttl (c_cache c) \<noteq> 0 \<and> c_retentionDays c \<noteq> 0 \<and>
     rl_windowMs (c_rateLimit c) \<noteq> 0 \<and> rl_maxRequests (c_rateLimit c) \<noteq> 0 \<and>
     penaltyMaxRequests (c_anomaly c) \<noteq> 0 \<and> penaltyWindowMs (c_anomaly c) \<noteq> 0 \<and> c_zThreshold c \<noteq> 0 \<and>
     failureThreshold (c_circuitBreaker c) \<noteq> 0 \<and> cooldownMs (c_circuitBreaker c) \<noteq> 0 \<and>
     halfOpenMaxProbes (c_circuitBreaker c) \<noteq> 0 \<and> c_algorithm c \<noteq> [] \<and> c_jwtSecret c \<noteq> [] \<and> c_jwtExpiry c \<noteq> [] \<and>
     list_all usable_url (c_backends c)"

lemma settings_usable_load: "settings_usable (load_config env)"
proof -
  have "list_all usable_url [''http://localhost:4001'', ''http://localhost:4002'', ''http://localhost:4003'']"
    by code_simp
  then show ?thesis
    by (simp add: settings_usable_def load_config_def parse_or_nonzero float_or_nonzero str_or_nonempty parseList_usable)
qed

lemma getStrategy_accepts:
  "(\<exists>st. getStrategy a = Inr st) \<longleftrightarrow> a \<in> set (getAvailableAlgorithms @ object_prototype)"
  "getStrategy a = Inl m \<Longrightarrow> m = ''Unknown load balancing algorithm: '' @ a"
proof -
  have "map_of strategies a = None \<longleftrightarrow> a \<notin> set getAvailableAlgorithms"
    by (simp add: map_of_eq_None_iff getAvailableAlgorithms_def)
  then show "(\<exists>st. getStrategy a = Inr st) \<longleftrightarrow> a \<in> set (getAvailableAlgorithms @ object_prototype)"
    by (auto simp: getStrategy_def split: option.split)
  show "getStrategy a = Inl m \<Longrightarrow> m = ''Unknown load balancing algorithm: '' @ a"
    by (auto simp: getStrategy_def split: option.splits if_splits)
qed

lemma members_boot: "boot cfg now urls alg z en off r = Inr s \<Longrightarrow> members s = configured urls \<and> algorithm s = alg \<and>
    zThreshold s = z \<and> autoEnforce s = en"
proof -
  assume b: "boot cfg now urls alg z en off r = Inr s"
  let ?m = "init_cache (g_cache cfg) off (modules_loaded urls z en r)"
  let ?s = "init_lb (init_history (init_hstats (initBreakers now ?m)))"
  have "zThreshold (fold (\<lambda>b. put_breaker (bid b) (fresh_breaker now (url b))) bs t) = zThreshold t \<and>
      autoEnforce (fold (\<lambda>b. put_breaker (bid b) (fresh_breaker now (url b))) bs t) = autoEnforce t"
    for bs :: "backend list" and t :: "'a adc_ca"
    by (induction bs arbitrary: t) (simp_all add: put_breaker_def)
  then have "zThreshold (initBreakers now ?m) = z \<and> autoEnforce (initBreakers now ?m) = en"
    by (simp add: initBreakers_def init_cache_def modules_loaded_def)
  then have "members ?s = configured urls \<and> zThreshold ?s = z \<and> autoEnforce ?s = en"
    by (simp add: members_def members_createBackendPool init_lb_def initBreakers_frame init_history_def init_hstats_def
        init_cache_def modules_loaded_def)
  moreover have "s = ?s\<lparr>algorithm := alg\<rparr>"
    using b by (auto simp: boot_def init_routing_def setAlgorithm_def Let_def split: sum.splits)
  ultimately show ?thesis by (simp add: members_def)
qed


lemma default_start:
  "c_backends (load_config (\<lambda>_. None)) = [''http://localhost:4001'', ''http://localhost:4002'', ''http://localhost:4003'']"
  "c_backends (load_config [''BACKENDS'' \<mapsto> ''http://a:1/, http://b:2,,'']) = [''http://a:1/'', ''http://b:2'']"
  "c_backends (load_config [''BACKENDS'' \<mapsto> '','']) = []"
  "failureThreshold (c_circuitBreaker (load_config [''CIRCUIT_BREAKER_FAILURE_THRESHOLD'' \<mapsto> ''0''])) = 5"
  "js_parseFloat ''2.5e1x'' = Some 25"
  by code_simp+

end
