(* ===== verification/Upstream.thy ===== *)
theory Upstream
  imports WellFormed
begin

text \<open>
  The other end of the proxy: the sample application \<^verbatim>\<open>backends/server.js\<close> as the upstream of an attempt and the
  target of the probes, what a proxied request to it returns, and how many requests a backend gets that only
  ever fails.
\<close>

section \<open>The sample application\<close>

record sample =
  server_name :: string
  requestCount :: nat
  sample_start :: time
  simulate_latency :: bool

text \<open>What a handler reads besides the request: clock, its ISO form, random numbers in [0, 1), memory figures.\<close>

record sample_io =
  io_now :: time
  io_iso :: string
  io_latency :: rat
  io_random :: "rat list"
  io_memory :: js_value

record sample_answer =
  sa_status :: nat
  sa_delay :: int
  sa_body :: js_value

datatype sample_route = SRoot | SHealth | SData | SUsers | SSlow | SError | SEcho

text \<open>\<open>app.get\<close> also serves \<open>HEAD\<close>; paths match without regard to case and with an optional trailing slash.\<close>

definition sample_path :: "string \<Rightarrow> string" where
  "sample_path p = (let q = js_lower p in if 2 < length q \<and> last q = CHR ''/'' then butlast q else q)"

definition sample_routes :: "(string \<times> sample_route) list" where
  "sample_routes = [(''/'', SRoot), (''/health'', SHealth), (''/api/data'', SData), (''/api/users'', SUsers),
     (''/slow'', SSlow), (''/error'', SError)]"

definition route_of :: "string \<Rightarrow> string \<Rightarrow> sample_route" where
  "route_of meth p =
     (if meth \<in> {''GET'', ''HEAD''} then (case map_of sample_routes (sample_path p) of Some r \<Rightarrow> r | None \<Rightarrow> SEcho) else SEcho)"

definition pick :: "rat \<Rightarrow> rat \<Rightarrow> int" where
  "pick r n = \<lfloor>fmul r n\<rfloor>"

definition sample_user :: "rat \<Rightarrow> string \<Rightarrow> string \<Rightarrow> js_value" where
  "sample_user i n r = JObj [(''id'', JNum i), (''name'', JStr n), (''role'', JStr r)]"

definition or_null :: "string option \<Rightarrow> js_value" where
  "or_null v = (if truthy_str v then JStr (the v) else JNull)"

fun sample_handler :: "sample_io \<Rightarrow> 'q request_scheme \<Rightarrow> js_value \<Rightarrow> sample \<Rightarrow> sample_route \<Rightarrow> sample_answer" where
  "sample_handler io req query s SRoot =
     \<lparr>sa_status = 200, sa_delay = 0, sa_body = JObj
       [(''server'', JStr (server_name s)), (''message'', JStr (''Hello from '' @ server_name s @ ''!'')),
        (''timestamp'', JStr (io_iso io)), (''requestId'', or_null (header req ''x-request-id''))]\<rparr>"
| "sample_handler io req query s SHealth =
     \<lparr>sa_status = 200, sa_delay = 0, sa_body = JObj
       [(''status'', JStr ''ok''), (''server'', JStr (server_name s)),
        (''uptime'', JNum (fdiv (of_int (io_now io - sample_start s)) 1000)),
        (''requests'', JNum (of_nat (requestCount s))), (''timestamp'', JStr (io_iso io)), (''memory'', io_memory io)]\<rparr>"
| "sample_handler io req query s SData =
     \<lparr>sa_status = 200, sa_delay = 0, sa_body = JObj
       [(''server'', JStr (server_name s)),
        (''data'', JObj [(''id'', JNum (of_int (pick (io_random io ! 0) 1000))),
                         (''name'', JStr (''Item from '' @ server_name s)), (''value'', JNum (fmul (io_random io ! 1) 100))]),
        (''timestamp'', JStr (io_iso io))]\<rparr>"
| "sample_handler io req query s SUsers =
     \<lparr>sa_status = 200, sa_delay = 0, sa_body = JObj
       [(''server'', JStr (server_name s)),
        (''users'', JArr [sample_user 1 ''Alice'' ''admin'', sample_user 2 ''Bob'' ''user'', sample_user 3 ''Charlie'' ''user'']),
        (''timestamp'', JStr (io_iso io))]\<rparr>"
| "sample_handler io req query s SSlow =
     (let delay = pick (io_random io ! 0) 1500 + 500
      in \<lparr>sa_status = 200, sa_delay = delay, sa_body = JObj
            [(''server'', JStr (server_name s)), (''message'', JStr (''Slow response after '' @ int_str delay @ ''ms'')),
             (''delay'', JNum (of_int delay)), (''timestamp'', JStr (io_iso io))]\<rparr>)"
| "sample_handler io req query s SError =
     \<lparr>sa_status = 500, sa_delay = 0, sa_body = JObj
       [(''server'', JStr (server_name s)), (''error'', JStr ''Intentional server error for testing''),
        (''timestamp'', JStr (io_iso io))]\<rparr>"
| "sample_handler io req query s SEcho =
     \<lparr>sa_status = 200, sa_delay = 0, sa_body = JObj
       [(''server'', JStr (server_name s)), (''method'', JStr (the (or_else (http_method req) (Some [])))),
        (''path'', JStr (req_path req)), (''headers'', JObj (map (\<lambda>(n, v). (n, JStr v)) (headers req))), (''query'', query),
        (''timestamp'', JStr (io_iso io))]\<rparr>"

text \<open>The counting middleware delays every request by 20 to 79 ms unless that is switched off.\<close>

definition sample_serve ::
  "sample_io \<Rightarrow> 'q request_scheme \<Rightarrow> js_value \<Rightarrow> sample \<Rightarrow> sample_answer \<times> sample" where
  "sample_serve io req query s =
     (let s = s\<lparr>requestCount := requestCount s + 1\<rparr>;
          latency = (if simulate_latency s then pick (io_latency io) 60 + 20 else 0);
          a = sample_handler io req query s
                (route_of (the (or_else (http_method req) (Some ''GET''))) (req_path req))
      in (a\<lparr>sa_delay := latency + sa_delay a\<rparr>, s))"

text \<open>
  Seen from the gateway: an answer within the time-out of the proxy, or of the probe, is a response; later the
  request is aborted.
\<close>

definition PROXY_TIMEOUT :: int where
  "PROXY_TIMEOUT = 30000"

definition upstream_of :: "sample_answer \<Rightarrow> upstream" where
  "upstream_of a = (if sa_delay a < PROXY_TIMEOUT then UpResponse (sa_status a) else UpError ''ECONNRESET'' False)"

definition probe_of :: "int \<Rightarrow> sample_answer \<Rightarrow> fetch_outcome" where
  "probe_of timeout a =
     (if sa_delay a < timeout then Responded (sa_status a) else FetchFailed ''AbortError'' ''This operation was aborted'')"

lemma pick_bounds:
  assumes "0 \<le> r" "r \<le> 1" "0 \<le> n" "n \<le> 2 ^ 53"
  shows "0 \<le> pick r (of_int n)" "pick r (of_int n) \<le> n"
proof -
  have "r * of_int n \<le> 1 * of_int n" using assms by (intro mult_right_mono) simp_all
  then have "fl (r * of_int n) \<le> fl (of_int n)" by (intro fl_mono) simp
  then have "fl (r * of_int n) \<le> of_int n" using assms by (simp add: fl_of_int)
  then show "pick r (of_int n) \<le> n" by (simp add: pick_def fmul_def floor_le_iff)
  show "0 \<le> pick r (of_int n)" using assms by (simp add: pick_def fmul_def fl_nonneg)
qed

text \<open>The random numbers of one request.\<close>

definition unit_randoms :: "sample_io \<Rightarrow> bool" where
  "unit_randoms io \<longleftrightarrow>
     0 \<le> io_latency io \<and> io_latency io < 1 \<and> 2 \<le> length (io_random io) \<and> list_all (\<lambda>r. 0 \<le> r \<and> r < 1) (io_random io)"

definition status_for :: "'q request_scheme \<Rightarrow> nat" where
  "status_for req =
     (if route_of (the (or_else (http_method req) (Some ''GET''))) (req_path req) = SError then 500 else 200)"

lemma sample_answers:
  assumes "unit_randoms io"
  shows "sa_status (fst (sample_serve io req query s)) = status_for req"
    and "0 \<le> sa_delay (fst (sample_serve io req query s))" "sa_delay (fst (sample_serve io req query s)) \<le> 2080"
proof -
  let ?l = "if simulate_latency s then pick (io_latency io) 60 + 20 else 0"
  have l: "0 \<le> ?l \<and> ?l \<le> 80"
    using assms pick_bounds [of "io_latency io" 60] by (auto simp: unit_randoms_def)
  have "0 \<le> io_random io ! 0" "io_random io ! 0 \<le> 1"
    using assms by (auto simp: unit_randoms_def list_all_length Suc_le_eq dest!: spec [of _ "0 :: nat"])
  then have d: "0 \<le> pick (io_random io ! 0) 1500" "pick (io_random io ! 0) 1500 \<le> 1500"
    using pick_bounds [of "io_random io ! 0" 1500] by simp_all
  have h: "sa_status (sample_handler io req query s r) = (if r = SError then 500 else 200) \<and>
      0 \<le> sa_delay (sample_handler io req query s r) \<and> sa_delay (sample_handler io req query s r) \<le> 2000" for r s
    using d by (cases r) (simp_all add: Let_def)
  let ?r = "route_of (the (or_else (http_method req) (Some ''GET''))) (req_path req)"
  have e: "sample_serve io req query s =
      ((sample_handler io req query (s\<lparr>requestCount := requestCount s + 1\<rparr>) ?r)
         \<lparr>sa_delay := ?l + sa_delay (sample_handler io req query (s\<lparr>requestCount := requestCount s + 1\<rparr>) ?r)\<rparr>,
       s\<lparr>requestCount := requestCount s + 1\<rparr>)"
    by (simp add: sample_serve_def Let_def)
  note h = h [of "s\<lparr>requestCount := requestCount s + 1\<rparr>" ?r]
  show "sa_status (fst (sample_serve io req query s)) = status_for req"
    using h unfolding e by (simp add: status_for_def)
  show "0 \<le> sa_delay (fst (sample_serve io req query s))" "sa_delay (fst (sample_serve io req query s)) \<le> 2080"
    using h l unfolding e by (auto simp del: sample_handler.simps split: if_splits)
qed

section \<open>A proxied request to the sample application\<close>

text \<open>What a run changes in the request does not show in the forwarding headers.\<close>

definition proxy_part :: "'r proxy_req_scheme \<Rightarrow> _" where
  "proxy_part req = (req_ip req, remoteAddress req, headers req, protocol req, requestId req, correlationId req)"

lemma addProxyHeaders_part: "proxy_part req = proxy_part req' \<Longrightarrow> addProxyHeaders req = addProxyHeaders req'"
  by (auto simp: proxy_part_def addProxyHeaders_def getClientIp_def header_def Let_def split: option.split list.split)

lemma addProxyHeaders_update [simp]:
  "addProxyHeaders (req\<lparr>attempts := n\<rparr>) = addProxyHeaders req"
  "addProxyHeaders (req\<lparr>failedBackends := f\<rparr>) = addProxyHeaders req"
  "addProxyHeaders (req\<lparr>targetBackend := t\<rparr>) = addProxyHeaders req"
  "addProxyHeaders (req\<lparr>lbAlgorithm := a\<rparr>) = addProxyHeaders req"
  "addProxyHeaders (req\<lparr>lbReason := r\<rparr>) = addProxyHeaders req"
  "addProxyHeaders (req\<lparr>headersSent := h\<rparr>) = addProxyHeaders req"
  "addProxyHeaders (req\<lparr>replies := rs\<rparr>) = addProxyHeaders req"
  "addProxyHeaders (req\<lparr>listeners := ls\<rparr>) = addProxyHeaders req"
  "addProxyHeaders (req\<lparr>forwarded := fs\<rparr>) = addProxyHeaders req"
  by (rule addProxyHeaders_part; simp add: proxy_part_def)+

lemma router_selects:
  assumes "routable s" "targetBackend req = None" "candidate_ids cfg now (failedBackends req) s \<noteq> []"
  shows "\<exists>i u r s'. i \<in> set (candidate_ids cfg now (failedBackends req) s) \<and>
    router cfg md5 now req s = (Target u, req\<lparr>targetBackend := Some i, lbAlgorithm := Some (algorithm s),
      lbReason := Some r, listeners := listeners req @ [i]\<rparr>, s')"
proof -
  obtain i r t where sel: "selectBackend cfg md5 now req (failedBackends req) s = (Selected i (algorithm s) r, t)"
    "i \<in> set (candidate_ids cfg now (failedBackends req) s)"
    using selectBackend_cases [OF assms(1), of cfg now "failedBackends req" md5 req] assms(3)
    by (metis prod.collapse)
  have "i \<in> set (ids s)" using sel(2) by (auto simp: candidate_ids_def Let_def split: if_splits)
  moreover have "active i t = active i s" using active_selectBackend [of i cfg md5 now req "failedBackends req" s] sel(1) by simp
  ultimately obtain b where "get_backend i t = Some b"
    using get_backend_None [of i s] by (auto simp: active_def)
  with sel assms(2) show ?thesis by (auto simp: router_def)
qed


definition demo_sample :: sample where
  "demo_sample = \<lparr>server_name = ''backend-1'', requestCount = 41, sample_start = 0, simulate_latency = True\<rparr>"

definition demo_io :: sample_io where
  "demo_io = \<lparr>io_now = 5000, io_iso = ''1970-01-01T00:00:05.000Z'', io_latency = 1 / 2, io_random = [1 / 4, 3 / 4],
     io_memory = JObj []\<rparr>"

definition demo_sample_env :: attempt_env where
  "demo_sample_env = demo_env (upstream_of (fst (sample_serve demo_io demo_preq JUndefined demo_sample)))"


section \<open>A backend that only fails\<close>

text \<open>
  The breaker of \<open>i\<close> is followed while requests are proxied one after the other and every attempt at \<open>i\<close> fails:
  with a server error or with no response at all.
\<close>

definition failing :: "upstream \<Rightarrow> bool" where
  "failing u = (case u of UpResponse c \<Rightarrow> 500 \<le> c | UpError e sent \<Rightarrow> True)"

fun fails_at ::
  "backend_id \<Rightarrow> cb_config \<Rightarrow> (string \<Rightarrow> 8 word list) \<Rightarrow> string option \<Rightarrow> backend_id option option \<Rightarrow> attempt_env list \<Rightarrow>
   'r proxy_req_scheme \<Rightarrow> 'a adc_rt_scheme \<Rightarrow> bool" where
  "fails_at i cfg md5 no_target prev [] req s = True"
| "fails_at i cfg md5 no_target prev (env # envs) req s =
     ((targetBackend (fst (snd (router cfg md5 (e_routed env) req s))) = Some i \<longrightarrow> failing (e_upstream env)) \<and>
      (case proxyInstance cfg md5 no_target prev env req s of
         (Finished, req, s) \<Rightarrow> True
       | (Retry d f, req, s) \<Rightarrow> fails_at i cfg md5 no_target (Some f) envs req s))"

text \<open>Requests proxied in turn; their responses may end later.\<close>

fun proxy_all ::
  "cb_config \<Rightarrow> (string \<Rightarrow> 8 word list) \<Rightarrow> string option \<Rightarrow> (attempt_env list \<times> 'r proxy_req_scheme) list \<Rightarrow>
   'a adc_rt_scheme \<Rightarrow> 'r proxy_req_scheme list \<times> 'a adc_rt_scheme" where
  "proxy_all cfg md5 no_target [] s = ([], s)"
| "proxy_all cfg md5 no_target ((envs, req) # rs) s =
     (case proxyMiddlewareWithRetry cfg md5 no_target envs req s of
        (fin, req', s) \<Rightarrow> (case proxy_all cfg md5 no_target rs s of (reqs, s) \<Rightarrow> (req' # reqs, s)))"

fun all_fail_at ::
  "backend_id \<Rightarrow> cb_config \<Rightarrow> (string \<Rightarrow> 8 word list) \<Rightarrow> string option \<Rightarrow>
   (attempt_env list \<times> 'r proxy_req_scheme) list \<Rightarrow> 'a adc_rt_scheme \<Rightarrow> bool" where
  "all_fail_at i cfg md5 no_target [] s = True"
| "all_fail_at i cfg md5 no_target ((envs, req) # rs) s =
     (fails_at i cfg md5 no_target None envs (req\<lparr>attempts := (if attempts req = 0 then 1 else attempts req)\<rparr>) s \<and>
      all_fail_at i cfg md5 no_target rs (snd (snd (proxyMiddlewareWithRetry cfg md5 no_target envs req s))))"

definition sent_to :: "backend_id \<Rightarrow> 'r proxy_req_scheme \<Rightarrow> nat" where
  "sent_to i req = count_list (map fst (forwarded req)) i"

text \<open>How many more failures the breaker of \<open>i\<close> takes before nothing is sent there.\<close>

definition budget :: "cb_config \<Rightarrow> backend_id \<Rightarrow> 'a adc_cb_scheme \<Rightarrow> nat" where
  "budget cfg i s = (case cb_abs i s of SClosed n \<Rightarrow> nat (failureThreshold cfg - int n) | _ \<Rightarrow> 0)"

definition failing_ok :: "cb_config \<Rightarrow> backend_id \<Rightarrow> 'a adc_cb_scheme \<Rightarrow> bool" where
  "failing_ok cfg i s \<longleftrightarrow>
     cb_sync i s \<and> (case cb_abs i s of SClosed n \<Rightarrow> int n < failureThreshold cfg | SOpen t \<Rightarrow> True | SHalf k \<Rightarrow> False)"

lemma failing_cong:
  assumes "cb_abs i t = cb_abs i s" "map_option healthy (get_backend i t) = map_option healthy (get_backend i s)"
  shows "failing_ok cfg i t = failing_ok cfg i s" "budget cfg i t = budget cfg i s"
  using assms by (auto simp: failing_ok_def budget_def cb_sync_def split: option.splits)

lemma cb_abs_breakers: "lookup_breaker i t = lookup_breaker i s \<Longrightarrow> cb_abs i t = cb_abs i s"
  by (simp add: cb_abs_def)

lemma failing_frame:
  assumes "lookup_breaker i t = lookup_breaker i s" "pool t = pool s"
  shows "failing_ok cfg i t = failing_ok cfg i s" "budget cfg i t = budget cfg i s"
  using assms by (intro failing_cong cb_abs_breakers; simp add: get_backend_def)+

lemma failing_filter:
  assumes "failing_ok cfg i s" "cb_enabled cfg"
  shows "failing_ok cfg i (snd (filter_healthy cfg now is s)) \<and>
         cb_abs i (snd (filter_healthy cfg now is s)) = cb_abs i s \<and>
         (i \<in> set (fst (filter_healthy cfg now is s)) \<longrightarrow> (\<exists>n. cb_abs i s = SClosed n))"
  using assms(1)
proof (induction "is" arbitrary: s)
  case (Cons j "is")
  let ?r = "case get_backend j s of
      Some b \<Rightarrow> if healthy b then canExecute cfg now j s else (False, s) | None \<Rightarrow> (False, s)"
  have "failing_ok cfg i (snd ?r) \<and> cb_abs i (snd ?r) = cb_abs i s \<and> (j = i \<and> fst ?r \<longrightarrow> (\<exists>n. cb_abs i s = SClosed n))"
  proof (cases "j = i")
    case False
    then have "i \<noteq> j" by simp
    note other = cb_apply_other [OF this, of cfg now Ask s] cb_apply_other_backend [OF this, of cfg now Ask s]
    then have "failing_ok cfg i (snd (canExecute cfg now j s)) = failing_ok cfg i s"
      by (intro failing_cong) simp_all
    with other Cons.prems False show ?thesis by (auto split: option.split)
  next
    case True
    show ?thesis
    proof (cases "\<exists>b. get_backend i s = Some b \<and> healthy b")
      case True
      then obtain n where n: "cb_abs i s = SClosed n"
        using Cons.prems by (auto simp: failing_ok_def cb_sync_def split: cb_spec.splits)
      with cb_apply_simulates [OF assms(2), of i now Ask s]
      have "cb_abs i (snd (canExecute cfg now i s)) = SClosed n" by (cases "canExecute cfg now i s") simp
      moreover have "cb_sync i (snd (canExecute cfg now i s))"
        using cb_apply_sync [of i s cfg now Ask] Cons.prems by (simp add: failing_ok_def)
      ultimately show ?thesis using True \<open>j = i\<close> n Cons.prems by (auto simp: failing_ok_def)
    qed (use \<open>j = i\<close> Cons.prems in \<open>auto split: option.split\<close>)
  qed
  with Cons.IH [of "snd ?r"] show ?case by (auto simp: case_prod_unfold Let_def)
qed simp

lemma lookup_read_scores [simp]:
  "lookup_breaker j (snd (read_score now i s)) = lookup_breaker j s"
  "lookup_breaker j (snd (read_scores now is s)) = lookup_breaker j s"
  "lookup_breaker j (snd (break_tie now bs acc s)) = lookup_breaker j s"
proof -
  show r: "lookup_breaker j (snd (read_score now i s)) = lookup_breaker j s" for i s
    by (simp add: read_score_def case_prod_unfold Let_def split: option.split)
  show "lookup_breaker j (snd (read_scores now is s)) = lookup_breaker j s"
    by (induction "is" arbitrary: s) (simp_all add: case_prod_unfold Let_def r)
  show "lookup_breaker j (snd (break_tie now bs acc s)) = lookup_breaker j s"
    by (induction bs arbitrary: acc s) (simp_all add: case_prod_unfold Let_def r)
qed

lemma lookup_index [simp]:
  "lookup_breaker j (s\<lparr>rrIndex := x\<rparr>) = lookup_breaker j s"
  "lookup_breaker j (s\<lparr>wrrIndex := z\<rparr>) = lookup_breaker j s"
  "lookup_breaker j (s\<lparr>wrrWeight := y\<rparr>) = lookup_breaker j s"
  by (simp_all add: lookup_breaker_def)

lemma lookup_strategy_select [simp]:
  "lookup_breaker j (snd (strategy_select md5 st now req bs s)) = lookup_breaker j s"
  by (cases st)
    (auto simp: rr_select_def lc_select_def wrr_select_def ipHash_select_def ch_select_def
      case_prod_unfold Let_def split: option.split list.split)

lemma failing_select:
  assumes "failing_ok cfg i s" "cb_enabled cfg" "routable s"
  shows "failing_ok cfg i (snd (selectBackend cfg md5 now req failed s))"
    and "budget cfg i (snd (selectBackend cfg md5 now req failed s)) = budget cfg i s"
    and "fst (selectBackend cfg md5 now req failed s) = Selected i a r \<Longrightarrow> 0 < budget cfg i s"
proof -
  let ?h = "getHealthyBackends cfg now s"
  have h: "failing_ok cfg i (snd ?h)" "cb_abs i (snd ?h) = cb_abs i s"
    using failing_filter [OF assms(1,2), of now "ids s"] by (simp_all add: getHealthyBackends_def)
  have f: "lookup_breaker i (snd (selectBackend cfg md5 now req failed s)) = lookup_breaker i (snd ?h) \<and>
      pool (snd (selectBackend cfg md5 now req failed s)) = pool (snd ?h)"
    by (simp add: selectBackend_def case_prod_unfold Let_def split: sum.split option.split)
  show "failing_ok cfg i (snd (selectBackend cfg md5 now req failed s))"
    using failing_frame(1) [OF conjunct1 [OF f] conjunct2 [OF f], of cfg] h(1) by simp
  show "budget cfg i (snd (selectBackend cfg md5 now req failed s)) = budget cfg i s"
    using f h(2) by (simp add: budget_def cb_abs_def)
  assume "fst (selectBackend cfg md5 now req failed s) = Selected i a r"
  then have "eligible cfg now s i" by (rule routing_eligible [OF assms(3)])
  then show "0 < budget cfg i s"
    using assms(1) by (auto simp: eligible_def failing_ok_def cb_sync_def budget_def split: option.splits cb_spec.splits)
qed

lemma failing_open [simp]:
  "failing_ok cfg i (open_connection j s) = failing_ok cfg i s"
  "budget cfg i (open_connection j s) = budget cfg i s"
proof -
  have "cb_abs i (open_connection j s) = cb_abs i s" "map_option healthy (get_backend i (open_connection j s)) = map_option healthy (get_backend i s)"
    by (simp add: open_connection_def cb_abs_def) (cases "get_backend i s"; cases "j = i"; simp add: get_open_connection)
  then show "failing_ok cfg i (open_connection j s) = failing_ok cfg i s" "budget cfg i (open_connection j s) = budget cfg i s"
    by (rule failing_cong)+
qed

lemma failing_collect [simp]:
  "failing_ok cfg i (collectProxyError now ns b t s) = failing_ok cfg i s"
  "failing_ok cfg i (collectProxyResponse now ns b t c s) = failing_ok cfg i s"
  "budget cfg i (collectProxyError now ns b t s) = budget cfg i s"
  "budget cfg i (collectProxyResponse now ns b t c s) = budget cfg i s"
  by (rule failing_frame; simp add: collectProxyError_def collectProxyResponse_def split: option.split)+

lemma failing_other:
  assumes "j \<noteq> i" "failing_ok cfg i s"
  shows "failing_ok cfg i (snd (cb_apply cfg now ev j s))" "budget cfg i (snd (cb_apply cfg now ev j s)) = budget cfg i s"
proof -
  have "i \<noteq> j" using assms(1) by simp
  note other = cb_apply_other [OF this, of cfg now ev s] cb_apply_other_backend [OF this, of cfg now ev s]
  then have "failing_ok cfg i (snd (cb_apply cfg now ev j s)) = failing_ok cfg i s"
    by (intro failing_cong(1)) simp_all
  with assms(2) show "failing_ok cfg i (snd (cb_apply cfg now ev j s))" by simp
  show "budget cfg i (snd (cb_apply cfg now ev j s)) = budget cfg i s"
    using other by (intro failing_cong(2)) simp_all
qed

lemmas failing_success = failing_other [where ev = Success, simplified]

lemma failing_failure:
  assumes "failing_ok cfg i s" "cb_enabled cfg"
  shows "failing_ok cfg i (recordFailure cfg now j e s)"
    and "budget cfg i (recordFailure cfg now j e s) = budget cfg i s - of_bool (j = i)"
proof -
  have "failing_ok cfg i (recordFailure cfg now i e s) \<and> budget cfg i (recordFailure cfg now i e s) = budget cfg i s - 1"
  proof -
    have "cb_abs i (recordFailure cfg now i e s) = snd (spec_next cfg now (Failure e) (cb_abs i s))"
      using cb_apply_simulates [OF assms(2), of i now "Failure e" s] by (metis cb_apply.simps(3) snd_map_prod snd_conv)
    moreover have "cb_sync i (recordFailure cfg now i e s)"
      using cb_apply_sync [of i s cfg now "Failure e"] assms(1) by (simp add: failing_ok_def)
    ultimately show ?thesis
      using assms(1) by (auto simp: failing_ok_def budget_def split: cb_spec.splits)
  qed
  with failing_other [of j i cfg s now "Failure e"] assms(1)
  show "failing_ok cfg i (recordFailure cfg now j e s)"
    "budget cfg i (recordFailure cfg now j e s) = budget cfg i s - of_bool (j = i)" by (cases "j = i"; simp)+
qed

text \<open>The outcome of an attempt at \<open>i\<close> costs one of the budget.\<close>

lemma failing_error:
  assumes "handleProxyError cfg now ns rnd err req s = (e, req', s')" "failing_ok cfg i s" "cb_enabled cfg"
  shows "failing_ok cfg i s'" "budget cfg i s' = budget cfg i s - of_bool (targetBackend req = Some i)"
    "forwarded req' = forwarded req"
proof -
  have "s' = (case targetBackend req of None \<Rightarrow> collectProxyError now ns None (startTime req) s
      | Some j \<Rightarrow> recordFailure cfg now j err (collectProxyError now ns (Some j) (startTime req) s)) \<and>
      forwarded req' = forwarded req"
    using assms(1) [symmetric] unfolding handleProxyError_eq Let_def by (auto simp: reply_def split: if_splits option.splits)
  with assms(2,3) show "failing_ok cfg i s'" "budget cfg i s' = budget cfg i s - of_bool (targetBackend req = Some i)"
    "forwarded req' = forwarded req"
    by (auto simp: failing_failure split: option.splits)
qed

lemma failing_response:
  assumes "proxyRes cfg now ns c req s = (req', s')" "failing_ok cfg i s" "cb_enabled cfg"
    "targetBackend req = Some i \<longrightarrow> 500 \<le> c"
  shows "failing_ok cfg i s'" "budget cfg i s' = budget cfg i s - of_bool (targetBackend req = Some i)"
    "forwarded req' = forwarded req"
  using assms by (auto simp: proxyRes_def reply_def Let_def failing_failure failing_success split: option.splits if_splits)

lemma sent_to_simps [simp]:
  "sent_to i (req\<lparr>headersSent := h\<rparr>) = sent_to i req"
  "sent_to i (req\<lparr>attempts := n\<rparr>) = sent_to i req"
  "sent_to i (reply r req) = sent_to i req"
  "sent_to i (req\<lparr>forwarded := forwarded req @ [(j, hs)]\<rparr>) = sent_to i req + of_bool (j = i)"
  by (simp_all add: sent_to_def reply_def)

lemma failing_router:
  assumes "failing_ok cfg i s" "cb_enabled cfg" "routable s" "targetBackend req = None"
    and "router cfg md5 now req s = (u, req', s')"
  shows "failing_ok cfg i s'" "budget cfg i s' = budget cfg i s" "sent_to i req' = sent_to i req"
    "targetBackend req' = Some i \<Longrightarrow> 0 < budget cfg i s"
proof -
  note sel = failing_select [OF assms(1-3), of md5 now req "failedBackends req"]
  show "failing_ok cfg i s'" "budget cfg i s' = budget cfg i s" "sent_to i req' = sent_to i req"
    using assms(4,5) sel(1,2) by (auto simp: router_def sent_to_def split: prod.splits selection.splits)
  show "0 < budget cfg i s" if "targetBackend req' = Some i"
    using that assms(4,5) sel(3) by (auto simp: router_def split: prod.splits selection.splits)
qed

lemma proxyInstance_cases:
  assumes "proxyInstance cfg md5 no_target prev env req s = (e, req', s')"
    and "router cfg md5 (e_routed env) req s = (u, req1, s1)"
  obtains (Stay) "s' = s1" "forwarded req' = forwarded req1"
  | (Response) c q where "e_upstream env = UpResponse c" "proxyRes cfg (e_done env) (e_ns env) c q s1 = (req', s')"
      "targetBackend q = targetBackend req1" "sent_to i q = sent_to i req1 + of_bool (targetBackend req1 = Some i)"
  | (Error) err q where "handleProxyError cfg (e_done env) (e_ns env) (e_random env) err q s1 = (e, req', s')"
      "targetBackend q = targetBackend req1" "sent_to i q \<le> sent_to i req1 + of_bool (targetBackend req1 = Some i)"
proof (cases u)
  case (Target x)
  let ?q = "req1\<lparr>forwarded := forwarded req1 @ [(the (targetBackend req1), addProxyHeaders req1)]\<rparr>"
  have "targetBackend req1 \<noteq> None" using router_request [OF assms(2)] Target by simp
  then have q: "sent_to i ?q = sent_to i req1 + of_bool (targetBackend req1 = Some i)" by (auto simp: sent_to_def)
  show ?thesis
  proof (cases "e_upstream env")
    case (UpResponse c)
    have "proxyRes cfg (e_done env) (e_ns env) c ?q s1 = (req', s')"
      using assms by (simp add: proxyInstance_def Target UpResponse Let_def case_prod_unfold prod_eq_iff)
    with q UpResponse show ?thesis by (intro Response [of c ?q]) simp_all
  next
    case (UpError err sent)
    have "handleProxyError cfg (e_done env) (e_ns env) (e_random env) err (?q\<lparr>headersSent := headersSent ?q \<or> sent\<rparr>) s1 =
        (e, req', s')"
      using assms by (simp add: proxyInstance_def Target UpError Let_def)
    with q show ?thesis by (intro Error [of err "?q\<lparr>headersSent := headersSent ?q \<or> sent\<rparr>"]) simp_all
  qed
next
  case NoTarget
  show ?thesis
  proof (cases no_target)
    case None
    with assms NoTarget show ?thesis by (intro Stay) (simp_all add: proxyInstance_def)
  next
    case (Some err)
    with assms NoTarget show ?thesis by (intro Error [of err req1]) (simp_all add: proxyInstance_def)
  qed
next
  case RouterThrows
  with assms show ?thesis
    by (intro Stay) (auto simp: proxyInstance_def reply_def split: option.splits if_splits)
qed

lemma failing_pass:
  assumes "failing_ok cfg i s" "cb_enabled cfg" "routable s" "targetBackend req = None"
    and "proxyInstance cfg md5 no_target prev env req s = (e, req', s')"
    and "targetBackend (fst (snd (router cfg md5 (e_routed env) req s))) = Some i \<longrightarrow> failing (e_upstream env)"
  shows "failing_ok cfg i s' \<and> sent_to i req' + budget cfg i s' \<le> sent_to i req + budget cfg i s"
proof -
  obtain u req1 s1 where r: "router cfg md5 (e_routed env) req s = (u, req1, s1)" by (metis prod_cases3)
  note f = failing_router [OF assms(1-4) r]
  show ?thesis
  proof (cases rule: proxyInstance_cases [OF assms(5) r, where i = i, case_names Stay Response Error])
    case Stay
    with f show ?thesis by (simp add: sent_to_def)
  next
    case (Response c q)
    have "targetBackend q = Some i \<longrightarrow> 500 \<le> c" using assms(6) Response by (simp add: r failing_def)
    from failing_response [OF Response(2) f(1) assms(2) this] f(2-4) Response(3,4) show ?thesis
      by (auto simp: sent_to_def)
  next
    case (Error err q)
    from failing_error [OF Error(1) f(1) assms(2)] f(2-4) Error(2,3) show ?thesis by (auto simp: sent_to_def)
  qed
qed

text \<open>Members and strategy indices stay usable through a request.\<close>

abbreviation member_view :: "backend \<Rightarrow> backend_id \<times> string" where
  "member_view b \<equiv> (bid b, url b)"

lemma wf_pool_ok: "well_formed member_view ms s \<Longrightarrow> distinct (map fst ms) \<Longrightarrow> pool_ok s"
  by (auto simp: well_formed_def pool_ok_def comp_def)

lemma wf_pass:
  assumes "well_formed member_view ms s" "distinct (map fst ms)" "proxyInstance cfg md5 no_target prev env req s = (e, req', s')"
  shows "well_formed member_view ms s'"
proof -
  obtain u req1 s1 where r: "router cfg md5 (e_routed env) req s = (u, req1, s1)" by (metis prod_cases3)
  have s1: "well_formed member_view ms s1"
    using identity.wf_router [OF assms(1) wf_pool_ok [OF assms(1,2)], of cfg md5 "e_routed env" req] r by simp
  show ?thesis
  proof (cases rule: proxyInstance_cases [OF assms(3) r, where i = "[]", case_names Stay Response Error])
    case (Response c q)
    with identity.wf_proxy(2) [OF s1, of cfg "e_done env" "e_ns env" c q] show ?thesis by simp
  next
    case (Error err q)
    with identity.wf_proxy(1) [OF s1, of cfg "e_done env" "e_ns env" "e_random env" err q] show ?thesis by simp
  qed (use s1 in simp)
qed

lemma failing_run:
  assumes "failing_ok cfg i s" "cb_enabled cfg" "well_formed member_view ms s" "distinct (map fst ms)"
    and "targetBackend req = None" "\<not> headersSent req"
    and "proxy_run cfg md5 no_target prev envs req s = (fin, req', s')" "fails_at i cfg md5 no_target prev envs req s"
  shows "failing_ok cfg i s' \<and> well_formed member_view ms s' \<and>
    sent_to i req' + budget cfg i s' \<le> sent_to i req + budget cfg i s"
  using assms(1,3,5-8)
proof (induction envs arbitrary: prev req s)
  case (Cons env envs)
  obtain e req1 s1 where pass: "proxyInstance cfg md5 no_target prev env req s = (e, req1, s1)"
    by (metis prod_cases3)
  have "routable s" by (rule identity.well_formed_routable [OF Cons.prems(2) wf_pool_ok [OF Cons.prems(2) assms(4)]])
  note step = failing_pass [OF Cons.prems(1) assms(2) this Cons.prems(3) pass] wf_pass [OF Cons.prems(2) assms(4) pass]
  show ?case
  proof (cases e)
    case (Retry d b)
    from proxyInstance_pass [OF pass Cons.prems(4)] Retry have "targetBackend req1 = None" "\<not> headersSent req1"
      by (auto simp: pass_ok_def)
    with Cons.IH [of s1 req1 "Some b"] Cons.prems(5,6) pass Retry step show ?thesis by auto
  next
    case Finished
    with Cons.prems(5,6) pass step show ?thesis by auto
  qed
qed simp

lemma failing_all:
  assumes "failing_ok cfg i s" "cb_enabled cfg" "well_formed member_view ms s" "distinct (map fst ms)"
    and "\<forall>(envs, req) \<in> set rs. targetBackend req = None \<and> \<not> headersSent req \<and> forwarded req = []"
    and "proxy_all cfg md5 no_target rs s = (reqs, s')" "all_fail_at i cfg md5 no_target rs s"
  shows "failing_ok cfg i s' \<and> sum_list (map (sent_to i) reqs) + budget cfg i s' \<le> budget cfg i s"
  using assms(1,3,5-)
proof (induction rs arbitrary: s reqs)
  case (Cons r rs)
  obtain envs req where r: "r = (envs, req)" by fastforce
  obtain fin req1 s1 where p: "proxyMiddlewareWithRetry cfg md5 no_target envs req s = (fin, req1, s1)" by (metis prod_cases3)
  obtain reqs1 where q: "proxy_all cfg md5 no_target rs s1 = (reqs1, s')" "reqs = req1 # reqs1"
    using Cons.prems(4) by (auto simp: r p split: prod.splits)
  let ?req = "req\<lparr>attempts := (if attempts req = 0 then 1 else attempts req)\<rparr>"
  have req: "targetBackend ?req = None" "\<not> headersSent ?req" "sent_to i req = 0"
    using Cons.prems(3) by (auto simp: r sent_to_def)
  have run: "proxy_run cfg md5 no_target None envs ?req s = (fin, req1, s1)"
    using p by (simp add: proxyMiddlewareWithRetry_def)
  have "fails_at i cfg md5 no_target None envs ?req s" using Cons.prems(5) by (simp add: r)
  note one = failing_run [OF Cons.prems(1) assms(2) Cons.prems(2) assms(4) req(1,2) run this]
  have "failing_ok cfg i s' \<and> sum_list (map (sent_to i) reqs1) + budget cfg i s' \<le> budget cfg i s1"
    using one Cons.prems(3,5) q(1) by (intro Cons.IH) (auto simp: r p)
  with one q(2) req(3) show ?case by simp
qed simp

text \<open>In particular when no attempt anywhere succeeds.\<close>

lemma fails_at_failing: "list_all (\<lambda>env. failing (e_upstream env)) envs \<Longrightarrow> fails_at i cfg md5 no_target prev envs req s"
  by (induction envs arbitrary: prev req s) (auto split: prod.split attempt_end.split)

lemma all_fail_at_failing:
  "list_all (\<lambda>(envs, req). list_all (\<lambda>env. failing (e_upstream env)) envs) rs \<Longrightarrow> all_fail_at i cfg md5 no_target rs s"
  by (induction rs arbitrary: s) (auto simp: fails_at_failing)


definition demo_broken :: "(attempt_env list \<times> proxy_req) list" where
  "demo_broken = replicate 9 ([demo_env (UpError ''ECONNREFUSED'' False), demo_env (UpResponse 503), demo_env (UpResponse 503)], demo_preq)"


end
