(* ===== verification/Observability.thy ===== *)
theory Observability
  imports Upstream
begin

text \<open>
  What the gateway tells about a request: the trace context and the logger (\<^verbatim>\<open>src/observability/traceContext.js\<close>,
  \<^verbatim>\<open>src/observability/logger.js\<close>), the access log (\<^verbatim>\<open>src/middleware/requestLogger.js\<close>) and the response timer
  (\<^verbatim>\<open>src/middleware/responseTimer.js\<close>). Winston and Morgan are libraries: their colours, clocks, JSON text, level
  numbers and built-in tokens are arguments.
\<close>

section \<open>The trace context\<close>

text \<open>The store of the current execution: \<open>None\<close> outside every request.\<close>

type_synonym trace_context = "string option"

definition getCorrelationId :: "trace_context \<Rightarrow> string option" where
  "getCorrelationId store = (case store of Some cid \<Rightarrow> Some cid | None \<Rightarrow> None)"

definition runWithContext :: "string \<Rightarrow> (trace_context \<Rightarrow> 'a) \<Rightarrow> 'a" where
  "runWithContext cid callback = callback (Some cid)"

text \<open>The header that \<open>correlationIdMiddleware\<close> sets on the response to the client.\<close>

definition correlated_headers :: "'r proxy_req_scheme \<Rightarrow> (string \<times> js_value) list \<Rightarrow> (string \<times> js_value) list" where
  "correlated_headers req hs = setHeader ''x-correlation-id'' (JStr (the (correlationId req))) hs"

section \<open>The logger\<close>

record log_info =
  li_level :: string
  li_message :: string
  li_meta :: "(string \<times> js_value) list"

record log_style =
  ls_paint :: "string \<Rightarrow> string \<Rightarrow> string"
  ls_stamp :: string
  ls_json :: "(string \<times> js_value) list \<Rightarrow> string"

definition defaultMeta :: "(string \<times> js_value) list" where
  "defaultMeta = [(''service'', JStr ''sentinel-adc'')]"

definition correlationFormat :: "trace_context \<Rightarrow> log_info \<Rightarrow> log_info" where
  "correlationFormat ctx info =
     (let cid = getCorrelationId ctx
      in if truthy_str cid then info\<lparr>li_meta := AList.update ''correlationId'' (JStr (the cid)) (li_meta info)\<rparr> else info)"

text \<open>
  One call of the logger or of a child logger: Winston merges the child's metadata, those of the logger and those of
  the call, later ones overriding; no call of the gateway passes a field \<open>message\<close>.
\<close>

definition assign :: "(string \<times> js_value) list \<Rightarrow> (string \<times> js_value) list \<Rightarrow> (string \<times> js_value) list" where
  "assign xs ys = AList.updates (map fst ys) (map snd ys) xs"

definition log_entry ::
  "trace_context \<Rightarrow> (string \<times> js_value) list \<Rightarrow> string \<Rightarrow> string \<Rightarrow> (string \<times> js_value) list \<Rightarrow> log_info" where
  "log_entry ctx child level message meta =
     correlationFormat ctx \<lparr>li_level = level, li_message = message, li_meta = assign (assign child defaultMeta) meta\<rparr>"

definition text_of :: "js_value option \<Rightarrow> string option" where
  "text_of v = (case v of Some (JStr t) \<Rightarrow> if t \<noteq> [] then Some t else None | _ \<Rightarrow> None)"

text \<open>The development format: level and message are painted, the rest of the metadata follows as JSON.\<close>

definition devFormat :: "log_style \<Rightarrow> log_info \<Rightarrow> string" where
  "devFormat w info =
     (let cid = text_of (map_of (li_meta info) ''correlationId'');
          stack = text_of (map_of (li_meta info) ''stack'');
          meta = filter (\<lambda>(k, v). k \<notin> {''correlationId'', ''stack''}) (li_meta info);
          traceStr = (case cid of Some c \<Rightarrow> '' | trace:'' @ c | None \<Rightarrow> []);
          metaStr = (if meta \<noteq> [] then '' '' @ ls_json w meta else []);
          stackStr = (case stack of Some t \<Rightarrow> CHR 0x0A # t | None \<Rightarrow> [])
      in ls_stamp w @ '' ['' @ ls_paint w (li_level info) (li_level info) @ '']'' @ traceStr @ '' - '' @
         ls_paint w (li_level info) (li_message info) @ metaStr @ stackStr)"

definition prodFormat :: "log_style \<Rightarrow> log_info \<Rightarrow> string" where
  "prodFormat w info =
     ls_json w ([(''level'', JStr (li_level info)), (''message'', JStr (li_message info))] @ li_meta info @
                [(''timestamp'', JStr (ls_stamp w))])"

text \<open>Where an entry goes; a transport without a level of its own uses the configured one.\<close>

record transport =
  tr_filename :: "string option"
  tr_level :: "string option"
  tr_maxsize :: nat
  tr_maxFiles :: nat

definition transports :: "bool \<Rightarrow> transport list" where
  "transports isProd =
     \<lparr>tr_filename = None, tr_level = None, tr_maxsize = 0, tr_maxFiles = 0\<rparr> #
     (if isProd then
        [\<lparr>tr_filename = Some ''logs/error.log'', tr_level = Some ''error'', tr_maxsize = 10 * 1024 * 1024, tr_maxFiles = 5\<rparr>,
         \<lparr>tr_filename = Some ''logs/combined.log'', tr_level = None, tr_maxsize = 10 * 1024 * 1024, tr_maxFiles = 10\<rparr>]
      else [])"

text \<open>\<open>levels\<close> numbers the levels, the most severe 0; a comparison with an unknown level is false.\<close>

definition accepts :: "(string \<Rightarrow> nat option) \<Rightarrow> string \<Rightarrow> string \<Rightarrow> transport \<Rightarrow> bool" where
  "accepts levels configured level t =
     (case (levels (the (or_else (tr_level t) (Some configured))), levels level) of
        (Some limit, Some n) \<Rightarrow> n \<le> limit
      | _ \<Rightarrow> False)"

definition written :: "(string \<Rightarrow> nat option) \<Rightarrow> bool \<Rightarrow> string \<Rightarrow> log_info \<Rightarrow> string option list" where
  "written levels isProd configured info = map tr_filename (filter (accepts levels configured (li_level info)) (transports isProd))"

text \<open>
  An unknown \<open>LOG_LEVEL\<close> silences the console and \<^verbatim>\<open>combined.log\<close>; only errors are kept, and only in production.
\<close>

lemma unknown_log_level:
  assumes "levels configured = None" "configured \<noteq> []" "levels ''error'' = Some 0"
  shows "written levels isProd configured info =
    (if isProd \<and> levels (li_level info) = Some 0 then [Some ''logs/error.log''] else [])"
  using assms by (auto simp: written_def transports_def accepts_def split: option.split)

text \<open>Every entry of \<^verbatim>\<open>error.log\<close> is in \<^verbatim>\<open>combined.log\<close> and on the console.\<close>

lemma error_log_included:
  assumes "levels ''error'' = Some 0" "levels configured = Some n" "configured \<noteq> []"
    "Some ''logs/error.log'' \<in> set (written levels isProd configured info)"
  shows "written levels isProd configured info = [None, Some ''logs/error.log'', Some ''logs/combined.log'']"
  using assms by (auto simp: written_def transports_def accepts_def split: option.splits if_splits)

section \<open>The access log\<close>

text \<open>Morgan's tokens, where \<open>None\<close> is shown as a dash, and the three of the gateway; \<open>resHeader\<close> is \<open>res.getHeader\<close>.\<close>

datatype format_item = Literal string | Token string

definition FORMAT :: "format_item list" where
  "FORMAT = [Token ''method'', Literal '' '', Token ''url'', Literal '' '', Token ''status'', Literal '' '',
     Token ''response-time'', Literal '' ms | rid:'', Token ''request-id'', Literal '' | be:'', Token ''backend'',
     Literal '' | cache:'', Token ''cache'']"

definition custom_tokens :: "'q request_scheme \<Rightarrow> (string \<Rightarrow> string option) \<Rightarrow> (string \<times> string option) list" where
  "custom_tokens req resHeader =
     [(''request-id'', or_else (header req ''x-request-id'') (Some ''-'')),
      (''backend'', or_else (header req ''x-backend-id'') (Some ''-'')),
      (''cache'', or_else (resHeader ''x-cache'') (Some ''-''))]"

fun format_item_text :: "(string \<Rightarrow> string option) \<Rightarrow> format_item \<Rightarrow> string" where
  "format_item_text tok (Literal t) = t"
| "format_item_text tok (Token n) = (case tok n of Some v \<Rightarrow> v | None \<Rightarrow> ''-'')"

definition access_line ::
  "(string \<Rightarrow> string option) \<Rightarrow> 'q request_scheme \<Rightarrow> (string \<Rightarrow> string option) \<Rightarrow> string" where
  "access_line morgan req resHeader =
     (let tok = (\<lambda>n. case map_of (custom_tokens req resHeader) n of Some v \<Rightarrow> v | None \<Rightarrow> morgan n)
      in concat (map (format_item_text tok) FORMAT))"

text \<open>The stream that feeds Winston.\<close>

definition stream_write :: "trace_context \<Rightarrow> string \<Rightarrow> log_info" where
  "stream_write ctx message = log_entry ctx [] ''info'' (js_trim message) [(''module'', JStr ''http'')]"

section \<open>The response timer\<close>

text \<open>
  The response as the timer sees it. Node sends the headers with the first write, or with \<open>end\<close>; setting a header
  afterwards throws. A call carries the nanosecond clock.
\<close>

record timed_res =
  rs_headers :: "(string \<times> js_value) list"
  rs_headersSent :: bool
  rs_ended :: bool
  rs_startTime :: int
  rs_responseTime :: "rat option"

datatype res_call = SetHeader string js_value | Write string | End | Finish

definition responseTimer :: "int \<Rightarrow> (string \<times> js_value) list \<Rightarrow> timed_res" where
  "responseTimer ns hs =
     \<lparr>rs_headers = hs, rs_headersSent = False, rs_ended = False, rs_startTime = ns, rs_responseTime = None\<rparr>"

text \<open>\<open>X-Response-Time\<close> is the number without its unit.\<close>

fun timed_call :: "int \<Rightarrow> res_call \<Rightarrow> timed_res \<Rightarrow> timed_res option" where
  "timed_call ns (SetHeader n v) r =
     (if rs_headersSent r then None else Some (r\<lparr>rs_headers := setHeader n v (rs_headers r)\<rparr>))"
| "timed_call ns (Write chunk) r = Some (r\<lparr>rs_headersSent := True\<rparr>)"
| "timed_call ns End r =
     (let duration = elapsedMs ns (rs_startTime r);
          r = (if \<not> rs_headersSent r then r\<lparr>rs_headers := setHeader ''X-Response-Time'' (JNum duration) (rs_headers r)\<rparr> else r)
      in Some (r\<lparr>rs_headersSent := True, rs_ended := True\<rparr>))"
| "timed_call ns Finish r = Some (r\<lparr>rs_responseTime := Some (elapsedMs ns (rs_startTime r))\<rparr>)"

fun timed_calls :: "(int \<times> res_call) list \<Rightarrow> timed_res \<Rightarrow> timed_res option" where
  "timed_calls [] r = Some r"
| "timed_calls ((ns, c) # cs) r = Option.bind (timed_call ns c r) (timed_calls cs)"

text \<open>A body in one piece (\<open>res.send\<close>, \<open>res.json\<close>), and one piped from a backend.\<close>

definition send_calls :: "int \<Rightarrow> (string \<times> js_value) list \<Rightarrow> (int \<times> res_call) list" where
  "send_calls ns hs = map (\<lambda>(n, v). (ns, SetHeader n v)) hs @ [(ns, End)]"

definition pipe_calls :: "(string \<times> js_value) list \<Rightarrow> (int \<times> string) list \<Rightarrow> int \<Rightarrow> (int \<times> res_call) list" where
  "pipe_calls hs chunks ns = map (\<lambda>(n, v). (ns, SetHeader n v)) hs @ map (\<lambda>(t, c). (t, Write c)) chunks @ [(ns, End)]"

lemma timed_calls_append:
  "timed_calls (as @ bs) r = Option.bind (timed_calls as r) (timed_calls bs)"
  by (induction as arbitrary: r) (auto split: bind_split)

lemma timed_sets:
  "\<not> rs_headersSent r \<Longrightarrow>
   timed_calls (map (\<lambda>(n, v). (ns, SetHeader n v)) hs) r =
     Some (r\<lparr>rs_headers := fold (\<lambda>(n, v). setHeader n v) hs (rs_headers r)\<rparr>)"
  by (induction hs arbitrary: r) auto

lemma timed_writes:
  "timed_calls (map (\<lambda>(t, c). (t, Write c)) chunks) r =
     Some (if chunks = [] then r else r\<lparr>rs_headersSent := True\<rparr>)"
  by (induction chunks arbitrary: r) auto

definition given_headers :: "(string \<times> js_value) list \<Rightarrow> (string \<times> js_value) list \<Rightarrow> (string \<times> js_value) list" where
  "given_headers hs hs0 = fold (\<lambda>(n, v). setHeader n v) hs hs0"

text \<open>
  Which responses carry \<open>X-Response-Time\<close>. One sent in a piece always does, with the time since the request
  came in, overriding a header of that name. One piped from a backend does exactly when its body is empty:
  the headers have left with the first chunk, and the client sees at most what the backend itself had set.
\<close>

theorem response_time_header:
  "map_option (\<lambda>r. (map_of (rs_headers r) ''x-response-time'', rs_ended r))
     (timed_calls (send_calls t hs) (responseTimer t0 hs0)) = Some (Some (JNum (elapsedMs t t0)), True) \<and>
   map_option (\<lambda>r. (map_of (rs_headers r) ''x-response-time'', rs_ended r))
     (timed_calls (pipe_calls hs chunks t) (responseTimer t0 hs0)) =
     Some (if chunks = [] then Some (JNum (elapsedMs t t0)) else map_of (given_headers hs hs0) ''x-response-time'', True)"
proof -
  have low: "js_lower ''X-Response-Time'' = ''x-response-time''" by code_simp
  have sets: "timed_calls (map (\<lambda>(n, v). (t, SetHeader n v)) hs) (responseTimer t0 hs0) =
      Some ((responseTimer t0 hs0)\<lparr>rs_headers := given_headers hs hs0\<rparr>)"
    by (simp add: timed_sets responseTimer_def given_headers_def)
  show ?thesis
    by (simp add: send_calls_def pipe_calls_def timed_calls_append sets timed_writes) (simp add: responseTimer_def setHeader_def low update_conv' Let_def)
qed

section \<open>One identifier for the whole request\<close>

lemma router_part: "proxy_part (fst (snd (router cfg md5 now req s))) = proxy_part req"
  by (auto simp: router_def proxy_part_def split: option.split prod.split selection.split)

lemma error_part:
  "proxy_part (fst (snd (handleProxyError cfg now ns rnd err req s))) = proxy_part req \<and>
   forwarded (fst (snd (handleProxyError cfg now ns rnd err req s))) = forwarded req"
  unfolding handleProxyError_eq Let_def by (auto simp: proxy_part_def reply_def)

lemma response_part:
  "proxy_part (fst (proxyRes cfg now ns c req s)) = proxy_part req \<and> forwarded (fst (proxyRes cfg now ns c req s)) = forwarded req"
  by (simp add: proxyRes_def Let_def proxy_part_def reply_def)

definition same_headers :: "'r proxy_req_scheme \<Rightarrow> 'r proxy_req_scheme \<Rightarrow> bool" where
  "same_headers req0 req \<longleftrightarrow> proxy_part req = proxy_part req0 \<and> list_all (\<lambda>(i, hs). hs = addProxyHeaders req0) (forwarded req)"

lemma same_headers_pass:
  assumes "same_headers req0 req" "proxyInstance cfg md5 no_target prev env req s = (e, req', s')"
  shows "same_headers req0 req'"
proof -
  obtain u req1 s1 where r: "router cfg md5 (e_routed env) req s = (u, req1, s1)" by (metis prod_cases3)
  have one: "same_headers req0 req1"
    using assms(1) router_part [of cfg md5 "e_routed env" req s] router_request [OF r] by (simp add: same_headers_def r)
  let ?q = "req1\<lparr>forwarded := forwarded req1 @ [(the (targetBackend req1), addProxyHeaders req1)]\<rparr>"
  have two: "same_headers req0 ?q"
    using one addProxyHeaders_part [of req1 req0] by (simp add: same_headers_def proxy_part_def)
  have upd: "same_headers req0 (q\<lparr>headersSent := h\<rparr>) = same_headers req0 q"
    "same_headers req0 (reply rp q) = same_headers req0 q" for q h rp
    by (simp_all add: same_headers_def proxy_part_def reply_def)
  have err: "same_headers req0 (fst (snd (handleProxyError cfg now ns rnd er q t)))" if "same_headers req0 q" for now ns rnd er q t
    using that error_part [of cfg now ns rnd er q t] by (simp add: same_headers_def)
  have res: "same_headers req0 (fst (proxyRes cfg now ns c q t))" if "same_headers req0 q" for now ns c q t
    using that response_part [of cfg now ns c q t] by (simp add: same_headers_def)
  show ?thesis
  proof (cases u)
    case (Target x)
    show ?thesis
    proof (cases "e_upstream env")
      case (UpResponse c)
      have "req' = fst (proxyRes cfg (e_done env) (e_ns env) c ?q s1)"
        using assms(2) by (simp add: proxyInstance_def r Target UpResponse Let_def case_prod_unfold prod_eq_iff)
      then show ?thesis using res [OF two] by simp
    next
      case (UpError er sent)
      have "req' = fst (snd (handleProxyError cfg (e_done env) (e_ns env) (e_random env) er
          (?q\<lparr>headersSent := headersSent ?q \<or> sent\<rparr>) s1))"
        using assms(2) by (simp add: proxyInstance_def r Target UpError Let_def)
      then show ?thesis using err [of "?q\<lparr>headersSent := headersSent ?q \<or> sent\<rparr>"] two by (simp add: upd del: proxy_req.simps)
    qed
  next
    case NoTarget
    show ?thesis
    proof (cases no_target)
      case None
      then show ?thesis using assms(2) one by (simp add: proxyInstance_def r NoTarget)
    next
      case (Some er)
      have "req' = fst (snd (handleProxyError cfg (e_done env) (e_ns env) (e_random env) er req1 s1))"
        using assms(2) by (simp add: proxyInstance_def r NoTarget Some)
      then show ?thesis using err [OF one] by simp
    qed
  next
    case RouterThrows
    then show ?thesis using assms(2) one upd by (auto simp: proxyInstance_def r split: option.splits if_splits)
  qed
qed

lemma same_headers_run:
  "same_headers req0 req \<Longrightarrow> proxy_run cfg md5 no_target prev envs req s = (fin, req', s') \<Longrightarrow> same_headers req0 req'"
proof (induction envs arbitrary: prev req s)
  case (Cons env envs)
  obtain e req1 s1 where pass: "proxyInstance cfg md5 no_target prev env req s = (e, req1, s1)"
    by (metis prod_cases3)
  from same_headers_pass [OF Cons.prems(1) pass] Cons pass show ?case by (cases e) auto
qed simp

text \<open>
  C39: one identifier for the whole request. The id the client sent, or a new one if it sent none, is set on
  the response as the request enters, on every forwarded attempt, retries included, and in every log entry written
  in the request's context.
\<close>

theorem correlation_end_to_end:
  assumes "proxyMiddlewareWithRetry cfg md5 no_target envs (correlationIdMiddleware uuid req) s = (fin, req', s')"
    and "uuid \<noteq> []" "forwarded req = []"
  shows "\<exists>cid. cid \<noteq> [] \<and>
           (cid = uuid \<or> header req ''x-correlation-id'' = Some cid \<or> header req ''x-request-id'' = Some cid) \<and>
           map_of (correlated_headers (correlationIdMiddleware uuid req) hs) ''x-correlation-id'' = Some (JStr cid) \<and>
           list_all (\<lambda>(i, sent). map_of sent ''x-correlation-id'' = Some cid) (forwarded req') \<and>
           (\<forall>child level message meta. map_of (li_meta (runWithContext cid (\<lambda>ctx. log_entry ctx child level message meta)))
              ''correlationId'' = Some (JStr cid))"
proof -
  let ?req = "correlationIdMiddleware uuid req"
  define cid where "cid = the (correlationId ?req)"
  have t: "truthy_str v \<longleftrightarrow> (\<exists>c cs. v = Some (c # cs))" for v
    by (cases v; cases "the v") auto
  have cid: "correlationId ?req = Some cid" "cid \<noteq> []"
      "cid = uuid \<or> header req ''x-correlation-id'' = Some cid \<or> header req ''x-request-id'' = Some cid"
    using assms(2) by (auto simp: cid_def correlationIdMiddleware_def or_else_def t split: if_splits)
  have "same_headers ?req (?req\<lparr>attempts := (if attempts ?req = 0 then 1 else attempts ?req)\<rparr>)"
    using assms(3) by (simp add: same_headers_def proxy_part_def correlationIdMiddleware_def)
  from same_headers_run [OF this] assms(1) have "same_headers ?req req'"
    by (simp add: proxyMiddlewareWithRetry_def)
  moreover have "map_of (addProxyHeaders ?req) ''x-correlation-id'' = Some cid"
    using cid(1,2) by (cases cid) (simp_all add: addProxyHeaders_def Let_def)
  ultimately have "list_all (\<lambda>(i, sent). map_of sent ''x-correlation-id'' = Some cid) (forwarded req')"
    by (auto simp: same_headers_def list_all_iff)
  moreover have "js_lower ''x-correlation-id'' = ''x-correlation-id''" by code_simp
  then have "map_of (correlated_headers ?req hs) ''x-correlation-id'' = Some (JStr cid)"
    by (simp add: correlated_headers_def setHeader_def cid(1) update_conv')
  moreover have "map_of (li_meta (runWithContext cid (\<lambda>ctx. log_entry ctx child level message meta))) ''correlationId'' = Some (JStr cid)"
    for child level message meta
    using cid(2) by (cases cid) (simp_all add: runWithContext_def log_entry_def correlationFormat_def getCorrelationId_def update_conv')
  ultimately show ?thesis using cid(2,3) by blast
qed

theorem correlation_end_to_end_witness:
  "case proxyMiddlewareWithRetry demo_cfg demo_md5 None demo_envs (correlationIdMiddleware ''u-1'' demo_preq) demo_rt of
     (fin, req', s') \<Rightarrow> \<exists>cid. list_all (\<lambda>(i, sent). map_of sent ''x-correlation-id'' = Some cid) (forwarded req')"
proof -
  obtain fin req' s' where
    run: "proxyMiddlewareWithRetry demo_cfg demo_md5 None demo_envs (correlationIdMiddleware ''u-1'' demo_preq) demo_rt = (fin, req', s')"
    by (metis prod_cases3)
  have "forwarded demo_preq = []" by (simp add: demo_preq_def proxy_req.defs request.defs)
  from correlation_end_to_end [OF run _ this, of "[]"] show ?thesis by (auto simp: run)
qed

section \<open>What the access log does not say\<close>

text \<open>
  The backend column repeats a header of the client's request: the member that served it, named in the response
  headers, does not appear, whatever the outcome of the proxying.
\<close>

lemma same_line:
  assumes "headers req = headers req'" "resHeader ''x-cache'' = resHeader' ''x-cache''"
  shows "access_line morgan req resHeader = access_line morgan req' resHeader'"
  using assms by (simp add: access_line_def custom_tokens_def header_def)

lemma access_line_blind:
  assumes "proxyMiddlewareWithRetry cfg md5 no_target envs req s = (fin, req', s')" "forwarded req = []"
    and "resHeader ''x-cache'' = resHeader' ''x-cache''"
  shows "access_line morgan req' resHeader = access_line morgan req resHeader'"
proof -
  have "same_headers req (req\<lparr>attempts := (if attempts req = 0 then 1 else attempts req)\<rparr>)"
    using assms(2) by (simp add: same_headers_def proxy_part_def)
  from same_headers_run [OF this] assms(1) have "same_headers req req'" by (simp add: proxyMiddlewareWithRetry_def)
  then show ?thesis using assms(3) by (intro same_line) (simp_all add: same_headers_def proxy_part_def)
qed

end
