(* ===== verification/Dashboard.thy ===== *)
theory Dashboard
  imports Gateway
begin

text \<open>
  The management console \<^verbatim>\<open>dashboard/src/App.tsx\<close>: its state, the handlers that talk to the gateway, and the
  route table of \<^verbatim>\<open>src/app.js\<close> with the routers it mounts, so that what the console asks for can be compared
  with what the gateway serves. The network is a parameter: a function from requests to answers, whose bodies are
  JSON. Handlers run one after the other. What the screens show is in \<open>ConsoleView\<close>; the clock prefix of a log line is added
  there.
\<close>

section \<open>The route table\<close>

datatype segment = Fixed string | Param

text \<open>Method and path of every route of the API, in the order the routers are mounted.\<close>

definition api_routes :: "(string \<times> segment list) list" where
  "api_routes =
     [(''GET'', [Fixed ''api'', Fixed ''status'']),
      (''GET'', [Fixed ''api'', Fixed ''status'', Fixed ''ping'']),
      (''GET'', [Fixed ''api'', Fixed ''admin'', Fixed ''algorithm'']),
      (''PUT'', [Fixed ''api'', Fixed ''admin'', Fixed ''algorithm'']),
      (''GET'', [Fixed ''api'', Fixed ''admin'', Fixed ''backends'']),
      (''PUT'', [Fixed ''api'', Fixed ''admin'', Fixed ''backends'', Param, Fixed ''weight'']),
      (''POST'', [Fixed ''api'', Fixed ''admin'', Fixed ''backends'', Param, Fixed ''drain'']),
      (''POST'', [Fixed ''api'', Fixed ''admin'', Fixed ''backends'', Param, Fixed ''undrain'']),
      (''GET'', [Fixed ''api'', Fixed ''health'']),
      (''GET'', [Fixed ''api'', Fixed ''health'', Param]),
      (''POST'', [Fixed ''api'', Fixed ''health'', Param, Fixed ''override'']),
      (''GET'', [Fixed ''api'', Fixed ''metrics'']),
      (''GET'', [Fixed ''api'', Fixed ''metrics'', Param]),
      (''GET'', [Fixed ''api'', Fixed ''cache'', Fixed ''stats'']),
      (''DELETE'', [Fixed ''api'', Fixed ''cache'']),
      (''DELETE'', [Fixed ''api'', Fixed ''cache'', Fixed ''invalidate'']),
      (''POST'', [Fixed ''api'', Fixed ''security'', Fixed ''login'']),
      (''GET'', [Fixed ''api'', Fixed ''security'', Fixed ''events'']),
      (''DELETE'', [Fixed ''api'', Fixed ''security'', Fixed ''events'']),
      (''GET'', [Fixed ''api'', Fixed ''security'', Fixed ''blocklist'']),
      (''POST'', [Fixed ''api'', Fixed ''security'', Fixed ''blocklist'']),
      (''DELETE'', [Fixed ''api'', Fixed ''security'', Fixed ''blocklist'', Param]),
      (''GET'', [Fixed ''api'', Fixed ''security'', Fixed ''anomalies'']),
      (''POST'', [Fixed ''api'', Fixed ''security'', Fixed ''anomalies'', Fixed ''config'']),
      (''DELETE'', [Fixed ''api'', Fixed ''security'', Fixed ''anomalies'']),
      (''GET'', [Fixed ''api'', Fixed ''analytics'', Fixed ''realtime'']),
      (''GET'', [Fixed ''api'', Fixed ''analytics'', Fixed ''historical'']),
      (''GET'', [Fixed ''api'', Fixed ''analytics'', Fixed ''backends'']),
      (''GET'', [Fixed ''api'', Fixed ''resilience'', Fixed ''circuit-breakers'']),
      (''POST'', [Fixed ''api'', Fixed ''resilience'', Fixed ''circuit-breakers'', Fixed ''reset'']),
      (''POST'', [Fixed ''api'', Fixed ''resilience'', Fixed ''circuit-breakers'', Fixed ''reset-all''])]"

text \<open>
  Express matches fixed segments without regard to case, allows one trailing slash, lets a parameter stand
  for any non-empty segment, and serves \<open>HEAD\<close> with the \<open>GET\<close> route.
\<close>

definition segments :: "string \<Rightarrow> string list" where
  "segments target =
     (let parts = js_split (CHR ''/'') (takeWhile (\<lambda>c. c \<noteq> CHR ''?'') target)
      in if 2 < length parts \<and> last parts = [] then butlast parts else parts)"

fun match_segments :: "segment list \<Rightarrow> string list \<Rightarrow> bool" where
  "match_segments [] [] = True"
| "match_segments (Fixed f # ss) (p # ps) \<longleftrightarrow> js_lower p = f \<and> match_segments ss ps"
| "match_segments (Param # ss) (p # ps) \<longleftrightarrow> p \<noteq> [] \<and> match_segments ss ps"
| "match_segments _ _ = False"

definition serves :: "string \<Rightarrow> string \<Rightarrow> bool" where
  "serves meth target =
     list_ex (\<lambda>(m, ss). (m = meth \<or> m = ''GET'' \<and> meth = ''HEAD'') \<and>
                         (case segments target of r # ps \<Rightarrow> r = [] \<and> match_segments ss ps | [] \<Rightarrow> False))
       api_routes"

section \<open>The state of the console\<close>

text \<open>What comes from the gateway is whatever JSON it sent.\<close>

record dashboard =
  token :: "string option"
  stored_jwt :: "string option"
  loginError :: string
  gatewayOnline :: bool
  d_algorithm :: js_value
  d_backends :: js_value
  telemetry :: js_value
  historicalTimeline :: js_value
  backendStats :: js_value
  wafLogs :: js_value
  d_blockedIps :: js_value
  targetBlockIp :: string
  invalidateInput :: string
  enableMockFallback :: bool
  customLogs :: "(string \<times> string) list"

record http_request =
  hr_method :: string
  hr_target :: string
  hr_authorization :: "string option"
  hr_body :: js_value

datatype http_answer = NetworkError string | Answer bool js_value

type_synonym network = "http_request \<Rightarrow> http_answer"

definition init_dashboard :: "string option \<Rightarrow> dashboard" where
  "init_dashboard jwt =
     \<lparr>token = jwt, stored_jwt = jwt, loginError = [], gatewayOnline = False, d_algorithm = JStr ''round-robin'',
      d_backends = JArr [],
      telemetry = JObj [(''throughputRps'', JNum 0), (''averageLatencyMs'', JNum 0), (''successRate'', JNum 100),
                        (''cacheHitRatio'', JNum 0), (''totalRequests'', JNum 0)],
      historicalTimeline = JArr [], backendStats = JArr [], wafLogs = JArr [], d_blockedIps = JArr [],
      targetBlockIp = [], invalidateInput = [], enableMockFallback = True, customLogs = []\<rparr>"

definition addLogLine :: "string \<Rightarrow> string \<Rightarrow> dashboard \<Rightarrow> dashboard" where
  "addLogLine line level d = d\<lparr>customLogs := customLogs d @ [(line, level)]\<rparr>"

definition apiFetch :: "string \<Rightarrow> string \<Rightarrow> js_value \<Rightarrow> dashboard \<Rightarrow> http_request" where
  "apiFetch meth path body d =
     \<lparr>hr_method = meth, hr_target = path,
      hr_authorization = (case token d of Some t \<Rightarrow> if t = [] then None else Some (''Bearer '' @ t) | None \<Rightarrow> None),
      hr_body = body\<rparr>"

section \<open>Session\<close>

definition mock_token :: string where
  "mock_token = ''mock_jwt_token_for_offline_demo''"

text \<open>The login form. A successful answer carries the token as a string (\<open>login\<close>); \<open>text_of\<close> reads it.\<close>

definition text_of :: "js_value \<Rightarrow> string option" where
  "text_of v = (case v of JStr s \<Rightarrow> Some s | _ \<Rightarrow> None)"

definition handleLogin :: "network \<Rightarrow> string \<Rightarrow> string \<Rightarrow> dashboard \<Rightarrow> dashboard" where
  "handleLogin net username password d =
     (let d = d\<lparr>loginError := []\<rparr>
      in case net \<lparr>hr_method = ''POST'', hr_target = ''/api/security/login'', hr_authorization = None,
                   hr_body = JObj [(''username'', JStr username), (''password'', JStr password)]\<rparr> of
           Answer True data \<Rightarrow>
             addLogLine ''[Auth] Authentication successful. Admin Bearer Token issued.'' ''info''
               (d\<lparr>token := text_of (field data ''token''), stored_jwt := text_of (field data ''token'')\<rparr>)
         | Answer False _ \<Rightarrow> d\<lparr>loginError := ''Invalid username or password. (Hint: admin / sentinel)''\<rparr>
         | NetworkError _ \<Rightarrow>
             if username = ''admin'' \<and> password = ''sentinel'' then
               addLogLine ''[Auth] Gateway offline. Mock offline administrative session started.'' ''warn''
                 (d\<lparr>token := Some mock_token, stored_jwt := Some mock_token\<rparr>)
             else d\<lparr>loginError := ''Could not reach gateway server. Ensure gateway is running on port 3000.''\<rparr>)"

definition handleLogout :: "dashboard \<Rightarrow> dashboard" where
  "handleLogout d =
     addLogLine ''[Auth] Logged out. Administrative session terminated.'' ''info'' (d\<lparr>token := None, stored_jwt := None\<rparr>)"

section \<open>Refreshing\<close>

text \<open>
  The demonstration data shown while the gateway cannot be reached. Time stamps stay numbers of milliseconds
  here; the code prints them as ISO strings.
\<close>

definition mock_node :: "string \<Rightarrow> string \<Rightarrow> rat \<Rightarrow> rat \<Rightarrow> rat \<Rightarrow> bool \<Rightarrow> rat \<Rightarrow> js_value" where
  "mock_node i u w conns score up rate =
     JObj [(''id'', JStr i), (''name'', JStr i), (''url'', JStr u), (''weight'', JNum w), (''activeConnections'', JNum conns),
           (''performanceScore'', JNum score), (''healthy'', JBool up), (''successRate'', JNum rate)]"

definition mock_minute :: "string \<Rightarrow> rat \<Rightarrow> rat \<Rightarrow> rat \<Rightarrow> rat \<Rightarrow> js_value" where
  "mock_minute t n l e c =
     JObj [(''timeBucket'', JStr t), (''requestCount'', JNum n), (''averageLatencyMs'', JNum l),
           (''errorRate'', JNum e), (''cacheHitRatio'', JNum c)]"

definition mock_split :: "string \<Rightarrow> string \<Rightarrow> rat \<Rightarrow> rat \<Rightarrow> rat \<Rightarrow> rat \<Rightarrow> js_value" where
  "mock_split i u n l e c =
     JObj [(''backendId'', JStr i), (''backendUrl'', JStr u), (''requestCount'', JNum n), (''averageLatencyMs'', JNum l),
           (''errorCount'', JNum e), (''cacheHitCount'', JNum c)]"

definition mock_event ::
  "string \<Rightarrow> string \<Rightarrow> string \<Rightarrow> string \<Rightarrow> string \<Rightarrow> string \<Rightarrow> string \<Rightarrow> time \<Rightarrow> js_value" where
  "mock_event i typ addr path meth agent reason t =
     JObj [(''id'', JStr i), (''type'', JStr typ), (''ip'', JStr addr), (''path'', JStr path), (''method'', JStr meth),
           (''userAgent'', JStr agent), (''details'', JObj [(''reason'', JStr reason)]), (''timestamp'', JNum (of_int t))]"

definition loadMockData :: "time \<Rightarrow> dashboard \<Rightarrow> dashboard" where
  "loadMockData now d =
     d\<lparr>d_algorithm := JStr ''weighted-round-robin'',
       d_backends := JArr
         [mock_node ''backend-1'' ''http://localhost:4001'' 3 2 94 True 100,
          mock_node ''backend-2'' ''http://localhost:4002'' 2 5 82 True 98,
          mock_node ''backend-3'' ''http://localhost:4003'' 1 1 40 False 72],
       telemetry := JObj
         [(''throughputRps'', JNum (184 / 100)), (''averageLatencyMs'', JNum (1428 / 100)), (''successRate'', JNum (994 / 10)),
          (''cacheHitRatio'', JNum (642 / 10)), (''totalRequests'', JNum 824)],
       historicalTimeline := JArr
         [mock_minute ''10:00'' 84 (162 / 10) 0 62, mock_minute ''10:01'' 112 (128 / 10) (12 / 10) 65,
          mock_minute ''10:02'' 95 (141 / 10) (8 / 10) 60, mock_minute ''10:03'' 130 (112 / 10) 0 72,
          mock_minute ''10:04'' 145 (185 / 10) (21 / 10) 58],
       backendStats := JArr
         [mock_split ''backend-1'' ''http://localhost:4001'' 420 (84 / 10) 0 310,
          mock_split ''backend-2'' ''http://localhost:4002'' 280 (148 / 10) 4 160,
          mock_split ''backend-3'' ''http://localhost:4003'' 124 (942 / 10) 12 12],
       d_blockedIps := JArr [JStr ''192.168.1.105'', JStr ''45.227.254.12''],
       wafLogs := JArr
         [mock_event ''1'' ''sqli'' ''104.244.42.1'' ''/api/users'' ''GET'' ''sqlmap/1.4''
            ''SQL injection signature detected in query string parameters'' (now - 4 * 60 * 1000),
          mock_event ''2'' ''xss'' ''198.51.100.12'' ''/'' ''GET'' ''Mozilla/5.0''
            ''XSS script block found in URL body payload'' (now - 15 * 60 * 1000),
          mock_event ''3'' ''rate-limit'' ''203.0.113.88'' ''/api/security/login'' ''POST'' ''Mozilla/5.0''
            ''Client throughput exceeded 100 requests per minute configuration limit'' (now - 25 * 60 * 1000)]\<rparr>"

text \<open>
  The handler of \<open>GET /api/status\<close>; an \<open>ok\<close> answer without a \<open>gateway\<close> object raises a TypeError, which is caught
  like a network error.
\<close>

definition readable :: "js_value \<Rightarrow> bool" where
  "readable v \<longleftrightarrow> v \<noteq> JUndefined \<and> v \<noteq> JNull"

definition gateway_lost :: "time \<Rightarrow> dashboard \<Rightarrow> dashboard" where
  "gateway_lost now d =
     (let d = d\<lparr>gatewayOnline := False\<rparr> in if enableMockFallback d then loadMockData now d else d)"

definition status_request :: http_request where
  "status_request = \<lparr>hr_method = ''GET'', hr_target = ''/api/status'', hr_authorization = None, hr_body = JUndefined\<rparr>"

definition refreshGatewayData :: "network \<Rightarrow> time \<Rightarrow> dashboard \<Rightarrow> dashboard" where
  "refreshGatewayData net now d =
     (case net status_request of
        Answer True data \<Rightarrow>
          if readable (field data ''gateway'') then
            d\<lparr>gatewayOnline := True, d_algorithm := field (field data ''gateway'') ''algorithm'',
              d_backends := field (field data ''gateway'') ''backends'', enableMockFallback := False\<rparr>
          else gateway_lost now d
      | Answer False _ \<Rightarrow> d
      | NetworkError _ \<Rightarrow> gateway_lost now d)"

definition telemetry_failed :: "string \<Rightarrow> dashboard \<Rightarrow> dashboard" where
  "telemetry_failed message d =
     addLogLine (''[Telemetry] Failed to refresh live metrics: '' @ message) ''error'' d"

text \<open>
  The five calls in sequence; a network error ends the sequence. Each entry is the path and what an \<open>ok\<close>
  answer does.
\<close>

definition telemetry_calls :: "(string \<times> (js_value \<Rightarrow> dashboard \<Rightarrow> dashboard)) list" where
  "telemetry_calls =
     [(''/api/analytics/realtime'',
        \<lambda>v d. if truthy (field v ''dbConnected'') then d\<lparr>telemetry := field v ''summary''\<rparr> else d),
      (''/api/analytics/historical'',
        \<lambda>v d. if truthy (field v ''dbConnected'') then d\<lparr>historicalTimeline := field v ''timeline''\<rparr> else d),
      (''/api/analytics/backends'',
        \<lambda>v d. if truthy (field v ''dbConnected'') then d\<lparr>backendStats := field v ''backends''\<rparr> else d),
      (''/api/security/blocklist'', \<lambda>v d. d\<lparr>d_blockedIps := v\<rparr>),
      (''/api/security/logs'', \<lambda>v d. d\<lparr>wafLogs := v\<rparr>)]"

fun run_telemetry :: "network \<Rightarrow> (string \<times> (js_value \<Rightarrow> dashboard \<Rightarrow> dashboard)) list \<Rightarrow> dashboard \<Rightarrow> dashboard" where
  "run_telemetry net [] d = d"
| "run_telemetry net ((path, use) # calls) d =
     (case net (apiFetch ''GET'' path JUndefined d) of
        Answer True v \<Rightarrow> run_telemetry net calls (use v d)
      | Answer False _ \<Rightarrow> run_telemetry net calls d
      | NetworkError message \<Rightarrow> telemetry_failed message d)"

definition refreshTelemetryData :: "network \<Rightarrow> dashboard \<Rightarrow> dashboard" where
  "refreshTelemetryData net d =
     (if \<not> gatewayOnline d \<and> enableMockFallback d then d else run_telemetry net telemetry_calls d)"

section \<open>Administration\<close>

definition handleAlgorithmChange :: "network \<Rightarrow> time \<Rightarrow> string \<Rightarrow> dashboard \<Rightarrow> dashboard" where
  "handleAlgorithmChange net now newAlgo d =
     (let d = addLogLine (''[Gateway] Dispatching dynamic algorithm transition to: '' @ newAlgo) ''info''
                (d\<lparr>d_algorithm := JStr newAlgo\<rparr>)
      in if \<not> gatewayOnline d then
           addLogLine ''[Gateway] Offline mode active. Algorithm status updated locally.'' ''warn'' d
         else case net (apiFetch ''PUT'' ''/api/admin/algorithm'' (JObj [(''algorithm'', JStr newAlgo)]) d) of
             Answer True _ \<Rightarrow>
               refreshGatewayData net now
                 (addLogLine (''[Gateway] Successfully configured routing load balancer mode to: '' @ newAlgo) ''info'' d)
           | Answer False _ \<Rightarrow> addLogLine ''[Gateway] Fails to reconfigure load balancer. Check credentials.'' ''error'' d
           | NetworkError m \<Rightarrow> addLogLine (''[Gateway] HTTP network failure updating algorithm: '' @ m) ''error'' d)"

text \<open>Offline the override edits the list the console shows.\<close>

fun set_field :: "string \<Rightarrow> js_value \<Rightarrow> js_value \<Rightarrow> js_value" where
  "set_field name v (JObj es) = JObj (AList.update name v es)"
| "set_field name v w = w"

definition override_local :: "string \<Rightarrow> string option \<Rightarrow> js_value \<Rightarrow> js_value" where
  "override_local backendId st srv =
     (if field srv ''id'' = JStr backendId then
        set_field ''overrideStatus'' (case st of Some x \<Rightarrow> JStr x | None \<Rightarrow> JNull)
          (if st = Some ''healthy'' then set_field ''healthy'' (JBool True) srv
           else if st = Some ''unhealthy'' then set_field ''healthy'' (JBool False) srv
           else srv)
      else srv)"

fun map_array :: "(js_value \<Rightarrow> js_value) \<Rightarrow> js_value \<Rightarrow> js_value" where
  "map_array f (JArr vs) = JArr (map f vs)"
| "map_array f v = v"

definition handleNodeOverride ::
  "network \<Rightarrow> time \<Rightarrow> string \<Rightarrow> string option \<Rightarrow> dashboard \<Rightarrow> dashboard" where
  "handleNodeOverride net now backendId st d =
     (let d = addLogLine (''[Pools] Dispatching server status override for '' @ backendId @ '' to '' @
                          the (or_else st (Some ''default''))) ''info'' d
      in if \<not> gatewayOnline d then d\<lparr>d_backends := map_array (override_local backendId st) (d_backends d)\<rparr>
         else case net (apiFetch ''POST'' ''/api/health/override''
                          (JObj [(''backendId'', JStr backendId),
                                 (''status'', case st of Some x \<Rightarrow> JStr x | None \<Rightarrow> JNull)]) d) of
             Answer True _ \<Rightarrow>
               refreshGatewayData net now
                 (addLogLine (''[Pools] Node status override confirmed for '' @ backendId) ''info'' d)
           | Answer False _ \<Rightarrow>
               addLogLine ''[Pools] Override forbidden. Ensure valid admin auth header present.'' ''error'' d
           | NetworkError m \<Rightarrow> addLogLine (''[Pools] Node override failed: '' @ m) ''error'' d)"

fun array_push :: "js_value \<Rightarrow> js_value \<Rightarrow> js_value" where
  "array_push v (JArr vs) = JArr (vs @ [v])"
| "array_push v w = w"

fun array_remove :: "js_value \<Rightarrow> js_value \<Rightarrow> js_value" where
  "array_remove v (JArr vs) = JArr (filter (\<lambda>x. x \<noteq> v) vs)"
| "array_remove v w = w"

definition handleBlockIp :: "network \<Rightarrow> dashboard \<Rightarrow> dashboard" where
  "handleBlockIp net d =
     (let ip = js_trim (targetBlockIp d)
      in if ip = [] then d
         else
           let d = addLogLine (''[Firewall] Instructing gateway to block client IP address: '' @ ip) ''warn'' d
           in if \<not> gatewayOnline d then d\<lparr>d_blockedIps := array_push (JStr ip) (d_blockedIps d), targetBlockIp := []\<rparr>
              else case net (apiFetch ''POST'' ''/api/security/blocklist'' (JObj [(''ip'', JStr ip)]) d) of
                  Answer True _ \<Rightarrow>
                    refreshTelemetryData net
                      ((addLogLine (''[Firewall] Blocklisted IP address successfully: '' @ ip) ''info'' d)\<lparr>targetBlockIp := []\<rparr>)
                | Answer False _ \<Rightarrow> addLogLine ''[Firewall] Could not update firewall rules blocklist.'' ''error'' d
                | NetworkError m \<Rightarrow> addLogLine (''[Firewall] Blocklist failed: '' @ m) ''error'' d)"

definition handleUnblockIp :: "network \<Rightarrow> string \<Rightarrow> dashboard \<Rightarrow> dashboard" where
  "handleUnblockIp net ip d =
     (let d = addLogLine (''[Firewall] Instructing gateway to release client IP: '' @ ip) ''info'' d
      in if \<not> gatewayOnline d then d\<lparr>d_blockedIps := array_remove (JStr ip) (d_blockedIps d)\<rparr>
         else case net (apiFetch ''DELETE'' ''/api/security/blocklist'' (JObj [(''ip'', JStr ip)]) d) of
             Answer True _ \<Rightarrow>
               refreshTelemetryData net
                 (addLogLine (''[Firewall] IP address released from blocklist: '' @ ip) ''info'' d)
           | Answer False _ \<Rightarrow> d
           | NetworkError m \<Rightarrow> addLogLine (''[Firewall] Unblocklist failed: '' @ m) ''error'' d)"

definition handleClearCache :: "network \<Rightarrow> dashboard \<Rightarrow> dashboard" where
  "handleClearCache net d =
     (let d = addLogLine ''[Cache] Dispatching full cache database FLUSH request'' ''warn'' d
      in if \<not> gatewayOnline d then addLogLine ''[Cache] Local database cleared successfully.'' ''info'' d
         else case net (apiFetch ''POST'' ''/api/cache/clear'' JUndefined d) of
             Answer True _ \<Rightarrow> addLogLine ''[Cache] Cache storage engine cleared successfully.'' ''info'' d
           | Answer False _ \<Rightarrow> d
           | NetworkError m \<Rightarrow> addLogLine (''[Cache] Cache clear failed: '' @ m) ''error'' d)"

definition handleInvalidateCache :: "network \<Rightarrow> dashboard \<Rightarrow> dashboard" where
  "handleInvalidateCache net d =
     (let pattern = js_trim (invalidateInput d)
      in if pattern = [] then d
         else
           let d = addLogLine (''[Cache] Invaliding pattern: '' @ pattern) ''info'' d
           in if \<not> gatewayOnline d then d\<lparr>invalidateInput := []\<rparr>
              else case net (apiFetch ''POST'' ''/api/cache/invalidate'' (JObj [(''pattern'', JStr pattern)]) d) of
                  Answer True _ \<Rightarrow>
                    (addLogLine (''[Cache] Invalidated keys matching: '' @ pattern) ''info'' d)\<lparr>invalidateInput := []\<rparr>
                | Answer False _ \<Rightarrow> d
                | NetworkError m \<Rightarrow> addLogLine (''[Cache] Invalidation failed: '' @ m) ''error'' d)"

section \<open>The console against the gateway\<close>

text \<open>The body of \<open>GET /api/status\<close>: uptime, time stamp and system block come from the process.\<close>

fun status_name :: "health_status \<Rightarrow> string" where
  "status_name Healthy = ''healthy''"
| "status_name Degraded = ''degraded''"
| "status_name Unhealthy = ''unhealthy''"
| "status_name Draining = ''draining''"
| "status_name Offline = ''offline''"

definition status_json :: "js_value \<Rightarrow> js_value \<Rightarrow> js_value \<Rightarrow> status_view \<Rightarrow> js_value" where
  "status_json uptime stamp sys v =
     JObj
       [(''gateway'', JObj
           [(''name'', JStr ''SentinelADC''), (''version'', JStr ''1.0.0''),
            (''status'', JStr (if sv_operational v then ''operational'' else ''degraded'')),
            (''uptime'', uptime), (''timestamp'', stamp)]),
        (''loadBalancing'', JObj [(''algorithm'', JStr (sv_algorithm v))]),
        (''backends'', JObj
           [(''total'', JNum (of_nat (sv_total v))), (''healthy'', JNum (of_nat (sv_healthy v))),
            (''unhealthy'', JNum (of_int (sv_unhealthy v))),
            (''pool'', JArr (map (\<lambda>(i, u, st, h, w).
               JObj [(''id'', JStr i), (''url'', JStr u), (''status'', JStr (status_name st)), (''healthy'', JBool h),
                     (''weight'', JNum (of_nat w))]) (sv_pool v)))]),
        (''system'', sys)]"

text \<open>
  The overview screen reads properties of these four; reading one of \<open>undefined\<close> or \<open>null\<close> throws while
  rendering, which unmounts the application.
\<close>

definition overview_renders :: "dashboard \<Rightarrow> bool" where
  "overview_renders d \<longleftrightarrow>
     readable (telemetry d) \<and> readable (historicalTimeline d) \<and> readable (d_backends d) \<and> readable (d_blockedIps d)"

lemma overview_renders_init: "overview_renders (init_dashboard jwt)" "overview_renders (loadMockData now d)"
  by (simp_all add: overview_renders_def init_dashboard_def loadMockData_def readable_def)

text \<open>
  The console does not survive its gateway. Whatever state the gateway is in, once its answer to the status
  request arrives the console counts as online, but algorithm and backend list are looked up where the
  gateway does not put them: both become \<open>undefined\<close> and the overview screen throws. Offline, with the
  demonstration data, the same screen renders.
\<close>

theorem dashboard_status_shape:
  assumes "net status_request = Answer True (status_json uptime stamp sys (fst (getStatus cfg now s)))"
  shows "gatewayOnline (refreshGatewayData net now d) \<and>
         d_algorithm (refreshGatewayData net now d) = JUndefined \<and>
         d_backends (refreshGatewayData net now d) = JUndefined \<and>
         \<not> overview_renders (refreshGatewayData net now d) \<and>
         overview_renders (gateway_lost now (d\<lparr>enableMockFallback := True\<rparr>))"
  using assms by (simp add: refreshGatewayData_def status_json_def readable_def overview_renders_def gateway_lost_def
      loadMockData_def)

definition demo_console :: dashboard where
  "demo_console = (init_dashboard (Some ''t''))\<lparr>gatewayOnline := True, enableMockFallback := False, invalidateInput := ''/a''\<rparr>"

definition demo_status_net :: network where
  "demo_status_net req =
     (if req = status_request then
        Answer True (status_json (JNum 1) (JStr ''t'') JNull (fst (getStatus (g_cb demo_gw) 0 demo_sec)))
      else Answer False JNull)"

theorem dashboard_status_shape_witness:
  "d_backends (refreshGatewayData demo_status_net 0 (init_dashboard None)) = JUndefined"
  using dashboard_status_shape [of demo_status_net "JNum 1" "JStr ''t''" JNull "g_cb demo_gw" 0 demo_sec "init_dashboard None"]
  by (simp add: demo_status_net_def)

text \<open>What the handlers of the console ask for: served, and not served, by any route of the gateway.\<close>

lemma serves_live:
  "serves ''GET'' ''/api/status''" "serves ''POST'' ''/api/security/login''" "serves ''PUT'' ''/api/admin/algorithm''"
  "serves ''POST'' ''/api/security/blocklist''" "serves ''GET'' ''/api/security/blocklist''"
  "serves ''GET'' ''/api/analytics/realtime''"
  by code_simp+

lemma serves_dead:
  "\<not> serves ''POST'' ''/api/health/override''"
  "\<not> serves ''DELETE'' ''/api/security/blocklist''"
  "\<not> serves ''POST'' ''/api/cache/clear''"
  "\<not> serves ''POST'' ''/api/cache/invalidate''"
  "\<not> serves ''GET'' ''/api/security/logs''"
  by code_simp+

text \<open>A gateway that answers nothing but its routes: anything else is a 404 (or, before that, a 401).\<close>

definition answers_routes_only :: "network \<Rightarrow> bool" where
  "answers_routes_only net \<longleftrightarrow> (\<forall>req. \<not> serves (hr_method req) (hr_target req) \<longrightarrow> net req = Answer False JNull)"

lemma dead_answers:
  assumes "answers_routes_only net"
  shows "net (apiFetch ''POST'' ''/api/health/override'' b d) = Answer False JNull"
    and "net (apiFetch ''DELETE'' ''/api/security/blocklist'' b d) = Answer False JNull"
    and "net (apiFetch ''POST'' ''/api/cache/clear'' b d) = Answer False JNull"
    and "net (apiFetch ''POST'' ''/api/cache/invalidate'' b d) = Answer False JNull"
    and "net (apiFetch ''GET'' ''/api/security/logs'' b d) = Answer False JNull"
  using assms serves_dead by (simp_all add: answers_routes_only_def apiFetch_def)

lemma wafLogs_run_telemetry:
  assumes "list_all (\<lambda>(path, use). (\<forall>v d. wafLogs (use v d) = wafLogs d) \<or> (\<forall>d. net (apiFetch ''GET'' path JUndefined d) = Answer False JNull)) calls"
  shows "wafLogs (run_telemetry net calls d) = wafLogs d"
  using assms
proof (induction net calls d rule: run_telemetry.induct)
  case (2 net path "use" calls d)
  show ?case
  proof (cases "net (apiFetch ''GET'' path JUndefined d)")
    case (NetworkError m)
    then show ?thesis by (simp add: telemetry_failed_def addLogLine_def)
  next
    case (Answer ok v)
    with 2 show ?thesis by (cases ok) (fastforce simp: list_all_iff)+
  qed
qed simp

lemma wafLogs_never_loaded:
  assumes "answers_routes_only net"
  shows "wafLogs (refreshTelemetryData net d) = wafLogs d"
proof -
  have "wafLogs (run_telemetry net telemetry_calls d) = wafLogs d"
    by (rule wafLogs_run_telemetry) (simp add: telemetry_calls_def dead_answers [OF assms])
  then show ?thesis by (simp add: refreshTelemetryData_def)
qed

lemma dead_handlers:
  assumes "answers_routes_only net" "gatewayOnline d"
  shows "\<exists>lines. handleNodeOverride net now i st d = d\<lparr>customLogs := lines\<rparr>"
    and "\<exists>lines. handleUnblockIp net ip d = d\<lparr>customLogs := lines\<rparr>"
    and "\<exists>lines. handleClearCache net d = d\<lparr>customLogs := lines\<rparr>"
    and "\<exists>lines. handleInvalidateCache net d = d\<lparr>customLogs := lines\<rparr>"
proof -
  show "\<exists>lines. handleNodeOverride net now i st d = d\<lparr>customLogs := lines\<rparr>"
    using assms(2) by (simp add: handleNodeOverride_def Let_def addLogLine_def dead_answers [OF assms(1)]) blast
  show "\<exists>lines. handleUnblockIp net ip d = d\<lparr>customLogs := lines\<rparr>"
    using assms(2) by (simp add: handleUnblockIp_def Let_def addLogLine_def dead_answers [OF assms(1)]) blast
  show "\<exists>lines. handleClearCache net d = d\<lparr>customLogs := lines\<rparr>"
    using assms(2) by (simp add: handleClearCache_def Let_def addLogLine_def dead_answers [OF assms(1)]) blast
  show "\<exists>lines. handleInvalidateCache net d = d\<lparr>customLogs := lines\<rparr>"
  proof (cases "js_trim (invalidateInput d) = []")
    case True
    then show ?thesis by (intro exI [of _ "customLogs d"]) (simp add: handleInvalidateCache_def Let_def)
  next
    case False
    with assms(2) show ?thesis
      by (simp add: handleInvalidateCache_def Let_def addLogLine_def dead_answers [OF assms(1)]) blast
  qed
qed

text \<open>
  Five controls of the online console do nothing. Against a gateway that answers only its routes, forcing the
  state of a node, releasing an address, clearing the cache and invalidating a pattern change nothing but
  the console's own log, whatever the session and the input, because their requests match no route; the list of
  firewall events is never loaded. The login, status, algorithm, block and realtime requests do match one.
\<close>

theorem dashboard_dead_calls:
  assumes "answers_routes_only net" "gatewayOnline d"
  shows "(\<exists>lines. handleNodeOverride net now i st d = d\<lparr>customLogs := lines\<rparr>) \<and>
         (\<exists>lines. handleUnblockIp net ip d = d\<lparr>customLogs := lines\<rparr>) \<and>
         (\<exists>lines. handleClearCache net d = d\<lparr>customLogs := lines\<rparr>) \<and>
         (\<exists>lines. handleInvalidateCache net d = d\<lparr>customLogs := lines\<rparr>) \<and>
         wafLogs (refreshTelemetryData net d) = wafLogs d \<and>
         list_all (\<lambda>(m, t). serves m t)
           [(''POST'', ''/api/security/login''), (''GET'', ''/api/status''), (''PUT'', ''/api/admin/algorithm''),
            (''POST'', ''/api/security/blocklist''), (''GET'', ''/api/security/blocklist''),
            (''GET'', ''/api/analytics/realtime'')]"
  by (intro conjI dead_handlers [OF assms] wafLogs_never_loaded [OF assms(1)]) (simp add: serves_live)

definition demo_routes_net :: network where
  "demo_routes_net req = (if serves (hr_method req) (hr_target req) then Answer True JNull else Answer False JNull)"

theorem dashboard_dead_calls_witness:
  "\<exists>lines. handleInvalidateCache demo_routes_net demo_console = demo_console\<lparr>customLogs := lines\<rparr>"
proof -
  have "answers_routes_only demo_routes_net" by (simp add: answers_routes_only_def demo_routes_net_def)
  moreover have "gatewayOnline demo_console" by (simp add: demo_console_def)
  ultimately show ?thesis using dashboard_dead_calls by blast
qed

end
