(* ===== verification/Analytics.thy ===== *)
theory Analytics
  imports HealthStore "HOL-Library.AList" "HOL-Library.Multiset"
begin

text \<open>
  Traffic analytics: \<^verbatim>\<open>src/analytics/analyticsCollector.js\<close> (one record per finished response),
  \<^verbatim>\<open>src/analytics/analyticsDb.js\<close> (the store with its in-memory fallback and the aggregations it computes itself),
  \<^verbatim>\<open>src/analytics/aggregationWorker.js\<close> (the per-minute rollup) and \<^verbatim>\<open>src/analytics/analyticsRoutes.js\<close>.
  MongoDB is a parameter, the record \<open>mongo\<close> of the queries the gateway sends; a failing one gives \<open>Inl\<close>
  with the error's message. Dates are their time in milliseconds.
\<close>

section \<open>Records\<close>

record req_log =
  l_requestId :: "string option"
  l_timestamp :: time
  l_ip :: string
  l_method :: "string option"
  l_path :: string
  l_url :: "string option"
  l_statusCode :: nat
  l_latencyMs :: rat
  l_backendId :: "string option"
  l_backendUrl :: "string option"
  l_cacheStatus :: "string option"
  l_payloadSizeBytes :: int
  l_userAgent :: string
  l_referer :: "string option"

record rollup =
  r_timeBucket :: time
  r_requestCount :: nat
  r_averageLatencyMs :: rat
  r_minLatencyMs :: rat
  r_maxLatencyMs :: rat
  r_errorRate :: rat
  r_cacheHitRatio :: rat
  r_bytesTransferred :: int
  r_updatedAt :: time

text \<open>What an aggregation over a window returns; \<open>None\<close> stands for the infinities the loop starts from.\<close>

record totals =
  t_requestCount :: nat
  t_totalLatency :: rat
  t_minLatency :: "rat option"
  t_maxLatency :: "rat option"
  t_successCount :: nat
  t_errorCount :: nat
  t_cacheHitCount :: nat
  t_bytesTransferred :: int

record backend_split =
  b_backendId :: string
  b_backendUrl :: "string option"
  b_requestCount :: nat
  b_averageLatencyMs :: rat
  b_errorCount :: nat
  b_cacheHitCount :: nat

record 'm analytics =
  db_enabled :: bool
  db_connected :: bool
  db_useMemoryFallback :: bool
  memoryLogs :: "req_log list"
  memoryAggregates :: "rollup list"
  worker_running :: bool
  mongo_state :: 'm

datatype document = RequestLog req_log | AnalyticsAggregate rollup

record 'm mongo =
  mg_insertOne :: "document \<Rightarrow> 'm \<Rightarrow> string + 'm"
  mg_window :: "time \<Rightarrow> time \<Rightarrow> 'm \<Rightarrow> string + totals list"
  mg_replaceOne :: "time \<Rightarrow> rollup \<Rightarrow> 'm \<Rightarrow> string + 'm"
  mg_since :: "time \<Rightarrow> 'm \<Rightarrow> string + totals list"
  mg_timeline :: "time \<Rightarrow> 'm \<Rightarrow> string + rollup list"
  mg_backends :: "time \<Rightarrow> 'm \<Rightarrow> string + backend_split list"

section \<open>The store\<close>

text \<open>
  The outcome of \<open>connect\<close>: connected, or the memory fallback. \<open>uri\<close> is \<open>config.mongo.uri\<close>.
\<close>

definition init_analytics :: "string \<Rightarrow> 'm \<Rightarrow> 'm analytics" where
  "init_analytics uri m =
     \<lparr>db_enabled = (uri \<noteq> []), db_connected = False, db_useMemoryFallback = False, memoryLogs = [],
      memoryAggregates = [], worker_running = False, mongo_state = m\<rparr>"

definition db_connect :: "bool \<Rightarrow> 'm analytics \<Rightarrow> 'm analytics" where
  "db_connect success s =
     (if \<not> db_enabled s then s
      else if success then s\<lparr>db_connected := True, db_useMemoryFallback := False\<rparr>
      else s\<lparr>db_useMemoryFallback := True\<rparr>)"

definition db_isActive :: "'m analytics \<Rightarrow> bool" where
  "db_isActive s \<longleftrightarrow> db_enabled s \<and> (db_useMemoryFallback s \<or> db_connected s)"

text \<open>\<open>findIndex\<close> and the assignment to the index found, or \<open>push\<close>.\<close>

fun upsert :: "rollup \<Rightarrow> rollup list \<Rightarrow> rollup list" where
  "upsert d [] = [d]"
| "upsert d (a # as) = (if r_timeBucket a = r_timeBucket d then d # as else a # upsert d as)"

definition cap_front :: "nat \<Rightarrow> 'x list \<Rightarrow> 'x list" where
  "cap_front n xs = (if n < length xs then tl xs else xs)"

definition insertOne :: "'m mongo \<Rightarrow> document \<Rightarrow> 'm analytics \<Rightarrow> 'm analytics" where
  "insertOne mg doc s =
     (if \<not> db_isActive s then s
      else if db_useMemoryFallback s then
        (case doc of
           RequestLog l \<Rightarrow> s\<lparr>memoryLogs := push_shift 1000 l (memoryLogs s)\<rparr>
         | AnalyticsAggregate a \<Rightarrow> s\<lparr>memoryAggregates := cap_front 60 (upsert a (memoryAggregates s))\<rparr>)
      else case mg_insertOne mg doc (mongo_state s) of
          Inl e \<Rightarrow> s
        | Inr m \<Rightarrow> s\<lparr>mongo_state := m\<rparr>)"

section \<open>The collector\<close>

text \<open>
  \<open>resHeader\<close> is \<open>res.getHeader\<close>, \<open>selectedBackend\<close> the field of that name of the request (id and URL),
  which the gateway never sets.
\<close>

definition recordTransactionLog ::
  "'m mongo \<Rightarrow> time \<Rightarrow> int \<Rightarrow> int \<Rightarrow> 'q request_scheme \<Rightarrow> (string \<times> string) option \<Rightarrow> nat \<Rightarrow> (string \<Rightarrow> string option) \<Rightarrow>
   'm analytics \<Rightarrow> 'm analytics" where
  "recordTransactionLog mg now ns startTime req selectedBackend status_code resHeader s =
     (if \<not> db_isActive s then s
      else insertOne mg (RequestLog
        \<lparr>l_requestId = or_else (resHeader ''x-request-id'')
                         (or_else (header req ''x-request-id'') None),
         l_timestamp = now, l_ip = getClientIp req, l_method = http_method req, l_path = req_path req,
         l_url = originalUrl req, l_statusCode = status_code, l_latencyMs = elapsedMs ns startTime,
         l_backendId = or_else (resHeader ''x-backend-id'') (map_option fst selectedBackend),
         l_backendUrl = map_option snd selectedBackend,
         l_cacheStatus = or_else (resHeader ''x-cache'') None,
         l_payloadSizeBytes = parse_or (resHeader ''Content-Length'') 0,
         l_userAgent = the (or_else (header req ''user-agent'') (Some ''unknown'')),
         l_referer = or_else (header req ''referer'') None\<rparr>) s)"

section \<open>Aggregation in memory mode\<close>

definition no_totals :: totals where
  "no_totals = \<lparr>t_requestCount = 0, t_totalLatency = 0, t_minLatency = None, t_maxLatency = None, t_successCount = 0,
     t_errorCount = 0, t_cacheHitCount = 0, t_bytesTransferred = 0\<rparr>"

definition below :: "rat \<Rightarrow> rat option \<Rightarrow> bool" where
  "below x m = (case m of None \<Rightarrow> True | Some y \<Rightarrow> x < y)"

definition above :: "rat \<Rightarrow> rat option \<Rightarrow> bool" where
  "above x m = (case m of None \<Rightarrow> True | Some y \<Rightarrow> y < x)"

definition add_log :: "totals \<Rightarrow> req_log \<Rightarrow> totals" where
  "add_log t l =
     \<lparr>t_requestCount = t_requestCount t + 1,
      t_totalLatency = fadd (t_totalLatency t) (l_latencyMs l),
      t_minLatency = (if below (l_latencyMs l) (t_minLatency t) then Some (l_latencyMs l) else t_minLatency t),
      t_maxLatency = (if above (l_latencyMs l) (t_maxLatency t) then Some (l_latencyMs l) else t_maxLatency t),
      t_successCount = (if l_statusCode l < 400 then t_successCount t + 1 else t_successCount t),
      t_errorCount = (if l_statusCode l < 400 then t_errorCount t else t_errorCount t + 1),
      t_cacheHitCount = (if l_cacheStatus l = Some ''HIT'' then t_cacheHitCount t + 1 else t_cacheHitCount t),
      t_bytesTransferred = t_bytesTransferred t + l_payloadSizeBytes l\<rparr>"

definition totals_of :: "req_log list \<Rightarrow> totals list" where
  "totals_of logs = (if logs = [] then [] else [foldl add_log no_totals logs])"

definition aggregateLogs :: "time \<Rightarrow> time \<Rightarrow> 'm analytics \<Rightarrow> totals list" where
  "aggregateLogs windowStart windowEnd s =
     totals_of (filter (\<lambda>l. windowStart \<le> l_timestamp l \<and> l_timestamp l < windowEnd) (memoryLogs s))"

text \<open>\<open>aggregateRealtime\<close> computes four of the totals, in the same way.\<close>

definition aggregateRealtime :: "time \<Rightarrow> 'm analytics \<Rightarrow> totals list" where
  "aggregateRealtime fiveMinutesAgo s = totals_of (filter (\<lambda>l. fiveMinutesAgo \<le> l_timestamp l) (memoryLogs s))"

record group =
  g_backendId :: string
  g_backendUrl :: "string option"
  g_requestCount :: nat
  g_totalLatency :: rat
  g_errorCount :: nat
  g_cacheHitCount :: nat

definition add_to_group :: "req_log \<Rightarrow> group \<Rightarrow> group" where
  "add_to_group l g =
     g\<lparr>g_requestCount := g_requestCount g + 1, g_totalLatency := fadd (g_totalLatency g) (l_latencyMs l),
       g_errorCount := (if 400 \<le> l_statusCode l then g_errorCount g + 1 else g_errorCount g),
       g_cacheHitCount := (if l_cacheStatus l = Some ''HIT'' then g_cacheHitCount g + 1 else g_cacheHitCount g)\<rparr>"

definition new_group :: "string \<Rightarrow> string option \<Rightarrow> group" where
  "new_group i u = \<lparr>g_backendId = i, g_backendUrl = u, g_requestCount = 0, g_totalLatency = 0, g_errorCount = 0,
     g_cacheHitCount = 0\<rparr>"

text \<open>One pass of the loop over the object \<open>groups\<close>, whose keys are kept in insertion order.\<close>

definition group_step :: "(string \<times> group) list \<Rightarrow> req_log \<Rightarrow> (string \<times> group) list" where
  "group_step groups l =
     (case l_backendId l of
        None \<Rightarrow> groups
      | Some i \<Rightarrow>
          let g = (case map_of groups i of Some g \<Rightarrow> g | None \<Rightarrow> new_group i (l_backendUrl l))
          in AList.update i (add_to_group l g) groups)"

text \<open>
  \<open>Object.values\<close>: keys that are array indices come first, in ascending order, then the others in insertion
  order.
\<close>

definition is_index :: "string \<Rightarrow> bool" where
  "is_index k \<longleftrightarrow> list_all is_digit k \<and> k = nat_str (digits_value k) \<and> digits_value k < 4294967295"

definition object_values :: "(string \<times> 'x) list \<Rightarrow> 'x list" where
  "object_values kvs =
     map snd (sort_key (\<lambda>(k, v). digits_value k) (filter (\<lambda>(k, v). is_index k) kvs) @
              filter (\<lambda>(k, v). \<not> is_index k) kvs)"

definition split_of :: "group \<Rightarrow> backend_split" where
  "split_of g =
     \<lparr>b_backendId = g_backendId g, b_backendUrl = g_backendUrl g, b_requestCount = g_requestCount g,
      b_averageLatencyMs = round2 (fdiv (g_totalLatency g) (of_nat (g_requestCount g))),
      b_errorCount = g_errorCount g, b_cacheHitCount = g_cacheHitCount g\<rparr>"

definition aggregateBackends :: "time \<Rightarrow> 'm analytics \<Rightarrow> backend_split list" where
  "aggregateBackends halfHourAgo s =
     map split_of (object_values (foldl group_step []
       (filter (\<lambda>l. halfHourAgo \<le> l_timestamp l \<and> l_backendId l \<noteq> None) (memoryLogs s))))"

section \<open>The rollup worker\<close>

definition time_bucket :: "time \<Rightarrow> time" where
  "time_bucket now = \<lfloor>fdiv (of_int now) 60000\<rfloor> * 60000"

definition percent :: "nat \<Rightarrow> nat \<Rightarrow> rat" where
  "percent k n = (if 0 < n then fmul (fdiv (of_nat k) (of_nat n)) 100 else 0)"

text \<open>\<open>Math.round(Infinity * 100) / 100\<close> does not arise: a result has at least one request.\<close>

definition rollup_of :: "time \<Rightarrow> time \<Rightarrow> totals \<Rightarrow> rollup" where
  "rollup_of now bucket t =
     (let averageLatency = (if 0 < t_requestCount t then fdiv (t_totalLatency t) (of_nat (t_requestCount t)) else 0)
      in \<lparr>r_timeBucket = bucket, r_requestCount = t_requestCount t, r_averageLatencyMs = round2 averageLatency,
          r_minLatencyMs = round2 (case t_minLatency t of Some x \<Rightarrow> x | None \<Rightarrow> 0),
          r_maxLatencyMs = round2 (case t_maxLatency t of Some x \<Rightarrow> x | None \<Rightarrow> 0),
          r_errorRate = round2 (percent (t_errorCount t) (t_requestCount t)),
          r_cacheHitRatio = round2 (percent (t_cacheHitCount t) (t_requestCount t)),
          r_bytesTransferred = t_bytesTransferred t, r_updatedAt = now\<rparr>)"

definition runRollup :: "'m mongo \<Rightarrow> time \<Rightarrow> 'm analytics \<Rightarrow> 'm analytics" where
  "runRollup mg now s =
     (if \<not> db_isActive s \<or> worker_running s then s
      else
        let bucket = time_bucket now;
            results = (if db_useMemoryFallback s then Inr (aggregateLogs bucket (bucket + 60000) s)
                       else mg_window mg bucket (bucket + 60000) (mongo_state s))
        in case results of
             Inl e \<Rightarrow> s
           | Inr [] \<Rightarrow> s
           | Inr (stats # _) \<Rightarrow>
               if db_useMemoryFallback s then insertOne mg (AnalyticsAggregate (rollup_of now bucket stats)) s
               else case mg_replaceOne mg bucket (rollup_of now bucket stats) (mongo_state s) of
                   Inl e \<Rightarrow> s
                 | Inr m \<Rightarrow> s\<lparr>mongo_state := m\<rparr>)"

section \<open>The routes\<close>

record summary =
  throughputRps :: rat
  s_averageLatencyMs :: rat
  s_successRate :: rat
  s_cacheHitRatio :: rat
  s_totalRequests :: nat

definition no_traffic :: summary where
  "no_traffic = \<lparr>throughputRps = 0, s_averageLatencyMs = 0, s_successRate = 100, s_cacheHitRatio = 0, s_totalRequests = 0\<rparr>"

text \<open>An answer of the analytics API: the \<open>dbConnected\<close> flag and the data, or status 500 with the error.\<close>

datatype 'v db_reply = DbOffline 'v | DbData 'v | DbError string

definition summary_of :: "totals \<Rightarrow> summary" where
  "summary_of d =
     (let n = of_nat (t_requestCount d)
      in \<lparr>throughputRps = round2 (fdiv n 300), s_averageLatencyMs = round2 (fdiv (t_totalLatency d) n),
          s_successRate = round2 (fmul (fdiv (of_nat (t_successCount d)) n) 100),
          s_cacheHitRatio = round2 (fmul (fdiv (of_nat (t_cacheHitCount d)) n) 100),
          s_totalRequests = t_requestCount d\<rparr>)"

definition getRealtime :: "'m mongo \<Rightarrow> time \<Rightarrow> 'm analytics \<Rightarrow> summary db_reply" where
  "getRealtime mg now s =
     (if \<not> db_isActive s then DbOffline no_traffic
      else case (if db_useMemoryFallback s then Inr (aggregateRealtime (now - 300000) s)
                 else mg_since mg (now - 300000) (mongo_state s)) of
          Inl message \<Rightarrow> DbError (''Failed to query realtime metrics: '' @ message)
        | Inr [] \<Rightarrow> DbData no_traffic
        | Inr (d # _) \<Rightarrow> DbData (summary_of d))"

definition getHistorical :: "'m mongo \<Rightarrow> time \<Rightarrow> 'm analytics \<Rightarrow> rollup list db_reply" where
  "getHistorical mg now s =
     (if \<not> db_isActive s then DbOffline []
      else case (if db_useMemoryFallback s
                 then Inr (sort_key r_timeBucket (filter (\<lambda>a. now - 3600000 \<le> r_timeBucket a) (memoryAggregates s)))
                 else mg_timeline mg (now - 3600000) (mongo_state s)) of
          Inl message \<Rightarrow> DbError (''Failed to query historical timeline: '' @ message)
        | Inr timeline \<Rightarrow> DbData timeline)"

definition getBackendSplit :: "'m mongo \<Rightarrow> time \<Rightarrow> 'm analytics \<Rightarrow> backend_split list db_reply" where
  "getBackendSplit mg now s =
     (if \<not> db_isActive s then DbOffline []
      else case (if db_useMemoryFallback s then Inr (aggregateBackends (now - 1800000) s)
                 else mg_backends mg (now - 1800000) (mongo_state s)) of
          Inl message \<Rightarrow> DbError (''Failed to query backend workload split: '' @ message)
        | Inr backendsData \<Rightarrow> DbData backendsData)"

section \<open>What the aggregations compute\<close>

definition hit :: "req_log \<Rightarrow> bool" where
  "hit l \<longleftrightarrow> l_cacheStatus l = Some ''HIT''"

definition failed :: "req_log \<Rightarrow> bool" where
  "failed l \<longleftrightarrow> 400 \<le> l_statusCode l"

lemma fold_counts:
  "t_requestCount (foldl add_log no_totals ls) = length ls"
  "t_successCount (foldl add_log no_totals ls) = length (filter (\<lambda>l. \<not> failed l) ls)"
  "t_errorCount (foldl add_log no_totals ls) = length (filter failed ls)"
  "t_cacheHitCount (foldl add_log no_totals ls) = length (filter hit ls)"
  "t_bytesTransferred (foldl add_log no_totals ls) = (\<Sum>l\<leftarrow>ls. l_payloadSizeBytes l)"
  "t_totalLatency (foldl add_log no_totals ls) = foldl fadd 0 (map l_latencyMs ls)"
  by (induction ls rule: rev_induct) (simp_all add: no_totals_def add_log_def hit_def failed_def)

lemma add_log_extremes:
  "t_minLatency (add_log t l) = Some (case t_minLatency t of None \<Rightarrow> l_latencyMs l | Some y \<Rightarrow> min (l_latencyMs l) y)"
  "t_maxLatency (add_log t l) = Some (case t_maxLatency t of None \<Rightarrow> l_latencyMs l | Some y \<Rightarrow> max (l_latencyMs l) y)"
  by (auto simp: add_log_def below_def above_def split: option.split)

lemma no_totals_extremes [simp]: "t_minLatency no_totals = None" "t_maxLatency no_totals = None"
  by (simp_all add: no_totals_def)

lemma fold_extremes:
  "t_minLatency (foldl add_log no_totals ls) = (if ls = [] then None else Some (Min (l_latencyMs ` set ls)))"
  "t_maxLatency (foldl add_log no_totals ls) = (if ls = [] then None else Some (Max (l_latencyMs ` set ls)))"
  by (induction ls rule: rev_induct) (simp_all add: add_log_extremes)

lemma success_error_split:
  "length (filter (\<lambda>l. \<not> failed l) ls) + length (filter failed ls) = length ls"
  using sum_length_filter_compl [of failed ls] by simp

text \<open>
  C29: the rollup of a window is what it says. Over a non-empty window \<open>aggregateLogs\<close> gives one result,
  whose counts are the number of requests, of answers below 400, of errors and of cache hits in the
  window, whose bytes are the sum, and whose extreme latencies are the least and the greatest one; the
  successes and the errors add up to the requests.
\<close>

theorem aggregate_logs_correct:
  fixes s :: "'m analytics" and a b :: time
  defines "ls \<equiv> filter (\<lambda>l. a \<le> l_timestamp l \<and> l_timestamp l < b) (memoryLogs s)"
  assumes "ls \<noteq> []"
  shows "\<exists>t. aggregateLogs a b s = [t] \<and> t_requestCount t = length ls \<and>
     t_successCount t = length (filter (\<lambda>l. l_statusCode l < 400) ls) \<and>
     t_errorCount t = length (filter (\<lambda>l. 400 \<le> l_statusCode l) ls) \<and>
     t_successCount t + t_errorCount t = t_requestCount t \<and>
     t_cacheHitCount t = length (filter (\<lambda>l. l_cacheStatus l = Some ''HIT'') ls) \<and>
     t_bytesTransferred t = (\<Sum>l\<leftarrow>ls. l_payloadSizeBytes l) \<and>
     t_minLatency t = Some (Min (l_latencyMs ` set ls)) \<and> t_maxLatency t = Some (Max (l_latencyMs ` set ls))"
proof -
  have f: "(\<lambda>l. \<not> failed l) = (\<lambda>l. l_statusCode l < 400)" "failed = (\<lambda>l. 400 \<le> l_statusCode l)"
    "hit = (\<lambda>l. l_cacheStatus l = Some ''HIT'')"
    by (auto simp: failed_def hit_def fun_eq_iff)
  show ?thesis
    using assms(2) success_error_split [of ls, unfolded f]
    by (simp add: aggregateLogs_def totals_of_def fold_extremes fold_counts [of ls, unfolded f] not_le flip: ls_def)
qed

definition demo_log :: "time \<Rightarrow> nat \<Rightarrow> rat \<Rightarrow> req_log" where
  "demo_log t st l = \<lparr>l_requestId = None, l_timestamp = t, l_ip = ''10.0.0.7'', l_method = Some ''GET'', l_path = ''/a'',
     l_url = Some ''/a'', l_statusCode = st, l_latencyMs = l, l_backendId = Some ''backend-1'', l_backendUrl = None,
     l_cacheStatus = None, l_payloadSizeBytes = 5, l_userAgent = ''unknown'', l_referer = None\<rparr>"

definition demo_db :: "unit analytics" where
  "demo_db = (db_connect False (init_analytics ''offline'' ()))\<lparr>memoryLogs :=
     [demo_log 60001 200 12, demo_log 60002 502 7, demo_log 119999 200 30, demo_log 120000 200 1]\<rparr>"

theorem aggregate_logs_correct_witness:
  "\<exists>t. aggregateLogs 60000 120000 demo_db = [t] \<and> t_requestCount t = 3 \<and> t_errorCount t = 1 \<and>
       t_minLatency t = Some 7 \<and> t_maxLatency t = Some 30"
proof -
  have "\<exists>t. aggregateLogs 60000 120000 demo_db = [t] \<and> t_requestCount t = Suc (Suc (Suc 0)) \<and> t_errorCount t = Suc 0 \<and>
       t_minLatency t = Some 7 \<and> t_maxLatency t = Some 30"
    using aggregate_logs_correct [of 60000 120000 demo_db] by (auto simp: demo_db_def demo_log_def)
  then show ?thesis by (simp add: numeral_3_eq_3)
qed

section \<open>Groups\<close>

definition of_backend :: "string \<Rightarrow> req_log list \<Rightarrow> req_log list" where
  "of_backend i ls = filter (\<lambda>l. l_backendId l = Some i) ls"

definition group_of :: "string \<Rightarrow> req_log list \<Rightarrow> group" where
  "group_of i ls = foldl (\<lambda>g l. add_to_group l g) (new_group i (l_backendUrl (hd ls))) ls"

lemma map_of_groups:
  "map_of (foldl group_step [] ls) i =
     (if of_backend i ls = [] then None else Some (group_of i (of_backend i ls)))"
proof (induction ls rule: rev_induct)
  case (snoc l ls)
  show ?case
  proof (cases "l_backendId l = Some i")
    case True
    with snoc show ?thesis
      by (cases "of_backend i ls") (simp_all add: of_backend_def group_step_def group_of_def update_conv')
  next
    case False
    then have "of_backend i (ls @ [l]) = of_backend i ls" by (simp add: of_backend_def)
    with False snoc show ?thesis by (auto simp: group_step_def update_conv' split: option.split)
  qed
qed (simp add: of_backend_def)

lemma distinct_groups: "distinct (map fst (foldl group_step [] ls))"
  by (induction ls rule: rev_induct) (simp_all add: group_step_def distinct_update split: option.split)

lemma group_of_counts:
  "g_backendId (group_of i ls) = i"
  "g_requestCount (group_of i ls) = length ls"
  "g_errorCount (group_of i ls) = length (filter failed ls)"
  "g_cacheHitCount (group_of i ls) = length (filter hit ls)"
proof -
  have "g_backendId (foldl (\<lambda>g l. add_to_group l g) (new_group i u) ls) = i \<and>
        g_requestCount (foldl (\<lambda>g l. add_to_group l g) (new_group i u) ls) = length ls \<and>
        g_errorCount (foldl (\<lambda>g l. add_to_group l g) (new_group i u) ls) = length (filter failed ls) \<and>
        g_cacheHitCount (foldl (\<lambda>g l. add_to_group l g) (new_group i u) ls) = length (filter hit ls)" for u
    by (induction ls rule: rev_induct) (simp_all add: add_to_group_def new_group_def failed_def hit_def)
  then show "g_backendId (group_of i ls) = i" "g_requestCount (group_of i ls) = length ls"
    "g_errorCount (group_of i ls) = length (filter failed ls)" "g_cacheHitCount (group_of i ls) = length (filter hit ls)"
    unfolding group_of_def by auto
qed

lemma set_object_values: "set (object_values kvs) = snd ` set kvs"
  by (auto simp: object_values_def)

lemma mset_object_values: "mset (object_values kvs) = mset (map snd kvs)"
proof -
  have "mset (filter (\<lambda>(k, v). is_index k) kvs) + mset (filter (\<lambda>(k, v). \<not> is_index k) kvs) = mset kvs"
    using multiset_partition [of "mset kvs" "\<lambda>(k, v). is_index k"] by (simp add: case_prod_unfold)
  then show ?thesis
    by (simp add: object_values_def mset_map flip: image_mset_union)
qed

text \<open>
  The workload split has exactly one row per backend seen in the window, and that row counts the
  requests, the errors and the cache hits of that backend.
\<close>

theorem backend_split_correct:
  fixes s :: "'m analytics" and a :: time
  defines "ls \<equiv> filter (\<lambda>l. a \<le> l_timestamp l \<and> l_backendId l \<noteq> None) (memoryLogs s)"
  shows "distinct (map b_backendId (aggregateBackends a s)) \<and>
    b_backendId ` set (aggregateBackends a s) = (the \<circ> l_backendId) ` set ls \<and>
    (\<forall>row \<in> set (aggregateBackends a s).
       let mine = filter (\<lambda>l. l_backendId l = Some (b_backendId row)) ls
       in b_requestCount row = length mine \<and> b_errorCount row = length (filter failed mine) \<and>
          b_cacheHitCount row = length (filter hit mine))"
proof -
  let ?G = "foldl group_step [] ls"
  have agg: "aggregateBackends a s = map split_of (object_values ?G)" by (simp add: aggregateBackends_def ls_def)
  have val: "of_backend i ls \<noteq> [] \<and> g = group_of i (of_backend i ls)" if "(i, g) \<in> set ?G" for i g
    using that map_of_groups [of ls i] distinct_groups [of ls] by (auto simp: map_of_eq_Some_iff split: if_splits)
  have "g_backendId g = i" if "(i, g) \<in> set ?G" for i g
    using val [OF that] by (simp add: group_of_counts)
  then have ids: "map (b_backendId \<circ> split_of \<circ> snd) ?G = map fst ?G"
    by (auto simp: split_of_def)
  have "mset (map b_backendId (aggregateBackends a s)) = mset (map fst ?G)"
    unfolding agg ids [symmetric] by (simp add: mset_map mset_object_values image_mset.compositionality comp_def)
  note m = this
  have d: "distinct (map b_backendId (aggregateBackends a s))"
    using mset_eq_imp_distinct_iff [OF m] distinct_groups [of ls] by blast
  have d2: "b_backendId ` set (aggregateBackends a s) = fst ` set ?G"
    using mset_eq_setD [OF m] by simp
  have "i \<in> fst ` set ?G \<longleftrightarrow> of_backend i ls \<noteq> []" for i
    using map_of_groups [of ls i] by (metis map_of_eq_None_iff option.distinct(1))
  then have "fst ` set ?G = {i. of_backend i ls \<noteq> []}" by blast
  also have "\<dots> = (the \<circ> l_backendId) ` set ls"
    by (force simp: of_backend_def filter_empty_conv image_iff ls_def)
  finally have img: "fst ` set ?G = (the \<circ> l_backendId) ` set ls" .
  have rows: "b_requestCount row = length mine \<and> b_errorCount row = length (filter failed mine) \<and>
      b_cacheHitCount row = length (filter hit mine)"
    if "row \<in> set (aggregateBackends a s)" "mine = filter (\<lambda>l. l_backendId l = Some (b_backendId row)) ls" for row mine
  proof -
    obtain i g where g: "(i, g) \<in> set ?G" "row = split_of g"
      using \<open>row \<in> set (aggregateBackends a s)\<close> unfolding agg by (auto simp: set_object_values)
    from val [OF g(1)] have "g = group_of i (of_backend i ls)" by blast
    with that(2) g(2) show ?thesis by (simp add: split_of_def group_of_counts of_backend_def)
  qed
  show ?thesis
    using d d2 img rows unfolding Let_def by simp
qed

theorem backend_split_correct_witness:
  "b_backendId ` set (aggregateBackends 60000 demo_db) = {''backend-1''} \<and>
   list_all (\<lambda>row. b_requestCount row = 4 \<and> b_errorCount row = 1) (aggregateBackends 60000 demo_db)"
proof -
  have ls: "filter (\<lambda>l. 60000 \<le> l_timestamp l \<and> l_backendId l \<noteq> None) (memoryLogs demo_db) = memoryLogs demo_db"
    "(the \<circ> l_backendId) ` set (memoryLogs demo_db) = {''backend-1''}"
    "filter (\<lambda>l. l_backendId l = Some ''backend-1'') (memoryLogs demo_db) = memoryLogs demo_db"
    "length (memoryLogs demo_db) = 4" "length (filter failed (memoryLogs demo_db)) = 1"
    by (simp_all add: demo_db_def demo_log_def failed_def)
  show ?thesis
  proof -
    have c: "b_backendId ` set (aggregateBackends 60000 demo_db) = {''backend-1''}"
      and r: "\<forall>row \<in> set (aggregateBackends 60000 demo_db).
        b_requestCount row = length (filter (\<lambda>l. l_backendId l = Some (b_backendId row)) (memoryLogs demo_db)) \<and>
        b_errorCount row = length (filter failed (filter (\<lambda>l. l_backendId l = Some (b_backendId row)) (memoryLogs demo_db)))"
      using backend_split_correct [of 60000 demo_db] unfolding ls(1,2) Let_def by blast+
    have "b_requestCount row = 4 \<and> b_errorCount row = 1" if "row \<in> set (aggregateBackends 60000 demo_db)" for row
    proof -
      from that c have "b_backendId row = ''backend-1''" by blast
      with r that ls(3-5) show ?thesis by metis
    qed
    with c show ?thesis by (simp add: list_all_iff)
  qed
qed

section \<open>The minute buckets\<close>

text \<open>
  The bucket of a rollup is the minute of its clock: dividing in binary floating point and taking the
  floor gives, for every clock before the year 37648, the same bucket as integer division.
\<close>

theorem time_bucket_exact:
  assumes "0 \<le> now" "now < 2 ^ 50"
  shows "time_bucket now = now div 60000 * 60000"
proof -
  let ?x = "of_int now / 60000 :: rat" and ?k = "now div 60000"
  have km: "?k * 60000 \<le> now" using div_mult_mod_eq [of now 60000] pos_mod_sign [of 60000 now] by linarith
  then have "of_int (?k * 60000) \<le> (of_int now :: rat)" by (simp only: of_int_le_iff)
  then have k: "of_int ?k \<le> ?x" by simp
  have "now mod 60000 \<le> 59999" by simp
  then have "now \<le> ?k * 60000 + 59999" using div_mult_mod_eq [of now 60000] by linarith
  then have "of_int now \<le> (of_int (?k * 60000 + 59999) :: rat)" by (simp only: of_int_le_iff)
  then have "of_int now \<le> of_int ?k * 60000 + (59999 :: rat)" by simp
  then have up: "?x \<le> of_int ?k + 59999 / 60000" by linarith
  have "of_int now < (of_int (2 ^ 50) :: rat)" using assms(2) by (simp only: of_int_less_iff)
  then have x: "0 \<le> ?x" "?x < 2 ^ 35" using assms(1) by (simp_all add: field_simps)
  have "\<bar>fl ?x - ?x\<bar> \<le> 2 ^ 35 / 2 ^ 53 + tiny" using fl_error [of ?x] x by simp
  then have "fl ?x < of_int ?k + 1" using up tiny_bounds by simp
  moreover have "of_int ?k \<le> fl ?x"
  proof -
    have "0 \<le> ?k" "?k \<le> now" using assms(1) km by (simp_all add: pos_imp_zdiv_nonneg_iff)
    then have "\<bar>?k\<bar> \<le> 2 ^ 53" using assms(2) by simp
    from ieee.r_ge_int [OF k this] show ?thesis .
  qed
  ultimately have "\<lfloor>fl ?x\<rfloor> = ?k" by (simp add: floor_eq_iff)
  then show ?thesis by (simp add: time_bucket_def fdiv_def)
qed

theorem time_bucket_exact_witness: "time_bucket 1753000059999 = 1753000020000"
  using time_bucket_exact [of 1753000059999] by simp

section \<open>Bounds of the memory store\<close>

datatype analytics_event = Collected req_log | RollupAt time

fun analytics_step :: "'m mongo \<Rightarrow> analytics_event \<Rightarrow> 'm analytics \<Rightarrow> 'm analytics" where
  "analytics_step mg (Collected l) s = insertOne mg (RequestLog l) s"
| "analytics_step mg (RollupAt now) s = runRollup mg now s"

definition analytics_ok :: "'m analytics \<Rightarrow> bool" where
  "analytics_ok s \<longleftrightarrow> length (memoryLogs s) \<le> 1000 \<and> length (memoryAggregates s) \<le> 60 \<and>
     distinct (map r_timeBucket (memoryAggregates s))"

interpretation request_log: sliding_window
    "\<lambda>l s. s\<lparr>memoryLogs := push_shift 1000 l (memoryLogs s)\<rparr>" "\<lambda>s. rev (memoryLogs s)" 1000
  by unfold_locales (simp add: push_shift_window)

lemma upsert_buckets:
  "map r_timeBucket (upsert d as) =
     (if r_timeBucket d \<in> r_timeBucket ` set as then map r_timeBucket as else map r_timeBucket as @ [r_timeBucket d])"
  by (induction as) auto

lemma upsert_distinct: "distinct (map r_timeBucket as) \<Longrightarrow> distinct (map r_timeBucket (upsert d as))"
  by (simp add: upsert_buckets)

lemma length_upsert: "length (upsert d as) \<le> Suc (length as)"
  by (induction as) auto

lemma cap_front_bounds:
  "length xs \<le> Suc n \<Longrightarrow> length (cap_front n xs) \<le> n"
  "distinct (map f xs) \<Longrightarrow> distinct (map f (cap_front n xs))"
  by (auto simp: cap_front_def map_tl distinct_tl)

lemma analytics_ok_insert [adc_inv]:
  assumes "analytics_ok s"
  shows "analytics_ok (insertOne mg doc s)"
proof (cases doc)
  case (RequestLog l)
  have "length (push_shift 1000 l (memoryLogs s)) \<le> 1000"
    using assms request_log.add_bounded [of s l] by (simp add: analytics_ok_def)
  with RequestLog assms show ?thesis by (auto simp: insertOne_def analytics_ok_def split: sum.split)
next
  case (AnalyticsAggregate a)
  have "length (upsert a (memoryAggregates s)) \<le> Suc 60"
    using assms length_upsert [of a "memoryAggregates s"] by (simp add: analytics_ok_def)
  then have "length (cap_front 60 (upsert a (memoryAggregates s))) \<le> 60"
    "distinct (map r_timeBucket (cap_front 60 (upsert a (memoryAggregates s))))"
    using assms by (simp_all add: cap_front_bounds upsert_distinct analytics_ok_def)
  with AnalyticsAggregate assms show ?thesis by (auto simp: insertOne_def analytics_ok_def split: sum.split)
qed

lemma analytics_ok_rollup [adc_inv]: "analytics_ok s \<Longrightarrow> analytics_ok (runRollup mg now s)"
  by (auto simp: runRollup_def Let_def analytics_ok_insert split: sum.split list.split) (auto simp: analytics_ok_def)

text \<open>
  The analytics memory is bounded. From the start, after any interleaving of finished requests and
  rollups and whatever MongoDB does, at most 1000 request logs and 60 rollups are kept, and no two rollups
  are for the same minute.
\<close>

theorem analytics_bounded:
  "let s = fold (analytics_step mg) es (db_connect success (init_analytics uri m))
   in length (memoryLogs s) \<le> 1000 \<and> length (memoryAggregates s) \<le> 60 \<and>
      distinct (map r_timeBucket (memoryAggregates s))"
proof -
  have "analytics_ok (fold (analytics_step mg) es s)" if "analytics_ok s" for s
    using that
  proof (induction es arbitrary: s)
    case (Cons e es)
    have "analytics_ok (analytics_step mg e s)"
      using Cons.prems by (cases e) (simp_all add: adc_inv)
    then show ?case using Cons.IH by simp
  qed simp
  then have "analytics_ok (fold (analytics_step mg) es (db_connect success (init_analytics uri m)))"
    by (simp add: analytics_ok_def db_connect_def init_analytics_def)
  then show ?thesis by (simp add: analytics_ok_def)
qed

section \<open>What a rollup misses\<close>

definition rollup_for :: "time \<Rightarrow> 'm analytics \<Rightarrow> rollup option" where
  "rollup_for bucket s = find (\<lambda>a. r_timeBucket a = bucket) (memoryAggregates s)"

fun not_in_minute :: "time \<Rightarrow> analytics_event \<Rightarrow> bool" where
  "not_in_minute bucket (Collected _) = True"
| "not_in_minute bucket (RollupAt now) \<longleftrightarrow> time_bucket now \<noteq> bucket"

lemma find_upsert: "r_timeBucket d \<noteq> bucket \<Longrightarrow>
    find (\<lambda>a. r_timeBucket a = bucket) (upsert d as) = find (\<lambda>a. r_timeBucket a = bucket) as"
  by (induction as) auto

lemma insert_rollup_other:
  assumes "length (memoryAggregates s) < 60"
  shows "length (memoryAggregates (insertOne mg doc s)) \<le> Suc (length (memoryAggregates s)) \<and>
    (\<forall>d. doc = AnalyticsAggregate d \<longrightarrow> r_timeBucket d \<noteq> bucket \<longrightarrow> rollup_for bucket (insertOne mg doc s) = rollup_for bucket s)"
proof -
  have "length (upsert d (memoryAggregates s)) \<le> 60" for d
    using length_upsert [of d "memoryAggregates s"] assms by simp
  then have "\<not> 60 < length (upsert d (memoryAggregates s))" for d by (simp add: not_less)
  then have "cap_front 60 (upsert d (memoryAggregates s)) = upsert d (memoryAggregates s)" for d
    by (simp add: cap_front_def)
  then show ?thesis
    by (auto simp: insertOne_def rollup_for_def find_upsert length_upsert split: document.split sum.split)
qed

lemma step_other_minute:
  assumes "length (memoryAggregates s) < 60" "not_in_minute bucket e"
  shows "rollup_for bucket (analytics_step mg e s) = rollup_for bucket s \<and>
         length (memoryAggregates (analytics_step mg e s)) \<le> Suc (length (memoryAggregates s))"
proof (cases e)
  case (Collected l)
  have "memoryAggregates (insertOne mg (RequestLog l) s) = memoryAggregates s"
    by (simp add: insertOne_def split: sum.split)
  with Collected show ?thesis by (simp add: rollup_for_def)
next
  case (RollupAt now)
  have "r_timeBucket (rollup_of now (time_bucket now) t) \<noteq> bucket" for t
    using assms(2) RollupAt by (simp add: rollup_of_def Let_def)
  then show ?thesis
    using RollupAt insert_rollup_other [OF assms(1)]
    by (auto simp: runRollup_def Let_def split: sum.split list.split) (auto simp: rollup_for_def)
qed

text \<open>
  The end of every minute is lost. A rollup summarises the minute of its own clock only, so requests
  recorded after the last rollup of a minute never reach that minute's aggregate: whatever is collected
  and whenever the later rollups run, the aggregate stays what it was (as long as it is kept at all, for
  the next 60 events).
\<close>

theorem rollup_misses_tail:
  assumes "length (memoryAggregates s) + length es \<le> 60"
    and "list_all (not_in_minute bucket) es"
  shows "rollup_for bucket (fold (analytics_step mg) es s) = rollup_for bucket s"
  using assms
proof (induction es arbitrary: s)
  case (Cons e es)
  then show ?case using step_other_minute [of s bucket e mg] by simp
qed simp

definition demo_mongo :: "unit mongo" where
  "demo_mongo = \<lparr>mg_insertOne = (\<lambda>d m. Inl ''down''), mg_window = (\<lambda>a b m. Inl ''down''), mg_replaceOne = (\<lambda>t r m. Inl ''down''),
     mg_since = (\<lambda>t m. Inl ''down''), mg_timeline = (\<lambda>t m. Inl ''down''), mg_backends = (\<lambda>t m. Inl ''down'')\<rparr>"

definition demo_minute :: "unit analytics" where
  "demo_minute = (db_connect False (init_analytics ''offline'' ()))\<lparr>memoryLogs := [demo_log 60001 200 12],
     memoryAggregates := [rollup_of 110000 60000 (add_log no_totals (demo_log 60001 200 12))]\<rparr>"

theorem rollup_misses_tail_witness:
  "map_option r_requestCount (rollup_for 60000
     (fold (analytics_step demo_mongo) [Collected (demo_log 119000 500 40), RollupAt 120000] demo_minute)) = Some 1"
proof -
  have "time_bucket 120000 = 120000" using time_bucket_exact [of 120000] by simp
  then have "rollup_for 60000 (fold (analytics_step demo_mongo) [Collected (demo_log 119000 500 40), RollupAt 120000] demo_minute) =
      rollup_for 60000 demo_minute"
    by (intro rollup_misses_tail) (simp_all add: demo_minute_def)
  then show ?thesis
    by (simp add: rollup_for_def demo_minute_def rollup_of_def Let_def add_log_def no_totals_def)
qed

section \<open>The live figures\<close>

lemma percent_bounds:
  assumes "k \<le> n"
  shows "0 \<le> round2 (fmul (fdiv (of_nat k) (of_nat n)) 100)" "round2 (fmul (fdiv (of_nat k) (of_nat n)) 100) \<le> 100"
proof -
  let ?x = "fmul (fdiv (of_nat k) (of_nat n)) 100"
  have x: "0 \<le> ?x" "?x \<le> 100"
    using ratio_bounds [OF assms] by (auto simp: fmul_def intro: ieee.r_nonneg ieee.r_le_numeral)
  have "round2 100 = 100" by code_simp
  with round2_mono [OF x(2)] round2_nonneg [OF x(1)] show "0 \<le> round2 ?x" "round2 ?x \<le> 100" by simp_all
qed

text \<open>
  The live summary is well-formed in every memory state: its request count is the number of requests
  of the last five minutes, the success rate and the cache-hit ratio are percentages after rounding, and
  without traffic the gateway reports full success.
\<close>

theorem realtime_well_formed:
  assumes "db_enabled s" "db_useMemoryFallback s"
  shows "\<exists>d. getRealtime mg now s = DbData d \<and>
     s_totalRequests d = length (filter (\<lambda>l. now - 300000 \<le> l_timestamp l) (memoryLogs s)) \<and>
     0 \<le> s_successRate d \<and> s_successRate d \<le> 100 \<and> 0 \<le> s_cacheHitRatio d \<and> s_cacheHitRatio d \<le> 100 \<and>
     (if s_totalRequests d = 0 then s_successRate d = 100 else True)"
proof -
  let ?ls = "filter (\<lambda>l. now - 300000 \<le> l_timestamp l) (memoryLogs s)"
  have active: "db_isActive s" using assms by (simp add: db_isActive_def)
  show ?thesis
  proof (cases "?ls = []")
    case True
    with assms active show ?thesis
      by (simp add: getRealtime_def aggregateRealtime_def totals_of_def no_traffic_def)
  next
    case False
    let ?t = "foldl add_log no_totals ?ls"
    have "getRealtime mg now s = DbData (summary_of ?t)"
      using False assms active by (simp add: getRealtime_def aggregateRealtime_def totals_of_def)
    moreover have "t_successCount ?t \<le> t_requestCount ?t" "t_cacheHitCount ?t \<le> t_requestCount ?t"
      by (simp_all add: fold_counts del: filter_filter)
    moreover have "t_requestCount ?t = length ?ls" by (rule fold_counts)
    ultimately show ?thesis
      using percent_bounds False by (simp add: summary_of_def Let_def)
  qed
qed

theorem realtime_well_formed_witness:
  "\<exists>d. getRealtime demo_mongo 130000 demo_db = DbData d \<and> s_totalRequests d = 4 \<and> s_successRate d \<le> 100"
proof -
  have "db_enabled demo_db" "db_useMemoryFallback demo_db"
    by (simp_all add: demo_db_def db_connect_def init_analytics_def)
  moreover have "length (filter (\<lambda>l. 130000 - 300000 \<le> l_timestamp l) (memoryLogs demo_db)) = 4"
    by (simp add: demo_db_def demo_log_def)
  ultimately show ?thesis using realtime_well_formed [of demo_db demo_mongo 130000] by auto
qed

end
