(* ===== verification/Pipeline.thy ===== *)
theory Pipeline
  imports Observability Dashboard Analytics
begin

text \<open>
  One HTTP request through the whole chain of \<^verbatim>\<open>src/app.js\<close>: redirect, correlation id, filters, cache, API routes or
  proxy, and what is recorded when the response has finished. The parts are those of the other theories; here they
  are composed in the order in which \<open>createApp\<close> mounts them, for a request that is not interrupted by others.
\<close>

section \<open>From a path to a handler\<close>

text \<open>
  Express tries the routers in the order of \<open>api_routes\<close>, with the case-insensitive matching of \<open>match_segments\<close>.
  Parameters are percent-decoded (\<open>decode\<close>; \<open>None\<close> for a malformed one, which Express answers with 400). A body field
  read as text may be a string or a number, cut to an integer as \<open>parseInt\<close> does; anything else counts as missing.
\<close>

datatype report = Realtime | Historical | BackendSplit
datatype handler = Call api_call | Report report

definition text_field :: "js_value \<Rightarrow> string \<Rightarrow> string option" where
  "text_field v n = (case field v n of JStr t \<Rightarrow> Some t | JNum q \<Rightarrow> Some (int_str (if q < 0 then - \<lfloor>- q\<rfloor> else \<lfloor>q\<rfloor>)) | _ \<Rightarrow> None)"

text \<open>\<open>v.n || ...\<close>: zero is falsy too.\<close>

definition truthy_field :: "js_value \<Rightarrow> string \<Rightarrow> string option" where
  "truthy_field v n = (if field v n = JNum 0 then None else text_field v n)"

definition handlers :: "(string list \<Rightarrow> js_value \<Rightarrow> js_value \<Rightarrow> handler) list" where
  "handlers =
     [\<lambda>ps body query. Call GetStatus, \<lambda>ps body query. Call GetPing,
      \<lambda>ps body query. Call GetAlgorithm, \<lambda>ps body query. Call (PutAlgorithm (truthy_field body ''algorithm'')),
      \<lambda>ps body query. Call GetBackends,
      \<lambda>ps body query. Call (PutWeight (hd ps) (text_field body ''weight'')),
      \<lambda>ps body query. Call (PostDrain (hd ps) (truthy_field body ''timeoutSec'') (text_field query ''timeoutSec'')),
      \<lambda>ps body query. Call (PostUndrain (hd ps)),
      \<lambda>ps body query. Call GetHealth, \<lambda>ps body query. Call (GetHealthOf (hd ps)),
      \<lambda>ps body query. Call (PostOverride (hd ps) (field body ''healthy'')),
      \<lambda>ps body query. Call GetMetrics, \<lambda>ps body query. Call (GetMetricsOf (hd ps)),
      \<lambda>ps body query. Call GetCacheStats, \<lambda>ps body query. Call DeleteCache,
      \<lambda>ps body query. Call (DeleteInvalidate (text_field query ''pattern'')),
      \<lambda>ps body query. Call (Login body),
      \<lambda>ps body query. Call GetEvents, \<lambda>ps body query. Call DeleteEvents,
      \<lambda>ps body query. Call GetBlocklist, \<lambda>ps body query. Call (PostBlock body),
      \<lambda>ps body query. Call (DeleteBlock (hd ps)),
      \<lambda>ps body query. Call GetAnomalies, \<lambda>ps body query. Call (PostAnomalies body), \<lambda>ps body query. Call DeleteAnomalies,
      \<lambda>ps body query. Report Realtime, \<lambda>ps body query. Report Historical, \<lambda>ps body query. Report BackendSplit,
      \<lambda>ps body query. Call GetBreakers, \<lambda>ps body query. Call (PostResetOne (truthy_field body ''backendId'')),
      \<lambda>ps body query. Call PostResets]"

fun params :: "segment list \<Rightarrow> string list \<Rightarrow> string list" where
  "params (Fixed f # ss) (p # ps) = params ss ps"
| "params (Param # ss) (p # ps) = p # params ss ps"
| "params _ _ = []"

text \<open>The handler and whether its parameters were well-formed.\<close>

definition find_handler ::
  "(string \<Rightarrow> string option) \<Rightarrow> string \<Rightarrow> string list \<Rightarrow> js_value \<Rightarrow> js_value \<Rightarrow> (handler \<times> bool) option" where
  "find_handler decode meth path body query =
     map_option (\<lambda>((m, ss), h). let ps = params ss path in
                   (h (map (\<lambda>p. the (or_else (decode p) (Some p))) ps) body query, list_all (\<lambda>p. decode p \<noteq> None) ps))
       (find (\<lambda>((m, ss), h). (m = meth \<or> m = ''GET'' \<and> meth = ''HEAD'') \<and> match_segments ss path) (zip api_routes handlers))"

text \<open>The segments below the root, as \<open>app.use('/api', ...)\<close> sees them, and the routers that check the token for every path left.\<close>

definition below_root :: "string \<Rightarrow> string list" where
  "below_root p = (case segments p of [] # ps \<Rightarrow> ps | _ \<Rightarrow> [])"

definition under_api :: "string list \<Rightarrow> bool" where
  "under_api ps \<longleftrightarrow> (case ps of a # _ \<Rightarrow> js_lower a = ''api'' | [] \<Rightarrow> False)"

definition guarded :: "string list \<Rightarrow> bool" where
  "guarded ps \<longleftrightarrow> under_api ps \<and>
     (case ps of _ # r # _ \<Rightarrow> js_lower r \<in> {''admin'', ''health'', ''cache'', ''security'', ''analytics'', ''resilience''} | _ \<Rightarrow> False)"

section \<open>Answers\<close>

record answer =
  an_status :: nat
  an_headers :: "(string \<times> js_value) list"
  an_body :: string

text \<open>
  What a request brings: \<open>in_body\<close> is what the JSON parser makes of its body, or its error. \<open>d_text\<close> and \<open>d_report\<close> are
  the JSON texts the handlers write, \<open>d_error\<close> that of any other answer of the gateway; \<open>d_morgan\<close> are Morgan's own tokens.
\<close>

record inbound =
  in_req :: proxy_req
  in_query :: js_value
  in_body :: "js_error + js_value"

record ('r, 'm) deps =
  d_cfg :: gw_config
  d_jwt :: jwt_lib
  d_redis :: "'r redis_client"
  d_mongo :: "'m mongo"
  d_api :: api_env
  d_md5 :: "string \<Rightarrow> 8 word list"
  d_cors :: "proxy_req \<Rightarrow> bool"
  d_no_target :: "string option"
  d_decode :: "string \<Rightarrow> string option"
  d_text :: "api_call \<Rightarrow> 'r adc_ca \<Rightarrow> string"
  d_report :: "report \<Rightarrow> 'm analytics \<Rightarrow> string"
  d_error :: "nat \<Rightarrow> string"
  d_morgan :: "answer \<Rightarrow> string \<Rightarrow> string option"

text \<open>The environment of one request: clocks, the limiter's Redis, the fresh id, and the upstream's part.\<close>

record visit =
  v_now :: time
  v_end :: time
  v_ns :: int
  v_found :: int
  v_end_ns :: int
  v_limiter :: redis_call
  v_uuid :: string
  v_attempts :: "attempt_env list"
  v_upstream_headers :: "(string \<times> js_value) list"
  v_chunks :: "string list"

definition plain_answer :: "('r, 'm) deps \<Rightarrow> nat \<Rightarrow> (string \<times> js_value) list \<Rightarrow> answer" where
  "plain_answer d code hs = \<lparr>an_status = code, an_headers = hs, an_body = d_error d code\<rparr>"

definition header_text :: "answer \<Rightarrow> string \<Rightarrow> string option" where
  "header_text r n =
     (case map_of (an_headers r) (js_lower n) of
        Some (JStr t) \<Rightarrow> Some t
      | Some (JNum q) \<Rightarrow> Some (int_str \<lfloor>q\<rfloor>)
      | _ \<Rightarrow> None)"

section \<open>The routes and the proxy\<close>

definition report_status :: "report \<Rightarrow> 'm mongo \<Rightarrow> time \<Rightarrow> 'm analytics \<Rightarrow> nat" where
  "report_status r mg now a =
     (case r of
        Realtime \<Rightarrow> (case getRealtime mg now a of DbError e \<Rightarrow> 500 | _ \<Rightarrow> 200)
      | Historical \<Rightarrow> (case getHistorical mg now a of DbError e \<Rightarrow> 500 | _ \<Rightarrow> 200)
      | BackendSplit \<Rightarrow> (case getBackendSplit mg now a of DbError e \<Rightarrow> 500 | _ \<Rightarrow> 200))"

text \<open>A path below a guarded router: the token check comes first, and without a token it is the answer.\<close>

definition checked ::
  "('r, 'm) deps \<Rightarrow> visit \<Rightarrow> proxy_req \<Rightarrow> (string \<times> js_value) list \<Rightarrow> ('r adc_ca \<Rightarrow> answer option \<times> 'r adc_ca) \<Rightarrow>
   'r adc_ca \<Rightarrow> answer option \<times> 'r adc_ca" where
  "checked d v req hs k s =
     (case jwtMiddleware (d_jwt d) (v_now v) req s of
        (Inl message, s) \<Rightarrow> (Some (plain_answer d 401 hs), s)
      | (Inr user, s) \<Rightarrow> k s)"

definition api_answer ::
  "('r, 'm) deps \<Rightarrow> visit \<Rightarrow> proxy_req \<Rightarrow> (string \<times> js_value) list \<Rightarrow> api_call \<Rightarrow> 'r adc_ca \<Rightarrow> answer option \<times> 'r adc_ca" where
  "api_answer d v req hs call s =
     (case api (d_cfg d) (d_jwt d) (d_redis d) (d_api d) (v_now v) req call s of
        (code, s) \<Rightarrow> (map_option (\<lambda>n. \<lparr>an_status = n, an_headers = hs, an_body = d_text d call s\<rparr>) code, s))"

definition proxy_answer ::
  "('r, 'm) deps \<Rightarrow> visit \<Rightarrow> proxy_req \<Rightarrow> (string \<times> js_value) list \<Rightarrow> 'r adc_ca \<Rightarrow> answer option \<times> 'r adc_ca" where
  "proxy_answer d v req hs s =
     (case proxyMiddlewareWithRetry (g_cb (d_cfg d)) (d_md5 d) (d_no_target d) (v_attempts v) req s of
        (fin, req, s) \<Rightarrow>
          (case replies req of
             [] \<Rightarrow> (None, s)
           | r # _ \<Rightarrow>
               (Some (case r of
                   Proxied code added \<Rightarrow>
                     \<lparr>an_status = code,
                      an_headers = given_headers (v_upstream_headers v) (given_headers (map (\<lambda>(n, t). (n, JStr t)) added) hs),
                      an_body = concat (v_chunks v)\<rparr>
                 | BadGateway message b n \<Rightarrow> plain_answer d 502 hs
                 | NextError \<Rightarrow>
                     plain_answer d (er_status (errorHandler (env_node (d_api d)) (thrown [] []) req)) hs),
                response_ends (v_end v) (listeners req) s)))"

text \<open>
  What follows the cache. \<open>req.path.startsWith('/api')\<close>, which keeps a request from the proxy, regards the case of
  the letters; the mounted routers do not.
\<close>

definition after_api ::
  "('r, 'm) deps \<Rightarrow> visit \<Rightarrow> proxy_req \<Rightarrow> (string \<times> js_value) list \<Rightarrow> 'r adc_ca \<Rightarrow> answer option \<times> 'r adc_ca" where
  "after_api d v req hs s =
     (if js_startsWith (req_path req) ''/api'' then (Some (plain_answer d 404 hs), s) else proxy_answer d v req hs s)"

definition routed ::
  "('r, 'm) deps \<Rightarrow> visit \<Rightarrow> inbound \<Rightarrow> proxy_req \<Rightarrow> (string \<times> js_value) list \<Rightarrow> 'm analytics \<Rightarrow> 'r adc_ca \<Rightarrow>
   answer option \<times> 'r adc_ca" where
  "routed d v x req hs a s =
     (let path = below_root (req_path req) in
      if \<not> under_api path then after_api d v req hs s
      else case in_body x of
          Inl err \<Rightarrow> (Some (plain_answer d (er_status (errorHandler (env_node (d_api d)) err req)) hs), s)
        | Inr body \<Rightarrow>
            (case find_handler (d_decode d) (the (or_else (http_method req) (Some []))) path body (in_query x) of
               None \<Rightarrow> if guarded path then checked d v req hs (after_api d v req hs) s else after_api d v req hs s
             | Some (Call call, ok) \<Rightarrow>
                 if ok then api_answer d v req hs call s
                 else if open_route call then (Some (plain_answer d 400 hs), s)
                 else checked d v req hs (\<lambda>s. (Some (plain_answer d 400 hs), s)) s
             | Some (Report r, ok) \<Rightarrow>
                 checked d v req hs
                   (\<lambda>s. (Some \<lparr>an_status = report_status r (d_mongo d) (v_now v) a, an_headers = hs, an_body = d_report d r a\<rparr>, s)) s))"

section \<open>The cache around them, and the whole chain\<close>

definition through_cache ::
  "('r, 'm) deps \<Rightarrow> visit \<Rightarrow> inbound \<Rightarrow> proxy_req \<Rightarrow> (string \<times> js_value) list \<Rightarrow> 'm analytics \<Rightarrow> 'r adc_ca \<Rightarrow>
   answer option \<times> 'r adc_ca" where
  "through_cache d v x req hs a s =
     (case cacheMiddleware (g_cache (d_cfg d)) (d_redis d) (v_now v) (v_ns v) (v_found v) req hs s of
        (CacheHit code hs body, s) \<Rightarrow> (Some \<lparr>an_status = code, an_headers = hs, an_body = body\<rparr>, s)
      | (CacheBypass hs, s) \<Rightarrow> routed d v x req hs a s
      | (CacheMiss key ns hs, s) \<Rightarrow>
          (case routed d v x req hs a s of
             (None, s) \<Rightarrow> (None, s)
           | (Some r, s) \<Rightarrow>
               (Some r, cacheEnd (g_cache (d_cfg d)) (d_redis d) (v_end v) (v_end_ns v) key ns (an_status r) (an_headers r) [an_body r] s)))"

definition rate_headers :: "rl_headers \<Rightarrow> (string \<times> js_value) list" where
  "rate_headers h =
     [(''X-RateLimit-Limit'', JNum (of_int (limitHeader h))), (''X-RateLimit-Remaining'', JNum (of_int (remainingHeader h))),
      (''X-RateLimit-Reset'', JNum (of_int (resetHeader h)))]"

text \<open>
  \<open>serve\<close>: the answer, the line of the access log, and the new state of gateway and analytics. A redirected request
  has left before the collector and the access log are mounted; one without an answer never finishes.
\<close>

definition serve ::
  "('r, 'm) deps \<Rightarrow> visit \<Rightarrow> inbound \<Rightarrow> 'r adc_ca \<times> 'm analytics \<Rightarrow>
   (answer option \<times> string option) \<times> 'r adc_ca \<times> 'm analytics" where
  "serve d v x st =
     (case st of (s, a) \<Rightarrow>
      case edge_filters (d_cfg d) (d_cors d) (v_now v) (v_limiter v) (in_req x) (in_query x) s of (verdict, s) \<Rightarrow>
      (let req = correlationIdMiddleware (v_uuid v) (in_req x);
           hs = correlated_headers req [];
           (r, s) =
             (case verdict of
                Redirected target \<Rightarrow> (Some \<lparr>an_status = 301, an_headers = [(''location'', JStr target)], an_body = d_error d 301\<rparr>, s)
              | Refuse code message \<Rightarrow> (Some (plain_answer d code hs), s)
              | Preflight \<Rightarrow> (Some \<lparr>an_status = 204, an_headers = hs, an_body = []\<rparr>, s)
              | Limited h retryAfter \<Rightarrow>
                  (Some (plain_answer d 429 (setHeader ''Retry-After'' (JNum (of_int retryAfter)) (given_headers (rate_headers h) hs))), s)
              | Admitted h \<Rightarrow> through_cache d v x req (given_headers (rate_headers h) hs) a s)
       in case (verdict, r) of
            (Redirected target, _) \<Rightarrow> ((r, None), s, a)
          | (_, None) \<Rightarrow> ((None, None), s, a)
          | (_, Some r) \<Rightarrow>
              ((Some r, Some (access_line (d_morgan d r) req (header_text r))),
               s, recordTransactionLog (d_mongo d) (v_end v) (v_end_ns v) (v_ns v) req None (an_status r) (header_text r) a)))"

lemma handlers_match: "length handlers = length api_routes"
  by (simp add: handlers_def api_routes_def)

section \<open>What a client without a token can change\<close>

text \<open>The settings: what only an administrator should change.\<close>

definition settings :: "('r, 'a) adc_ca_scheme \<Rightarrow> _" where
  "settings s =
     (algorithm s, map (\<lambda>b. (bid b, url b, weight b, adminDisabled b)) (pool s), blockedIps s, autoEnforce s, zThreshold s)"

lemma settings_admin: "admin_view s = admin_view t \<Longrightarrow> settings s = settings t"
  by (simp add: settings_def admin_view_def)

lemma settings_fields [simp]:
  "settings (logEvent now ty req dt s) = settings s"
  "settings (put_breaker i br s) = settings s"
  "settings (s\<lparr>emitted := em\<rparr>) = settings s"
  "settings (s\<lparr>drainTimers := dts\<rparr>) = settings s"
  "settings (s\<lparr>rrIndex := x\<rparr>) = settings s"
  "settings (s\<lparr>wrrIndex := z\<rparr>) = settings s"
  "settings (s\<lparr>wrrWeight := y\<rparr>) = settings s"
  "settings (s\<lparr>memoryBuckets := mb\<rparr>) = settings s"
  "settings (s\<lparr>redisBuckets := rb\<rparr>) = settings s"
  "settings (s\<lparr>penalizedIps := pe\<rparr>) = settings s"
  "settings (s\<lparr>ipStats := st\<rparr>) = settings s"
  "settings (s\<lparr>memoryCache := mc\<rparr>) = settings s"
  "settings (s\<lparr>redis := rd\<rparr>) = settings s"
  "settings (put_history i h s) = settings s"
  "settings (clear_timer i s) = settings s"
  "settings (recordHit l s) = settings s"
  "settings (recordMiss l s) = settings s"
  "settings (recordBypass s) = settings s"
  by (simp_all add: settings_def logEvent_def put_breaker_def put_history_def clear_timer_def recordHit_def recordMiss_def recordBypass_def)

lemma settings_update [simp]:
  assumes "\<And>b. bid (f b) = bid b \<and> url (f b) = url b \<and> weight (f b) = weight b \<and> adminDisabled (f b) = adminDisabled b"
  shows "settings (update_backend i f s) = settings s"
proof -
  have "map (\<lambda>b. (bid b, url b, weight b, adminDisabled b)) (modify_first P f bs) =
        map (\<lambda>b. (bid b, url b, weight b, adminDisabled b)) bs" for P bs
    by (rule map_modify_first) (simp add: assms)
  then show ?thesis by (simp add: settings_def update_backend_def)
qed

lemma settings_breaker [simp]:
  "settings (update_breaker i g s) = settings s"
  "settings (transitionTo now i br st r s) = settings s"
  "settings (snd (getBreaker now i s)) = settings s"
  "settings (snd (canExecute cfg now i s)) = settings s"
  by (auto simp: update_breaker_def transitionTo_def getBreaker_def canExecute_def Let_def set_health_def
      split: option.split circuit_state.split)

lemma settings_outcome [simp]:
  "settings (recordSuccess cfg now i s) = settings s"
  "settings (recordFailure cfg now i err s) = settings s"
  by (auto simp: recordSuccess_def recordFailure_def getBreaker_def Let_def split: option.split)

lemma settings_metrics [simp]:
  "settings (cleanup now i s) = settings s"
  "settings (recordTransaction now i l e s) = settings s"
  "settings (snd (read_score now i s)) = settings s"
  by (auto simp: cleanup_def recordTransaction_def read_score_def getBackendMetrics_def case_prod_unfold Let_def split: option.split)

lemma settings_scores [simp]:
  "settings (snd (read_scores now is s)) = settings s"
  "settings (snd (break_tie now bs acc s)) = settings s"
  by (induction "is" arbitrary: s, simp_all add: case_prod_unfold Let_def)
    (induction bs arbitrary: acc s, simp_all add: case_prod_unfold Let_def)

lemma settings_strategy [simp]: "settings (snd (strategy_select md5 st now req bs s)) = settings s"
  by (cases st)
    (auto simp: rr_select_def lc_select_def wrr_select_def ipHash_select_def ch_select_def
      case_prod_unfold Let_def split: option.split list.split)

lemma settings_healthy [simp]: "settings (snd (filter_healthy cfg now is s)) = settings s"
  by (induction "is" arbitrary: s) (auto simp: case_prod_unfold Let_def split: option.split)

lemma settings_select [simp]: "settings (snd (selectBackend cfg md5 now req fb s)) = settings s"
  by (simp add: selectBackend_def getHealthyBackends_def case_prod_unfold Let_def split: sum.split option.split)

lemma settings_drain [simp]:
  "settings (open_connection i s) = settings s"
  "settings (completeDrain now i r s) = settings s"
  "settings (decrement_connection now i s) = settings s"
  by (auto simp: open_connection_def completeDrain_def decrement_connection_def onDrainComplete_cb_def Let_def
      offline_backend_def split: option.split)

lemma settings_router [simp]: "settings (snd (snd (router cfg md5 now req s))) = settings s"
  by (auto simp: router_def split: option.split selection.split prod.split) (metis settings_select snd_conv)+

lemma settings_collect [simp]:
  "settings (collectProxyError now ns b t s) = settings s"
  "settings (collectProxyResponse now ns b t c s) = settings s"
  by (auto simp: collectProxyError_def collectProxyResponse_def split: option.split)

lemma settings_hooks [simp]:
  "settings (snd (snd (handleProxyError cfg now ns rnd err req s))) = settings s"
  "settings (snd (proxyRes cfg now ns c req s)) = settings s"
  by (auto simp: handleProxyError_def proxyRes_def Let_def split: option.split)

lemma settings_pass:
  "settings (snd (snd (proxyInstance cfg md5 nt prev env req s))) = settings s"
proof -
  obtain u req1 s1 where r: "router cfg md5 (e_routed env) req s = (u, req1, s1)" by (metis prod_cases3)
  obtain e req' s' where p: "proxyInstance cfg md5 nt prev env req s = (e, req', s')" by (metis prod_cases3)
  have one: "settings s1 = settings s" using settings_router [of cfg md5 "e_routed env" req s] r by simp
  show ?thesis
  proof (cases rule: proxyInstance_cases [OF p r, where i = "[]", case_names Stay Response Error])
    case (Response c q)
    with one settings_hooks(2) [of cfg "e_done env" "e_ns env" c q s1] p show ?thesis by simp
  next
    case (Error err q)
    with one settings_hooks(1) [of cfg "e_done env" "e_ns env" "e_random env" err q s1] p show ?thesis by simp
  qed (use one p in simp)
qed

lemma settings_run: "settings (snd (snd (proxy_run cfg md5 nt prev envs req s))) = settings s"
proof (induction envs arbitrary: prev req s)
  case (Cons env envs)
  obtain e req' s' where p: "proxyInstance cfg md5 nt prev env req s = (e, req', s')" by (metis prod_cases3)
  with settings_pass [of cfg md5 nt prev env req s] Cons.IH show ?case by (cases e) simp_all
qed simp

lemma settings_proxy: "proxyMiddlewareWithRetry cfg md5 nt envs req s = (fin, req', s') \<Longrightarrow> settings s' = settings s"
  unfolding proxyMiddlewareWithRetry_def by (metis settings_run snd_conv)

lemma settings_ends [simp]: "settings (response_ends now is s) = settings s"
  by (induction "is" arbitrary: s) simp_all

lemma settings_limiter [simp]: "settings (snd (rateLimit cfg now rd req s)) = settings s"
proof -
  have e: "settings (snd (effective_capacity cfg now ip s)) = settings s" for ip s
    by (auto simp: effective_capacity_def split: option.split)
  have b: "settings (snd (evalTokenBucketMemory ip c r now k t)) = settings t"
    "settings (snd (evalTokenBucketRedis ip c r now k t)) = settings t" for ip c r k t
    by (auto simp: evalTokenBucketMemory_def evalTokenBucketRedis_def case_prod_unfold Let_def)
  show ?thesis
    using e [of "getClientIp req" s] by (auto simp: rateLimit_def case_prod_unfold Let_def b split: redis_call.split)
qed

lemma settings_filters [simp]:
  "settings (snd (blocklistMiddleware now req s)) = settings s"
  "settings (snd (headerValidator now req s)) = settings s"
  "settings (anomalyMiddleware cfg now req s) = settings s"
  "settings (snd (wafMiddleware now req q b s)) = settings s"
  "settings (snd (jwtMiddleware jwt now req s)) = settings s"
  by (auto simp: blocklistMiddleware_def headerValidator_def anomalyMiddleware_def recordRequest_def wafMiddleware_def
      jwtMiddleware_def Let_def split: option.split sum.split)

lemma edge_states:
  "snd (edge_filters cfg cors now rd req q s) \<in>
     (let s1 = snd (blocklistMiddleware now req s); s2 = snd (headerValidator now req s1);
          s3 = snd (rateLimit (g_rl cfg) now rd req s2); s4 = anomalyMiddleware (g_an cfg) now req s3
      in {s, s1, s2, s3, snd (wafMiddleware now req q JUndefined s4)})"
  by (simp add: edge_filters_def case_prod_unfold Let_def split: redirect_verdict.split verdict.split rl_verdict.split)

lemma settings_edge [simp]: "settings (snd (edge_filters cfg cors now rd req q s)) = settings s"
  using edge_states [of cfg cors now rd req q s] by (auto simp: Let_def)

lemma settings_cache [simp]:
  "settings (snd (cacheMiddleware cfg rc now ns ns' req hs s)) = settings s"
  "settings (cacheEnd cfg rc now ns' k ns code hs chunks s) = settings s"
proof -
  have g: "settings (snd (cache_get cfg rc now k s)) = settings s" for k
    by (auto simp: cache_get_def split: option.split sum.split)
  show "settings (snd (cacheMiddleware cfg rc now ns ns' req hs s)) = settings s"
    using g [of "''sentinel:cache:'' @ url_of req"] by (auto simp: cacheMiddleware_def Let_def split: option.split prod.split)
  show "settings (cacheEnd cfg rc now ns' k ns code hs chunks s) = settings s"
    by (auto simp: cacheEnd_def cache_set_def Let_def split: sum.split)
qed

text \<open>The routes: without a valid token they behave like open ones or stop at the check.\<close>

lemma settings_api:
  assumes "\<not> valid_token jwt now req"
  shows "settings (snd (api cfg jwt rc e now req call s)) = settings s"
proof (cases "open_route call")
  case True
  then show ?thesis by (intro settings_admin) (simp add: api_def open_route_harmless)
next
  case False
  obtain m dt where "jwtMiddleware jwt now req s = (Inl m, logEvent now ''unauthorized-jwt'' req dt s)"
    using jwtMiddleware_refuses [OF assms] by blast
  with False show ?thesis by (simp add: api_def)
qed

lemma settings_answers [simp]:
  "settings (snd (proxy_answer d v req hs s)) = settings s"
  "settings (snd (after_api d v req hs s)) = settings s"
proof -
  show "settings (snd (proxy_answer d v req hs s)) = settings s" for s
    by (auto simp: proxy_answer_def settings_proxy split: prod.split list.split)
  then show "settings (snd (after_api d v req hs s)) = settings s" by (simp add: after_api_def)
qed

lemma settings_checked:
  "(\<And>s. settings (snd (k s)) = settings s) \<Longrightarrow> settings (snd (checked d v req hs k s)) = settings s"
  by (auto simp: checked_def split: prod.split sum.split) (metis settings_filters(5) snd_conv)+

lemma settings_routed:
  assumes "\<not> valid_token (d_jwt d) (v_now v) req"
  shows "settings (snd (routed d v x req hs a s)) = settings s"
proof -
  have "settings (snd (api_answer d v req hs call s)) = settings s" for call
    using settings_api [OF assms] by (simp add: api_answer_def case_prod_unfold)
  then show ?thesis
    by (auto simp: routed_def Let_def settings_checked split: sum.split option.split handler.split)
qed

text \<open>
  C4: from end to end nobody changes the settings without a token. Whatever a request without a valid token contains,
  whichever filters, cache entries, routes, retries and backend outcomes it meets: the algorithm, the members with
  their weights and administrative state, the blocklist and the detector's settings are the same afterwards.
\<close>

theorem settings_need_token:
  assumes "\<not> valid_token (d_jwt d) (v_now v) (in_req x)"
  shows "settings (fst (snd (serve d v x (s, a)))) = settings s"
proof -
  let ?req = "correlationIdMiddleware (v_uuid v) (in_req x)"
  have "\<not> valid_token (d_jwt d) (v_now v) ?req"
    using assms by (simp add: valid_token_def correlationIdMiddleware_def header_def)
  note r = settings_routed [OF this]
  have t: "settings (snd (through_cache d v x ?req hs a s)) = settings s" for hs s
  proof -
    obtain c s1 where c: "cacheMiddleware (g_cache (d_cfg d)) (d_redis d) (v_now v) (v_ns v) (v_found v) ?req hs s = (c, s1)"
      by fastforce
    then have "settings s1 = settings s"
      using settings_cache(1) [of "g_cache (d_cfg d)" "d_redis d" "v_now v" "v_ns v" "v_found v" ?req hs s] by simp
    with r [of x _ a s1] show ?thesis
      by (auto simp: through_cache_def c split: cache_decision.split prod.split option.split) (metis snd_conv)+
  qed
  have e: "settings (snd (edge_filters (d_cfg d) (d_cors d) (v_now v) (v_limiter v) (in_req x) (in_query x) s)) = settings s"
    by (rule settings_edge)
  obtain verdict s1 where v: "edge_filters (d_cfg d) (d_cors d) (v_now v) (v_limiter v) (in_req x) (in_query x) s = (verdict, s1)"
    by fastforce
  with e have s1: "settings s1 = settings s" by simp
  show ?thesis
  proof (cases verdict)
    case (Admitted h)
    obtain r s2 where "through_cache d v x ?req (given_headers (rate_headers h) (correlated_headers ?req [])) a s1 = (r, s2)"
      by fastforce
    with t [of "given_headers (rate_headers h) (correlated_headers ?req [])" s1] Admitted v s1 show ?thesis
      by (cases r) (simp_all add: serve_def Let_def)
  qed (use v s1 in \<open>simp_all add: serve_def Let_def\<close>)
qed

section \<open>The cache in front of the token check\<close>

definition cache_part :: "('r, 'a) adc_ca_scheme \<Rightarrow> (string \<times> cache_record) list \<times> bool" where
  "cache_part s = (memoryCache s, useMemoryFallback s)"

lemma cache_part_fields [simp]:
  "cache_part (logEvent now ty req dt s) = cache_part s"
  "cache_part (s\<lparr>memoryBuckets := mb\<rparr>) = cache_part s"
  "cache_part (s\<lparr>redisBuckets := rb\<rparr>) = cache_part s"
  "cache_part (s\<lparr>penalizedIps := pe\<rparr>) = cache_part s"
  "cache_part (s\<lparr>ipStats := st\<rparr>) = cache_part s"
  by (simp_all add: cache_part_def logEvent_def)

lemma cache_part_limiter [simp]: "cache_part (snd (rateLimit cfg now rd req s)) = cache_part s"
proof -
  have e: "cache_part (snd (effective_capacity cfg now ip s)) = cache_part s" for ip s
    by (auto simp: effective_capacity_def split: option.split)
  have b: "cache_part (snd (evalTokenBucketMemory ip c r now k t)) = cache_part t"
    "cache_part (snd (evalTokenBucketRedis ip c r now k t)) = cache_part t" for ip c r k t
    by (auto simp: evalTokenBucketMemory_def evalTokenBucketRedis_def case_prod_unfold Let_def)
  show ?thesis
    using e [of "getClientIp req" s] by (auto simp: rateLimit_def case_prod_unfold Let_def b split: redis_call.split)
qed

lemma cache_part_filters [simp]:
  "cache_part (snd (blocklistMiddleware now req s)) = cache_part s"
  "cache_part (snd (headerValidator now req s)) = cache_part s"
  "cache_part (anomalyMiddleware cfg now req s) = cache_part s"
  "cache_part (snd (wafMiddleware now req q b s)) = cache_part s"
  by (auto simp: blocklistMiddleware_def headerValidator_def anomalyMiddleware_def recordRequest_def wafMiddleware_def
      Let_def split: option.split)

lemma cache_part_edge: "cache_part (snd (edge_filters cfg cors now rd req q s)) = cache_part s"
  using edge_states [of cfg cors now rd req q s] by (auto simp: Let_def)

lemma jwt_accepts: "valid_token jwt now req \<Longrightarrow> \<exists>user. jwtMiddleware jwt now req s = (Inr user, s)"
  by (auto simp: valid_token_def jwtMiddleware_def js_startsWith_def Let_def split: option.splits sum.splits)

text \<open>The admin-only answers that are computed without touching the state.\<close>

definition private_calls :: "api_call set" where
  "private_calls = {GetAlgorithm, GetBackends, GetEvents, GetBlocklist, GetBreakers}"

lemma private_api:
  assumes "call \<in> private_calls" "valid_token (d_jwt d) (v_now v) req"
  shows "api_answer d v req hs call s = (Some \<lparr>an_status = 200, an_headers = hs, an_body = d_text d call s\<rparr>, s)"
proof -
  obtain user where "jwtMiddleware (d_jwt d) (v_now v) req s = (Inr user, s)" using jwt_accepts [OF assms(2)] by blast
  with assms(1) show ?thesis
    by (auto simp: private_calls_def api_answer_def api_def getAlgorithmRoute_def getBackendsRoute_def getEvents_def
        getBlocklist_def getCircuitBreakers_def)
qed

lemma correlation_same [simp]:
  "cacheable (correlationIdMiddleware u req) = cacheable req"
  "url_of (correlationIdMiddleware u req) = url_of req"
  "cache_key (correlationIdMiddleware u req) = cache_key req"
  "req_path (correlationIdMiddleware u req) = req_path req"
  "http_method (correlationIdMiddleware u req) = http_method req"
  "valid_token jwt now (correlationIdMiddleware u req) = valid_token jwt now req"
  by (simp_all add: correlationIdMiddleware_def cacheable_def hasNoCacheHeader_def url_of_def cache_key_def header_def valid_token_def)

lemma lookup_miss:
  assumes "cacheable req" "cache_enabled cfg" "useMemoryFallback s" "map_of (memoryCache s) (cache_key req) = None"
  shows "cacheMiddleware cfg rc now ns ns' req hs s = (CacheMiss (cache_key req) ns (setHeader ''x-cache'' (JStr ''MISS'') hs), s)"
  using assms by (simp add: cacheMiddleware_def cacheable_def cache_key_def cache_get_def isActive_def Let_def)

lemma lookup_hit:
  assumes "cacheable req" "cache_enabled cfg" "useMemoryFallback s"
    and "map_of (memoryCache s) (cache_key req) = Some rc'" "now \<le> cr_expiresAt rc'" "cv_status (cr_value rc') = 200"
  shows "\<exists>hs' s'. cacheMiddleware cfg rc now ns ns' req hs s = (CacheHit 200 hs' (cv_body (cr_value rc')), s')"
  using assms by (simp add: cacheMiddleware_def cacheable_def cache_key_def cache_get_def isActive_def or_status_def Let_def)

text \<open>An administrator's first look at such a page: the answer is kept.\<close>

lemma private_serve:
  assumes "cache_enabled (g_cache (d_cfg d))" "useMemoryFallback s" "map_of (memoryCache s) (cache_key (in_req x)) = None"
    and "cacheable (in_req x)" "under_api (below_root (req_path (in_req x)))" "in_body x = Inr body"
    and "find_handler (d_decode d) ''GET'' (below_root (req_path (in_req x))) body (in_query x) = Some (Call call, True)"
    and "call \<in> private_calls" "valid_token (d_jwt d) (v_now v) (in_req x)"
    and "edge_filters (d_cfg d) (d_cors d) (v_now v) (v_limiter v) (in_req x) (in_query x) s = (Admitted h, s1)"
  obtains hs l a' where "serve d v x (s, a) =
      ((Some \<lparr>an_status = 200, an_headers = hs, an_body = d_text d call s1\<rparr>, l),
       cacheEnd (g_cache (d_cfg d)) (d_redis d) (v_end v) (v_end_ns v) (cache_key (in_req x)) (v_ns v) 200 hs [d_text d call s1] s1, a')"
    "cache_part s1 = cache_part s" "settings s1 = settings s"
proof -
  let ?req = "correlationIdMiddleware (v_uuid v) (in_req x)"
  let ?hs = "given_headers (rate_headers h) (correlated_headers ?req [])"
  let ?hs1 = "setHeader ''x-cache'' (JStr ''MISS'') ?hs"
  have m1: "cache_part s1 = cache_part s" "settings s1 = settings s"
    using cache_part_edge [of "d_cfg d" "d_cors d" "v_now v" "v_limiter v" "in_req x" "in_query x" s]
      settings_edge [of "d_cfg d" "d_cors d" "v_now v" "v_limiter v" "in_req x" "in_query x" s] assms(10) by simp_all
  have get: "http_method (in_req x) = Some ''GET''" using assms(4) by (simp add: cacheable_def)
  have "routed d v x ?req ?hs1 a s1 = (Some \<lparr>an_status = 200, an_headers = ?hs1, an_body = d_text d call s1\<rparr>, s1)"
    using assms(5-9) get private_api [of call d v ?req ?hs1 s1] by (simp add: routed_def Let_def)
  moreover have "cacheMiddleware (g_cache (d_cfg d)) (d_redis d) (v_now v) (v_ns v) (v_found v) ?req ?hs s1 =
      (CacheMiss (cache_key (in_req x)) (v_ns v) ?hs1, s1)"
    using lookup_miss [of ?req "g_cache (d_cfg d)" s1] assms(1-4) m1(1) by (simp add: cache_part_def)
  ultimately have "through_cache d v x ?req ?hs a s1 = (Some \<lparr>an_status = 200, an_headers = ?hs1, an_body = d_text d call s1\<rparr>,
      cacheEnd (g_cache (d_cfg d)) (d_redis d) (v_end v) (v_end_ns v) (cache_key (in_req x)) (v_ns v) 200 ?hs1 [d_text d call s1] s1)"
    by (simp add: through_cache_def)
  then show thesis using assms(10) m1 by (intro that) (simp_all add: serve_def Let_def)
qed

text \<open>
  C40: the cache answers in front of the token check. The routers match \<^verbatim>\<open>/API/...\<close> like \<^verbatim>\<open>/api/...\<close>, the cache exempts
  only \<^verbatim>\<open>/api\<close>. So once an administrator has read the members, the algorithm, the events, the blocklist or the
  breakers under such a path, anyone whose request passes the filters gets the same text for the lifetime of the
  entry: no assumption is made about the token of the second request.
\<close>

theorem capitalised_api_leaks:
  assumes mode: "cache_enabled (g_cache (d_cfg d))" "useMemoryFallback s" "map_of (memoryCache s) (cache_key (in_req x)) = None"
    and x: "cacheable (in_req x)" "under_api (below_root (req_path (in_req x)))" "in_body x = Inr body"
      "find_handler (d_decode d) ''GET'' (below_root (req_path (in_req x))) body (in_query x) = Some (Call call, True)"
      "call \<in> private_calls" "valid_token (d_jwt d) (v_now v) (in_req x)"
      "fst (edge_filters (d_cfg d) (d_cors d) (v_now v) (v_limiter v) (in_req x) (in_query x) s) = Admitted h"
    and first: "serve d v x (s, a) = ((Some r, l), s', a')"
    and x': "cacheable (in_req x')" "url_of (in_req x') = url_of (in_req x)"
      "v_now v' \<le> v_end v + cache_ttl (g_cache (d_cfg d)) * 1000"
      "fst (edge_filters (d_cfg d) (d_cors d) (v_now v') (v_limiter v') (in_req x') (in_query x') s') = Admitted h'"
  shows "an_status r = 200 \<and> (\<exists>t. settings t = settings s \<and> an_body r = d_text d call t) \<and>
         (\<exists>r'. fst (fst (serve d v' x' (s', a'))) = Some r' \<and> an_status r' = 200 \<and> an_body r' = utf8_text (an_body r))"
proof -
  let ?req' = "correlationIdMiddleware (v_uuid v') (in_req x')" and ?cfg = "g_cache (d_cfg d)"
  obtain s1 where s1: "edge_filters (d_cfg d) (d_cors d) (v_now v) (v_limiter v) (in_req x) (in_query x) s = (Admitted h, s1)"
    using x(7) by (metis prod.collapse)
  obtain hs where r: "r = \<lparr>an_status = 200, an_headers = hs, an_body = d_text d call s1\<rparr>"
      "s' = cacheEnd ?cfg (d_redis d) (v_end v) (v_end_ns v) (cache_key (in_req x)) (v_ns v) 200 hs [d_text d call s1] s1"
      and m1: "cache_part s1 = cache_part s" "settings s1 = settings s"
    using private_serve [OF mode x(1-6) s1, of a] first by (metis Pair_inject option.inject)
  define e where "e = \<lparr>cr_value = \<lparr>cv_status = 200, cv_headers = AList.delete ''x-cache'' hs, cv_body = utf8_text (an_body r)\<rparr>,
      cr_expiresAt = v_end v + cache_ttl ?cfg * 1000\<rparr>"
  have s2: "map_of (memoryCache s') (cache_key (in_req x)) = Some e" "useMemoryFallback s'"
    using mode m1(1)
    by (simp_all add: r cacheEnd_def cache_set_def isActive_def cache_part_def recordMiss_def update_conv' e_def Let_def)
  obtain s3 where s3: "edge_filters (d_cfg d) (d_cors d) (v_now v') (v_limiter v') (in_req x') (in_query x') s' = (Admitted h', s3)"
    using x'(4) by (metis prod.collapse)
  have m3: "cache_part s3 = cache_part s'"
    using cache_part_edge [of "d_cfg d" "d_cors d" "v_now v'" "v_limiter v'" "in_req x'" "in_query x'" s'] s3 by simp
  let ?hs' = "given_headers (rate_headers h') (correlated_headers ?req' [])"
  have "cache_key ?req' = cache_key (in_req x)" using x'(2) by (simp add: cache_key_def)
  then obtain hs' s4 where "cacheMiddleware ?cfg (d_redis d) (v_now v') (v_ns v') (v_found v') ?req' ?hs' s3 =
      (CacheHit 200 hs' (utf8_text (an_body r)), s4)"
    using lookup_hit [of ?req' ?cfg s3 e "v_now v'" "d_redis d" "v_ns v'" "v_found v'" ?hs'] x'(1,3) mode(1) s2 m3
    by (auto simp: cache_part_def e_def)
  then have "fst (fst (serve d v' x' (s', a'))) = Some \<lparr>an_status = 200, an_headers = hs', an_body = utf8_text (an_body r)\<rparr>"
    using s3 by (simp add: serve_def through_cache_def Let_def)
  with m1(2) show ?thesis by (auto simp: r(1))
qed

definition demo_deps :: "(nat, unit) deps" where
  "demo_deps =
     \<lparr>d_cfg = demo_gw, d_jwt = demo_jwt, d_redis = demo_redis, d_mongo = demo_mongo, d_api = demo_api_env, d_md5 = demo_md5,
      d_cors = (\<lambda>req. False), d_no_target = Some ''no target'', d_decode = Some, d_text = (\<lambda>call s. ''[]''),
      d_report = (\<lambda>r a. ''{}''), d_error = (\<lambda>n. []), d_morgan = (\<lambda>r n. None)\<rparr>"

definition demo_visit :: "time \<Rightarrow> visit" where
  "demo_visit t =
     \<lparr>v_now = t, v_end = t + 20, v_ns = 1000000 * t, v_found = 1000000 * t + 500000, v_end_ns = 1000000 * (t + 20),
      v_limiter = RedisInactive, v_uuid = ''u-1'', v_attempts = demo_envs, v_upstream_headers = [], v_chunks = [''ok'']\<rparr>"

definition demo_inbound :: "(string \<times> string) list \<Rightarrow> string \<Rightarrow> inbound" where
  "demo_inbound hs p =
     \<lparr>in_req = demo_edge_req\<lparr>headers := (''host'', ''adc'') # hs, http_method := Some ''GET'', req_path := p, originalUrl := Some p\<rparr>,
      in_query = JObj [], in_body = Inr (JObj [])\<rparr>"

definition demo_admin :: inbound where
  "demo_admin = demo_inbound [(''authorization'', ''Bearer hdr.admin.s3cret'')] ''/API/admin/backends''"

definition demo_anyone :: inbound where
  "demo_anyone = (demo_inbound [] ''/API/admin/backends'')\<lparr>in_req := (in_req (demo_inbound [] ''/API/admin/backends''))
     \<lparr>remoteAddress := Some ''10.2.2.2''\<rparr>\<rparr>"

text \<open>A text that lacks a character of some literal of each signature is no attack.\<close>

lemma match_literals: "matches r s i j \<Longrightarrow> Lit w \<in> set r \<Longrightarrow> set w \<subseteq> set (js_lower s)"
proof (induction rule: matches.induct)
  case (m_lit w' i s r j)
  have "set (js_lower (take (length w') (drop i s))) \<subseteq> set (js_lower s)"
    using set_take_subset [of "length w'" "drop i s"] set_drop_subset [of i s] by (auto simp: js_lower_def)
  with m_lit show ?case by auto
qed auto

fun lacks_literal :: "string \<Rightarrow> regex \<Rightarrow> bool" where
  "lacks_literal s (Lit w # r) \<longleftrightarrow> list_ex (\<lambda>c. c \<notin> set s) w \<or> lacks_literal s r"
| "lacks_literal s (_ # r) = lacks_literal s r"
| "lacks_literal s [] = False"

lemma lacks_literal_set: "lacks_literal s r \<Longrightarrow> \<exists>w. Lit w \<in> set r \<and> \<not> set w \<subseteq> set s"
  by (induction s r rule: lacks_literal.induct) (auto simp: list_ex_iff)

lemma harmless_text:
  assumes "list_all (lacks_literal (js_lower s)) (sqli_patterns @ xss_patterns)"
  shows "\<not> malicious s"
proof -
  have "\<not> test r s" if "lacks_literal (js_lower s) r" for r
    using lacks_literal_set [OF that] by (auto simp: test_matches dest: match_literals)
  with assms show ?thesis by (auto simp: malicious_def list_all_iff list_ex_iff)
qed

lemma admitted_state:
  assumes "fst (edge_filters cfg cors now rd req q s) = Admitted h"
  shows "snd (edge_filters cfg cors now rd req q s) = anomalyMiddleware (g_an cfg) now req (snd (rateLimit (g_rl cfg) now rd req s))"
proof -
  obtain s1 s2 s3 s4 where "blocklistMiddleware now req s = (Pass, s1)" "headerValidator now req s1 = (Pass, s2)"
    "rateLimit (g_rl cfg) now rd req s2 = (RlNext h, s3)"
    "wafMiddleware now req q JUndefined (anomalyMiddleware (g_an cfg) now req s3) = (Pass, s4)"
    "snd (edge_filters cfg cors now rd req q s) = s4"
    using assms by (auto simp: edge_filters_def Let_def split: redirect_verdict.splits prod.splits verdict.splits rl_verdict.splits if_splits)
  with verdict_state(1) [of now req s s1] verdict_state(2) [of now req s1 s2]
    verdict_state(3) [of now req q JUndefined "anomalyMiddleware (g_an cfg) now req s3" s4] show ?thesis by simp
qed

lemma demo_inbound_admitted:
  assumes "x = demo_admin \<or> x = demo_anyone" "blockedIps s = [JStr ''10.6.6.6'']" "penalizedIps s = []"
    and "map_of (memoryBuckets s) (getClientIp (in_req x)) = None"
  shows "\<exists>h. fst (edge_filters demo_gw (\<lambda>req. False) now RedisInactive (in_req x) (JObj []) s) = Admitted h"
proof -
  have clean: "\<not> malicious (req_path (in_req x))"
    using assms(1) by (intro harmless_text) (elim disjE; hypsubst; code_simp)
  have fw: "passes_firewall (in_req x) s"
    using assms(1,2) by (auto simp: passes_firewall_def isBlocked_def demo_admin_def demo_anyone_def demo_inbound_def
        demo_edge_req_def getClientIp_def header_def)
  have "\<exists>hs. fst (rateLimit (g_rl demo_gw) now RedisInactive (in_req x) s) = RlNext hs"
    by (rule rateLimit_new_client) (use assms(3,4) in \<open>simp_all add: demo_gw_def demo_rl_cfg_def\<close>)
  moreover have "tlsRedirect (g_tls demo_gw) (url_of (in_req x)) (in_req x) = NoRedirect"
    by (simp add: tlsRedirect_def demo_gw_def)
  ultimately show ?thesis unfolding edge_admits_parts using fw clean by simp
qed

text \<open>The state after the administrator's request, as far as the filters look at it.\<close>

lemma cacheEnd_filters:
  "blockedIps (cacheEnd cfg rc now ns' k ns code hs chunks s) = blockedIps s"
  "penalizedIps (cacheEnd cfg rc now ns' k ns code hs chunks s) = penalizedIps s"
  "memoryBuckets (cacheEnd cfg rc now ns' k ns code hs chunks s) = memoryBuckets s"
  by (simp_all add: cacheEnd_def cache_set_def recordMiss_def Let_def split: sum.split)

lemma demo_limited:
  "let s = anomalyMiddleware demo_an_cfg 30000 (in_req demo_admin) (snd (rateLimit demo_rl_cfg 30000 RedisInactive (in_req demo_admin) demo_ca))
   in blockedIps s = [JStr ''10.6.6.6''] \<and> penalizedIps s = [] \<and> map fst (memoryBuckets s) = [''10.1.1.1'']"
  by code_simp

theorem capitalised_api_leaks_witness:
  "case serve demo_deps (demo_visit 30000) demo_admin (demo_ca, demo_db) of
     ((r, l), st) \<Rightarrow> map_option an_body r = Some ''[]'' \<and>
       \<not> valid_token demo_jwt 31000 (in_req demo_anyone) \<and>
       map_option (\<lambda>r'. (an_status r', an_body r')) (fst (fst (serve demo_deps (demo_visit 31000) demo_anyone st))) = Some (200, ''[]'')"
proof -
  have d: "d_cfg demo_deps = demo_gw" "d_cors demo_deps = (\<lambda>req. False)" "d_jwt demo_deps = demo_jwt" "g_cache demo_gw = demo_ca_cfg"
    "g_an demo_gw = demo_an_cfg" "g_rl demo_gw = demo_rl_cfg"
    by (simp_all add: demo_deps_def demo_gw_def)
  have v: "v_now (demo_visit t) = t" "v_end (demo_visit t) = t + 20" "v_limiter (demo_visit t) = RedisInactive" for t
    by (simp_all add: demo_visit_def)
  have q: "in_query demo_admin = JObj []" "in_query demo_anyone = JObj []" "in_body demo_admin = Inr (JObj [])"
    by (simp_all add: demo_admin_def demo_anyone_def demo_inbound_def)
  have ips: "getClientIp (in_req demo_admin) = ''10.1.1.1''" "getClientIp (in_req demo_anyone) = ''10.2.2.2''" by code_simp+
  have start: "useMemoryFallback demo_ca" "map_of (memoryCache demo_ca) k = None" "blockedIps demo_ca = [JStr ''10.6.6.6'']"
    "penalizedIps demo_ca = []" "memoryBuckets demo_ca = []" for k by (simp_all add: demo_ca_fields) code_simp+
  have x: "cacheable (in_req demo_admin)" "under_api (below_root (req_path (in_req demo_admin)))"
    "find_handler (d_decode demo_deps) ''GET'' (below_root (req_path (in_req demo_admin))) (JObj []) (JObj []) = Some (Call GetBackends, True)"
    "valid_token demo_jwt 30000 (in_req demo_admin)" by code_simp+
  have x': "cacheable (in_req demo_anyone)" "url_of (in_req demo_anyone) = url_of (in_req demo_admin)"
    "\<not> valid_token demo_jwt 31000 (in_req demo_anyone)" by code_simp+
  have priv: "GetBackends \<in> private_calls" by (simp add: private_calls_def)
  obtain h where h: "fst (edge_filters demo_gw (\<lambda>req. False) 30000 RedisInactive (in_req demo_admin) (JObj []) demo_ca) = Admitted h"
    using demo_inbound_admitted [of demo_admin demo_ca 30000] start by auto
  then obtain s1 where s1: "edge_filters demo_gw (\<lambda>req. False) 30000 RedisInactive (in_req demo_admin) (JObj []) demo_ca = (Admitted h, s1)"
    by (metis prod.collapse)
  have f1: "blockedIps s1 = [JStr ''10.6.6.6'']" "penalizedIps s1 = []" "map fst (memoryBuckets s1) = [''10.1.1.1'']"
    using admitted_state [OF h] s1 demo_limited d by (simp_all add: Let_def)
  obtain hs l a' where first: "serve demo_deps (demo_visit 30000) demo_admin (demo_ca, demo_db) =
      ((Some \<lparr>an_status = 200, an_headers = hs, an_body = d_text demo_deps GetBackends s1\<rparr>, l),
       cacheEnd demo_ca_cfg (d_redis demo_deps) (v_end (demo_visit 30000)) (v_end_ns (demo_visit 30000)) (cache_key (in_req demo_admin))
         (v_ns (demo_visit 30000)) 200 hs [d_text demo_deps GetBackends s1] s1, a')"
    using private_serve [of demo_deps demo_ca demo_admin "JObj []" GetBackends "demo_visit 30000" h s1 demo_db] d v q x start priv s1
    by (metis demo_ca_fields(3))
  define s' where "s' = cacheEnd demo_ca_cfg (d_redis demo_deps) (v_end (demo_visit 30000)) (v_end_ns (demo_visit 30000))
      (cache_key (in_req demo_admin)) (v_ns (demo_visit 30000)) 200 hs [d_text demo_deps GetBackends s1] s1"
  have "map_of (memoryBuckets s') ''10.2.2.2'' = None"
    using f1(3) by (auto simp: s'_def cacheEnd_filters map_of_eq_None_iff simp flip: set_map)
  then obtain h' where h': "fst (edge_filters demo_gw (\<lambda>req. False) 31000 RedisInactive (in_req demo_anyone) (JObj []) s') = Admitted h'"
    using demo_inbound_admitted [of demo_anyone s' 31000] f1 ips by (auto simp: s'_def cacheEnd_filters)
  have ttl: "cache_enabled (g_cache (d_cfg demo_deps))" "v_now (demo_visit 31000) \<le> v_end (demo_visit 30000) + cache_ttl (g_cache (d_cfg demo_deps)) * 1000"
    by (simp_all add: d v demo_ca_fields)
  note leak = capitalised_api_leaks [of demo_deps demo_ca demo_admin "JObj []" GetBackends "demo_visit 30000" h demo_db _ l s' a' demo_anyone "demo_visit 31000" h']
  from leak ttl start x x' priv h h' first d v q
  have "map_option (\<lambda>r'. (an_status r', an_body r')) (fst (fst (serve demo_deps (demo_visit 31000) demo_anyone (s', a')))) =
      Some (200, utf8_text (d_text demo_deps GetBackends s1))" by (auto simp: s'_def simp del: utf8_text.simps)
  moreover have "utf8_text ''[]'' = ''[]''" by code_simp
  moreover have "d_text demo_deps GetBackends t = ''[]''" for t by (simp add: demo_deps_def)
  ultimately show ?thesis using first x'(3) by (auto simp: s'_def simp del: utf8_text.simps)
qed

theorem settings_need_token_witness:
  "settings (fst (snd (serve demo_deps (demo_visit 31000) demo_anyone (demo_ca, demo_db)))) = settings demo_ca"
proof -
  have "\<not> valid_token (d_jwt demo_deps) (v_now (demo_visit 31000)) (in_req demo_anyone)" by code_simp
  then show ?thesis by (rule settings_need_token)
qed

section \<open>Every request is answered\<close>

text \<open>The upstream broke off after the response had begun.\<close>

definition cut_off :: "attempt_env \<Rightarrow> bool" where
  "cut_off env = (case e_upstream env of UpResponse c \<Rightarrow> False | UpError e sent \<Rightarrow> sent)"

lemma error_replies:
  "handleProxyError cfg now ns rnd er q t = (Finished, q', t') \<Longrightarrow> \<not> headersSent q \<Longrightarrow> replies q' \<noteq> []"
  by (auto simp: handleProxyError_eq Let_def reply_def split: if_splits)

lemma settled_replies:
  assumes "proxyInstance cfg md5 (Some nt) prev env req s = (Finished, req', s')" "\<not> headersSent req" "\<not> cut_off env"
  shows "replies req' \<noteq> []"
proof -
  obtain u req1 s1 where r: "router cfg md5 (e_routed env) req s = (u, req1, s1)" by (metis prod_cases3)
  have one: "\<not> headersSent req1" using router_request [OF r] assms(2) by simp
  show ?thesis
    using assms one r
    by (cases u; cases "e_upstream env"; cases prev)
      (auto simp: proxyInstance_def cut_off_def Let_def proxyRes_def reply_def dest!: error_replies split: if_splits)
qed

lemma run_replies:
  assumes "proxy_run cfg md5 (Some nt) prev envs req s = (True, req', s')" "\<not> headersSent req" "list_all (\<lambda>env. \<not> cut_off env) envs"
  shows "replies req' \<noteq> []"
  using assms
proof (induction envs arbitrary: prev req s)
  case (Cons env envs)
  obtain e req1 s1 where p: "proxyInstance cfg md5 (Some nt) prev env req s = (e, req1, s1)" by (metis prod_cases3)
  show ?case
  proof (cases e)
    case (Retry dl b)
    with proxyInstance_pass [OF p Cons.prems(2)] have "\<not> headersSent req1" by (simp add: pass_ok_def)
    with Cons Retry p show ?thesis by simp
  next
    case Finished
    with Cons.prems p settled_replies [of cfg md5 nt prev env req s req1 s1] show ?thesis by simp
  qed
qed simp

definition answerable :: "('r, 'm) deps \<Rightarrow> visit \<Rightarrow> bool" where
  "answerable d v \<longleftrightarrow> d_no_target d \<noteq> None \<and> 3 \<le> length (v_attempts v) \<and> list_all (\<lambda>env. \<not> cut_off env) (v_attempts v)"

lemma proxy_answers:
  assumes "answerable d v" "attempts req = 0" "\<not> headersSent req"
  shows "fst (proxy_answer d v req hs s) \<noteq> None"
proof -
  obtain nt where nt: "d_no_target d = Some nt" using assms(1) by (auto simp: answerable_def)
  obtain fin req' s' where p: "proxy_run (g_cb (d_cfg d)) (d_md5 d) (Some nt) None (v_attempts v) (req\<lparr>attempts := 1\<rparr>) s = (fin, req', s')"
    by (metis prod_cases3)
  have "attempts_left (req\<lparr>attempts := 1\<rparr>) \<le> length (v_attempts v)"
    using assms(1) by (auto simp: attempts_left_def answerable_def)
  with proxy_run_correct [OF p] assms(3) have "fin" by simp
  with run_replies [of "g_cb (d_cfg d)" "d_md5 d" nt None "v_attempts v" "req\<lparr>attempts := 1\<rparr>" s req' s'] p assms(1,3)
  have "replies req' \<noteq> []" by (simp add: answerable_def)
  then show ?thesis using p assms(2) by (simp add: proxy_answer_def proxyMiddlewareWithRetry_def nt split: list.split)
qed

lemma api_answers: "fst (api cfg jwt rc e now req call s) = None \<Longrightarrow> \<exists>p. call = DeleteInvalidate p"
  by (cases call) (auto simp: api_def jwtMiddleware_def Let_def split: prod.splits sum.splits option.splits if_splits)

definition invalidation :: "('r, 'm) deps \<Rightarrow> inbound \<Rightarrow> bool" where
  "invalidation d x \<longleftrightarrow>
     (case in_body x of
        Inr body \<Rightarrow>
          (case find_handler (d_decode d) (the (or_else (http_method (in_req x)) (Some []))) (below_root (req_path (in_req x)))
                  body (in_query x) of
             Some (Call (DeleteInvalidate p), ok) \<Rightarrow> True
           | _ \<Rightarrow> False)
      | Inl err \<Rightarrow> False)"

lemma routed_answers:
  assumes "answerable d v" "attempts (in_req x) = 0" "\<not> headersSent (in_req x)" "\<not> invalidation d x"
  shows "fst (routed d v x (correlationIdMiddleware u (in_req x)) hs a s) \<noteq> None"
proof -
  let ?req = "correlationIdMiddleware u (in_req x)"
  have "attempts ?req = 0" "\<not> headersSent ?req" using assms(2,3) by (simp_all add: correlationIdMiddleware_def)
  then have after: "fst (after_api d v ?req hs t) \<noteq> None" for t
    using proxy_answers [OF assms(1)] by (simp add: after_api_def)
  have check: "fst (checked d v ?req hs k t) \<noteq> None" if "\<And>t. fst (k t) \<noteq> None" for k t
    using that by (auto simp: checked_def split: prod.split sum.split)
  have call: "fst (api_answer d v ?req hs c t) \<noteq> None" if "\<nexists>p. c = DeleteInvalidate p" for c t
  proof -
    have "fst (api (d_cfg d) (d_jwt d) (d_redis d) (d_api d) (v_now v) ?req c t) \<noteq> None" using that api_answers by blast
    then show ?thesis by (simp add: api_answer_def case_prod_unfold)
  qed
  show ?thesis
    using assms(4) after check call
    by (auto simp: routed_def invalidation_def Let_def split: sum.split option.split handler.split api_call.splits)
qed



end
