(* ===== verification/Benchmark.thy ===== *)
theory Benchmark
  imports Config Pipeline
begin

text \<open>
  \<^verbatim>\<open>benchmarks/run.js\<close>: the script that starts three sample backends and the gateway, loads the gateway with
  \<^verbatim>\<open>autocannon\<close> in four scenarios and prints a table. Its steps are data (\<open>script\<close>), a run is the list of what it
  does; the load generator, \<^verbatim>\<open>fetch\<close> and the inherited environment are a \<open>bench_world\<close>. Progress messages are left out.
\<close>

section \<open>The steps\<close>

text \<open>\<open>{ ...base, ...over }\<close>.\<close>

definition spread :: "(string \<times> 'v) list \<Rightarrow> (string \<times> 'v) list \<Rightarrow> (string \<times> 'v) list" where
  "spread base over = fold (\<lambda>(k, v). AList.update k v) over base"

definition GATEWAY_URL :: string where
  "GATEWAY_URL = ''http://127.0.0.1:3000''"

definition BENCHMARK_DURATION_SEC :: rat where
  "BENCHMARK_DURATION_SEC = 30"

datatype bench_step =
    Boot string "(string \<times> string) list"
  | Pause nat
  | Warm string
  | Measure string "(string \<times> js_value) list"

definition json_type :: js_value where
  "json_type = JObj [(''Content-Type'', JStr ''application/json'')]"

definition raw_scenario :: "(string \<times> js_value) list" where
  "raw_scenario = [(''method'', JStr ''POST''), (''body'', JStr ''{\"ping\":\"pong\"}''), (''headers'', json_type)]"

definition waf_scenario :: "(string \<times> js_value) list" where
  "waf_scenario =
     [(''method'', JStr ''POST''), (''body'', JStr ''{\"query\":\"SELECT * FROM users; DROP TABLE admin;\"}''),
      (''headers'', json_type)]"

definition mock_backend :: "string \<Rightarrow> string \<Rightarrow> bench_step" where
  "mock_backend port name =
     Boot ''backends/server.js'' [(''PORT'', port), (''SERVER_NAME'', name), (''SIMULATE_LATENCY'', ''false'')]"

definition gateway_env :: "(string \<times> string) list" where
  "gateway_env =
     [(''LOG_LEVEL'', ''warn''), (''REDIS_URL'', ''offline''), (''MONGO_URI'', ''offline''), (''TLS_ENABLED'', ''true''),
      (''TLS_PORT'', ''8443''), (''RATE_LIMIT_MAX_REQUESTS'', ''1000000''),
      (''BACKENDS'', ''http://127.0.0.1:4001,http://127.0.0.1:4002,http://127.0.0.1:4003'')]"

definition script :: "bench_step list" where
  "script =
     [mock_backend ''4001'' ''backend-1'', mock_backend ''4002'' ''backend-2'', mock_backend ''4003'' ''backend-3'',
      Pause 2000, Boot ''src/index.js'' gateway_env, Pause 3000,
      Measure ''Scenario 1: Raw Reverse Proxying (POST -> Backend)'' raw_scenario,
      Warm GATEWAY_URL, Pause 500,
      Measure ''Scenario 2: Cached Proxying (GET Cache-Hit)'' [(''method'', JStr ''GET'')],
      Measure ''Scenario 3: WAF Scanner overhead (POST SQLi Payloads)'' waf_scenario,
      Measure ''Scenario 4: HTTPS TLS Termination Passthrough''
        ((''url'', JStr ''https://127.0.0.1:8443'') # raw_scenario @ [(''tls'', JObj [(''rejectUnauthorized'', JBool False)])])]"

section \<open>A run\<close>

text \<open>The figures of one load test that the report reads; a field may be missing.\<close>

record results =
  requests_average :: rat
  latency_average :: rat
  latency_p50 :: rat
  latency_p97_5 :: "rat option"
  latency_p97_dot_5 :: "rat option"
  latency_p99 :: rat
  latency_max :: rat
  res_errors :: "nat option"
  res_timeouts :: "nat option"
  throughput_average :: rat

definition or_zero :: "nat option \<Rightarrow> rat" where
  "or_zero n = (case n of None \<Rightarrow> 0 | Some k \<Rightarrow> of_nat k)"

definition p97_5 :: "results \<Rightarrow> js_value" where
  "p97_5 r =
     (case latency_p97_5 r of
        Some q \<Rightarrow> if q \<noteq> 0 then JNum q else (case latency_p97_dot_5 r of Some x \<Rightarrow> JNum x | None \<Rightarrow> JUndefined)
      | None \<Rightarrow> (case latency_p97_dot_5 r of Some x \<Rightarrow> JNum x | None \<Rightarrow> JUndefined))"

definition report_row :: "results list \<Rightarrow> string \<Rightarrow> (results \<Rightarrow> js_value) \<Rightarrow> (string \<times> js_value) list" where
  "report_row rs label f =
     (''Metric'', JStr label) # zip [''Raw HTTP'', ''Cached Hit'', ''WAF Screening'', ''HTTPS (TLS)''] (map f rs)"

definition reportData :: "results list \<Rightarrow> (string \<times> js_value) list list" where
  "reportData rs =
     [report_row rs ''Throughput (Reqs/Sec)'' (\<lambda>r. JNum (of_int (js_round (requests_average r)))),
      report_row rs ''Average Latency (ms)'' (\<lambda>r. JNum (round2 (latency_average r))),
      report_row rs ''p50 Latency (ms)'' (\<lambda>r. JNum (latency_p50 r)),
      report_row rs ''p97.5 Latency (ms)'' p97_5,
      report_row rs ''p99 Latency (ms)'' (\<lambda>r. JNum (latency_p99 r)),
      report_row rs ''Max Latency (ms)'' (\<lambda>r. JNum (latency_max r)),
      report_row rs ''Errors / Timeouts'' (\<lambda>r. JNum (fadd (or_zero (res_errors r)) (or_zero (res_timeouts r)))),
      report_row rs ''Transfer Rate (MB/s)'' (\<lambda>r. JStr (toFixed2 (fdiv (fdiv (throughput_average r) 1024) 1024)))]"

record bench_world =
  w_env :: environment
  w_fetch :: "string \<Rightarrow> string option"
  w_load :: "(string \<times> js_value) list \<Rightarrow> string + results"

datatype bench_act =
    Spawned string environment
  | Waited nat
  | Fetched string
  | Loaded string "(string \<times> js_value) list"
  | Table "(string \<times> js_value) list list"
  | Failed string
  | Killed nat
  | Exited int

text \<open>The options of a load test and the environment of a child.\<close>

definition runAutocannon :: "(string \<times> js_value) list \<Rightarrow> (string \<times> js_value) list" where
  "runAutocannon overrideConfig =
     spread [(''url'', JStr GATEWAY_URL), (''connections'', JNum 100), (''duration'', JNum BENCHMARK_DURATION_SEC),
             (''pipelining'', JNum 1)] overrideConfig"

definition startServer :: "bench_world \<Rightarrow> (string \<times> string) list \<Rightarrow> environment" where
  "startServer w env = w_env w ++ map_of (rev env)"

text \<open>The body of the \<open>try\<close>: what has been done, and the first error or the results.\<close>

fun run_steps :: "bench_world \<Rightarrow> bench_step list \<Rightarrow> results list \<Rightarrow> bench_act list \<times> (string + results list)" where
  "run_steps w [] rs = ([], Inr rs)"
| "run_steps w (Boot p env # steps) rs = (case run_steps w steps rs of (t, r) \<Rightarrow> (Spawned p (startServer w env) # t, r))"
| "run_steps w (Pause n # steps) rs = (case run_steps w steps rs of (t, r) \<Rightarrow> (Waited n # t, r))"
| "run_steps w (Warm u # steps) rs =
     (case w_fetch w u of
        Some err \<Rightarrow> ([Fetched u], Inl err)
      | None \<Rightarrow> (case run_steps w steps rs of (t, r) \<Rightarrow> (Fetched u # t, r)))"
| "run_steps w (Measure title over # steps) rs =
     (case w_load w (runAutocannon over) of
        Inl err \<Rightarrow> ([Loaded title (runAutocannon over)], Inl err)
      | Inr res \<Rightarrow> (case run_steps w steps (rs @ [res]) of (t, r) \<Rightarrow> (Loaded title (runAutocannon over) # t, r)))"

fun is_spawn :: "bench_act \<Rightarrow> bool" where
  "is_spawn (Spawned p env) = True"
| "is_spawn _ = False"

text \<open>\<open>finally\<close> kills the children in the order of their start, and the exit code is always 0.\<close>

definition bench_main :: "bench_world \<Rightarrow> bench_act list" where
  "bench_main w =
     (case run_steps w script [] of
        (t, r) \<Rightarrow> t @ (case r of Inl err \<Rightarrow> [Failed err] | Inr rs \<Rightarrow> [Table (reportData rs)]) @
                 map Killed [0..<length (filter is_spawn t)] @ [Exited 0])"

text \<open>What the sample application makes of its environment.\<close>

definition start_sample :: "environment \<Rightarrow> time \<Rightarrow> sample" where
  "start_sample env now =
     \<lparr>server_name = str_or (env ''SERVER_NAME'') (''backend-'' @ str_or (env ''PORT'') ''4001''), requestCount = 0,
      sample_start = now, simulate_latency = (env ''SIMULATE_LATENCY'' \<noteq> Some ''false'')\<rparr>"

section \<open>What a run does\<close>

fun measured :: "bench_step \<Rightarrow> (string \<times> js_value) list option" where
  "measured (Measure title over) = Some (runAutocannon over)"
| "measured _ = None"

text \<open>
  Whatever fails, the four servers are started and killed again, and the script exits with code 0; a table is printed
  exactly when the warm-up request and the four load tests have succeeded. A caller cannot tell a failed run from its
  exit code.
\<close>

theorem bench_cleans_up:
  "\<exists>t. bench_main w = t @ map Killed [0, 1, 2, 3] @ [Exited 0] \<and> length (filter is_spawn t) = 4 \<and>
       ((\<exists>rows. Table rows \<in> set t) \<longleftrightarrow>
          w_fetch w GATEWAY_URL = None \<and> (\<forall>over \<in> set (List.map_filter measured script). \<exists>res. w_load w over = Inr res))"
proof -
  obtain t r where tr: "run_steps w script [] = (t, r)" by fastforce
  have spawns: "length (filter is_spawn t) = 4" and no_table: "\<forall>rows. Table rows \<notin> set t"
    using tr by (auto simp: script_def mock_backend_def split: option.splits sum.splits)
  have ok: "(\<exists>rs. r = Inr rs) \<longleftrightarrow>
      w_fetch w GATEWAY_URL = None \<and> (\<forall>over \<in> set (List.map_filter measured script). \<exists>res. w_load w over = Inr res)"
    using tr by (auto simp: script_def mock_backend_def map_filter_simps split: option.splits sum.splits)
  have four: "[0..<4] = [0, 1, 2, 3::nat]" by (simp add: upt_rec)
  have "(\<exists>rows. Table rows \<in> set (t @ (case r of Inl err \<Rightarrow> [Failed err] | Inr rs \<Rightarrow> [Table (reportData rs)]))) \<longleftrightarrow> (\<exists>rs. r = Inr rs)"
    using no_table by (cases r) auto
  with ok have "(\<exists>rows. Table rows \<in> set (t @ (case r of Inl err \<Rightarrow> [Failed err] | Inr rs \<Rightarrow> [Table (reportData rs)]))) \<longleftrightarrow>
      w_fetch w GATEWAY_URL = None \<and> (\<forall>over \<in> set (List.map_filter measured script). \<exists>res. w_load w over = Inr res)" by simp
  moreover have "bench_main w = (t @ (case r of Inl err \<Rightarrow> [Failed err] | Inr rs \<Rightarrow> [Table (reportData rs)])) @ map Killed [0, 1, 2, 3] @ [Exited 0]"
    using spawns four by (simp add: bench_main_def tr)
  moreover have "length (filter is_spawn (t @ (case r of Inl err \<Rightarrow> [Failed err] | Inr rs \<Rightarrow> [Table (reportData rs)]))) = 4"
    using spawns by (cases r) simp_all
  ultimately show ?thesis by blast
qed

text \<open>The gateway under test: three members, HTTPS, a bucket of a million tokens, and the algorithm of the caller's environment.\<close>

lemma bench_gateway:
  fixes w
  defines "c \<equiv> load_config (startServer w gateway_env)"
  shows "c_backends c = [''http://127.0.0.1:4001'', ''http://127.0.0.1:4002'', ''http://127.0.0.1:4003'']"
    and "c_tls_enabled c" "c_tls_port c = 8443" "rl_maxRequests (c_rateLimit c) = 1000000" "c_level c = ''warn''"
    and "c_algorithm c = str_or (w_env w ''LB_ALGORITHM'') ''round-robin''"
proof -
  have env: "startServer w gateway_env n = (case map_of gateway_env n of Some v \<Rightarrow> Some v | None \<Rightarrow> w_env w n)" for n
    by (simp add: startServer_def gateway_env_def map_add_def split: option.split)
  have parts: "parseList (Some ''http://127.0.0.1:4001,http://127.0.0.1:4002,http://127.0.0.1:4003'') d =
      [''http://127.0.0.1:4001'', ''http://127.0.0.1:4002'', ''http://127.0.0.1:4003'']" for d
    by (simp add: parseList_def) code_simp
  have d: "digit 0 = CHR ''0''" "digit 1 = CHR ''1''" "digit 3 = CHR ''3''" "digit 4 = CHR ''4''" "digit 8 = CHR ''8''" by code_simp+
  have digits: "nat_str 1000000 = ''1000000''" "nat_str 8443 = ''8443''" by (simp_all add: nat_str.simps d [simplified])
  have nums: "parse_or (Some ''1000000'') 100 = 1000000" "parse_or (Some ''8443'') 8443 = 8443"
    using js_parseInt_nat_str [of 1000000] js_parseInt_nat_str [of 8443] by (simp_all add: digits parse_or_def)
  have level: "str_or (Some ''warn'') ''info'' = ''warn''" by (simp add: str_or_def)
  with env parts nums level show "c_backends c = [''http://127.0.0.1:4001'', ''http://127.0.0.1:4002'', ''http://127.0.0.1:4003'']"
    "c_tls_enabled c" "c_tls_port c = 8443" "rl_maxRequests (c_rateLimit c) = 1000000" "c_level c = ''warn''"
    "c_algorithm c = str_or (w_env w ''LB_ALGORITHM'') ''round-robin''"
    by (simp_all add: c_def load_config_def gateway_env_def)
qed

section \<open>What the third scenario measures\<close>

text \<open>Outside the API the body of a request plays no part in what the gateway does with it.\<close>

lemma body_ignored:
  assumes "\<not> under_api (below_root (req_path (in_req x)))"
  shows "serve d v (x\<lparr>in_body := b\<rparr>) st = serve d v x st"
proof -
  obtain s a where st: "st = (s, a)" by fastforce
  have r: "routed d v (x\<lparr>in_body := b\<rparr>) (correlationIdMiddleware u (in_req x)) hs a t =
        routed d v x (correlationIdMiddleware u (in_req x)) hs a t" for u hs t
    using assms by (simp add: routed_def Let_def)
  have "through_cache d v (x\<lparr>in_body := b\<rparr>) (correlationIdMiddleware u (in_req x)) hs a t =
        through_cache d v x (correlationIdMiddleware u (in_req x)) hs a t" for u hs t
    unfolding through_cache_def r ..
  moreover obtain verdict t where "edge_filters (d_cfg d) (d_cors d) (v_now v) (v_limiter v) (in_req x) (in_query x) s = (verdict, t)"
    by fastforce
  ultimately show ?thesis by (cases verdict) (simp_all add: st serve_def Let_def)
qed

text \<open>The request a load test sends: \<open>x\<close> is what the generator adds by itself.\<close>

definition text_of :: "js_value option \<Rightarrow> string \<Rightarrow> string" where
  "text_of v d = (case v of Some (JStr t) \<Rightarrow> t | _ \<Rightarrow> d)"

definition load_request :: "(string \<Rightarrow> js_error + js_value) \<Rightarrow> (string \<times> js_value) list \<Rightarrow> inbound \<Rightarrow> inbound" where
  "load_request parse opts x =
     (let given = (case map_of opts ''headers'' of Some (JObj hs) \<Rightarrow> map (\<lambda>(n, t). (js_lower n, text_of (Some t) [])) hs | _ \<Rightarrow> [])
      in x\<lparr>in_req := (in_req x)\<lparr>http_method := Some (text_of (map_of opts ''method'') ''GET''), req_path := ''/'',
             originalUrl := Some ''/'', headers := headers (in_req x) @ given\<rparr>,
           in_body := parse (text_of (map_of opts ''body'') [])\<rparr>)"

text \<open>
  The payload of the firewall scenario is never looked at: the gateway treats its requests like those of the raw one,
  so the two columns of the table measure the same thing.
\<close>

theorem waf_scenario_is_raw_scenario:
  "serve d v (load_request parse (runAutocannon waf_scenario) x) st =
   serve d v (load_request parse (runAutocannon raw_scenario) x) st"
proof -
  let ?raw = "load_request parse (runAutocannon raw_scenario) x"
  have opts: "map_of (runAutocannon waf_scenario) k = map_of (runAutocannon raw_scenario) k" if "k \<noteq> ''body''" for k
    using that by (simp add: runAutocannon_def spread_def waf_scenario_def raw_scenario_def)
  have "load_request parse (runAutocannon waf_scenario) x =
      ?raw\<lparr>in_body := parse (text_of (map_of (runAutocannon waf_scenario) ''body'') [])\<rparr>"
    using opts [of "''headers''"] opts [of "''method''"] by (simp add: load_request_def Let_def)
  moreover have "\<not> under_api (below_root (req_path (in_req ?raw)))"
    by (simp add: load_request_def Let_def) code_simp
  ultimately show ?thesis by (simp add: body_ignored)
qed

lemma waf_scenario_payload:
  "malicious ''{\"query\":\"SELECT * FROM users; DROP TABLE admin;\"}''"
  by code_simp

end
