(* ===== verification/ConsoleView.thy ===== *)
theory ConsoleView
  imports Dashboard "HOL-Library.Monad_Syntax"
begin

text \<open>
  What the console \<^verbatim>\<open>dashboard/src/App.tsx\<close> shows: every screen as a function from its state to the data and the
  controls on it, or to nothing when rendering throws (React then unmounts the application), and what pressing a
  control does. Layout, colours, icons and scrolling are left out, and so are the figures computed on the cache
  screen; the chart library gets the timeline as it is.
\<close>

section \<open>Rendering\<close>

datatype tab = Overview | Servers | Security | Caching | Logs

datatype input = Username | Password | TargetIp | Pattern | Filter

datatype action =
    SignIn | LogOut | Refresh | OpenTab tab
  | Override js_value "string option"
  | PrepareBan js_value | BlockIp | UnblockIp js_value
  | EvictCache | Invalidate | ClearScreen

datatype widget =
    Show string js_value
  | Note string
  | Chart js_value
  | Select js_value "string list"
  | Input input string
  | Button string action
  | Line string string

record ui =
  ui_console :: dashboard
  ui_username :: string
  ui_password :: string
  ui_tab :: tab
  ui_filter :: string

definition init_ui :: "string option \<Rightarrow> ui" where
  "init_ui jwt = \<lparr>ui_console = init_dashboard jwt, ui_username = [], ui_password = [], ui_tab = Overview, ui_filter = []\<rparr>"

text \<open>A property of \<open>undefined\<close> or \<open>null\<close> cannot be read, and an object is not a valid child of an element.\<close>

definition js_read :: "js_value \<Rightarrow> string \<Rightarrow> js_value option" where
  "js_read v name = (if readable v then Some (field v name) else None)"

fun js_length :: "js_value \<Rightarrow> js_value option" where
  "js_length (JArr vs) = Some (JNum (of_nat (length vs)))"
| "js_length (JStr s) = Some (JNum (of_nat (length s)))"
| "js_length v = js_read v ''length''"

text \<open>\<open>v > 0\<close>; what is compared is a length, a number or missing in everything the gateway sends.\<close>

definition positive :: "js_value \<Rightarrow> bool" where
  "positive v = (case v of JNum x \<Rightarrow> 0 < x | JBool b \<Rightarrow> b | _ \<Rightarrow> False)"

text \<open>Only an array has a method \<open>map\<close> or \<open>find\<close>.\<close>

fun js_items :: "js_value \<Rightarrow> js_value list option" where
  "js_items (JArr vs) = Some vs"
| "js_items _ = None"

fun renderable :: "js_value \<Rightarrow> bool" where
  "renderable (JObj es) = False"
| "renderable (JArr vs) = list_all renderable vs"
| "renderable _ = True"

definition show_value :: "string \<Rightarrow> js_value \<Rightarrow> widget list option" where
  "show_value label v = (if renderable v then Some [Show label v] else None)"

fun show_fields :: "js_value \<Rightarrow> (string \<times> string) list \<Rightarrow> widget list option" where
  "show_fields v [] = Some []"
| "show_fields v ((label, name) # fs) = do {
     x \<leftarrow> js_read v name;
     w \<leftarrow> show_value label x;
     ws \<leftarrow> show_fields v fs;
     Some (w @ ws)
   }"

fun each :: "('a \<Rightarrow> widget list option) \<Rightarrow> 'a list \<Rightarrow> widget list option" where
  "each f [] = Some []"
| "each f (x # xs) = do { w \<leftarrow> f x; ws \<leftarrow> each f xs; Some (w @ ws) }"

section \<open>The screens\<close>

definition login_screen :: "ui \<Rightarrow> widget list" where
  "login_screen u =
     [Input Username (ui_username u), Input Password (ui_password u)] @
     (if loginError (ui_console u) \<noteq> [] then [Note (loginError (ui_console u))] else []) @ [Button ''Sign In'' SignIn]"

definition frame :: "dashboard \<Rightarrow> widget list" where
  "frame d =
     [Button ''Overview'' (OpenTab Overview), Button ''Server Pools'' (OpenTab Servers),
      Button ''Security Engine'' (OpenTab Security), Button ''Cache Analytics'' (OpenTab Caching),
      Button ''System Logs'' (OpenTab Logs), Button ''Log Out'' LogOut,
      Show ''Gateway'' (JStr (if gatewayOnline d then ''ONLINE'' else ''MOCK FALLBACK'')), Button ''Refresh'' Refresh]"

definition algorithm_options :: "string list" where
  "algorithm_options = [''round-robin'', ''weighted-round-robin'', ''least-connections'', ''ip-hash'']"

definition overview_screen :: "dashboard \<Rightarrow> widget list option" where
  "overview_screen d = do {
     cards \<leftarrow> show_fields (telemetry d)
       [(''LIVE THROUGHPUT'', ''throughputRps''), (''AVG RESP LATENCY'', ''averageLatencyMs''),
        (''SUCCESS RATE'', ''successRate''), (''CACHE HIT RATIO'', ''cacheHitRatio'')];
     minutes \<leftarrow> js_length (historicalTimeline d);
     members \<leftarrow> js_length (d_backends d);
     pools \<leftarrow> show_value ''Total Backend Pools'' members;
     banned \<leftarrow> js_length (d_blockedIps d);
     blocked \<leftarrow> show_value ''Firewall Blocked IPs'' banned;
     traffic \<leftarrow> show_fields (telemetry d) [(''Total Traffic Handled'', ''totalRequests'')];
     Some (cards @
       (if positive minutes then [Chart (historicalTimeline d)]
        else [Note ''No historical telemetry database summaries recorded yet. Send traffic to populate.'']) @
       [Select (d_algorithm d) algorithm_options] @ pools @ blocked @ traffic)
   }"

text \<open>\<open>backendStats.find (x => x.backendId === srv.id)\<close>; objects from different answers are never identical.\<close>

definition strict_eq :: "js_value \<Rightarrow> js_value \<Rightarrow> bool" where
  "strict_eq a b \<longleftrightarrow> a = b \<and> \<not> by_reference a"

fun find_stat :: "js_value \<Rightarrow> js_value list \<Rightarrow> js_value option option" where
  "find_stat i [] = Some None"
| "find_stat i (x # xs) = do {
     b \<leftarrow> js_read x ''backendId'';
     (if strict_eq b i then Some (Some x) else find_stat i xs)
   }"

definition server_badge :: "js_value \<Rightarrow> string" where
  "server_badge srv = (if truthy (field srv ''healthy'') then ''Online'' else ''Offline'')"

definition server_controls :: "js_value \<Rightarrow> widget list" where
  "server_controls srv =
     [if field srv ''overrideStatus'' = JStr ''unhealthy'' then Button ''Rejoin Pool'' (Override (field srv ''id'') None)
      else Button ''Drain / Kill'' (Override (field srv ''id'') (Some ''unhealthy''))] @
     (if field srv ''overrideStatus'' = JStr ''healthy'' then []
      else [Button ''Force Up'' (Override (field srv ''id'') (Some ''healthy''))])"

definition server_card :: "js_value \<Rightarrow> js_value \<Rightarrow> widget list option" where
  "server_card stats srv = do {
     stat_list \<leftarrow> js_items stats;
     i \<leftarrow> js_read srv ''id'';
     srvStat \<leftarrow> find_stat i stat_list;
     title \<leftarrow> show_fields srv
       [(''name'', ''name''), (''url'', ''url''), (''WEIGHT'', ''weight''), (''ACTIVE CONNS'', ''activeConnections''),
        (''SCORE'', ''performanceScore'')];
     total \<leftarrow> show_value ''TOTAL REQS'' (case srvStat of Some x \<Rightarrow> field x ''requestCount'' | None \<Rightarrow> JNum 0);
     Some (title @ [Note (server_badge srv)] @ total @ server_controls srv)
   }"

definition servers_screen :: "dashboard \<Rightarrow> widget list option" where
  "servers_screen d = do {
     servers \<leftarrow> js_items (d_backends d);
     cards \<leftarrow> each (server_card (backendStats d)) servers;
     Some (Select (d_algorithm d) algorithm_options # cards)
   }"

text \<open>One row of the firewall log; its time stamp goes through \<open>Date\<close>, which accepts anything.\<close>

definition event_row :: "js_value \<Rightarrow> widget list option" where
  "event_row e = do {
     stamp \<leftarrow> js_read e ''timestamp'';
     cells \<leftarrow> show_fields e [(''IP ADDRESS'', ''ip''), (''METHOD'', ''method''), (''URI'', ''path''), (''TYPE'', ''type'')];
     Some (Show ''TIMESTAMP'' stamp # cells @ [Button ''Ban IP'' (PrepareBan (field e ''ip''))])
   }"

definition event_panel :: "dashboard \<Rightarrow> widget list option" where
  "event_panel d = do {
     n \<leftarrow> js_length (wafLogs d);
     (if positive n then do { es \<leftarrow> js_items (wafLogs d); each event_row es }
      else Some [Note ''No security threat events recorded by WAF middleware.''])
   }"

definition ban_row :: "js_value \<Rightarrow> widget list option" where
  "ban_row ip = do { w \<leftarrow> show_value ''ip'' ip; Some (w @ [Button ''Unblock Client'' (UnblockIp ip)]) }"

definition ban_panel :: "dashboard \<Rightarrow> widget list option" where
  "ban_panel d = do {
     n \<leftarrow> js_length (d_blockedIps d);
     count \<leftarrow> show_value ''Active Blocklisted IPs'' n;
     rows \<leftarrow> (if positive n then do {
                  ips \<leftarrow> js_items (d_blockedIps d);
                  each ban_row ips
                }
              else Some [Note ''No client IPs currently blocked in the firewall.'']);
     Some (count @ rows)
   }"

definition security_screen :: "dashboard \<Rightarrow> widget list option" where
  "security_screen d = do {
     rows \<leftarrow> event_panel d;
     bans \<leftarrow> ban_panel d;
     Some (rows @ [Input TargetIp (targetBlockIp d), Button ''Block IP'' BlockIp] @ bans)
   }"

definition cache_screen :: "dashboard \<Rightarrow> widget list option" where
  "cache_screen d = do {
     ratio \<leftarrow> show_fields (telemetry d) [(''CACHE SAVED RATIO'', ''cacheHitRatio'')];
     Some (ratio @ [Button ''Evict Entire Cache Store'' EvictCache, Input Pattern (invalidateInput d),
                    Button ''Invalidate'' Invalidate])
   }"

section \<open>The log screen\<close>

text \<open>
  Each line of the log is one string, \<open>[time] line::level\<close>, taken apart again when shown. The \<open>k\<close>-th entry of
  \<open>customLogs\<close> was written when the clock read \<open>stamps k\<close>.
\<close>

definition stored_line :: "string \<Rightarrow> string \<times> string \<Rightarrow> string" where
  "stored_line stamp entry = (case entry of (line, level) \<Rightarrow> ''['' @ stamp @ ''] '' @ line @ ''::'' @ level)"

definition stored_lines :: "(nat \<Rightarrow> string) \<Rightarrow> dashboard \<Rightarrow> string list" where
  "stored_lines stamps d = map (\<lambda>(k, entry). stored_line (stamps k) entry) (enumerate 0 (customLogs d))"

fun split_colons :: "string \<Rightarrow> string list" where
  "split_colons (a # b # cs) =
     (if a = CHR '':'' \<and> b = CHR '':'' then [] # split_colons cs
      else case split_colons (b # cs) of w # ws \<Rightarrow> (a # w) # ws | [] \<Rightarrow> [[a]])"
| "split_colons s = [s]"

fun js_includes :: "string \<Rightarrow> string \<Rightarrow> bool" where
  "js_includes [] q \<longleftrightarrow> q = []"
| "js_includes (c # s) q \<longleftrightarrow> js_startsWith (c # s) q \<or> js_includes s q"

definition log_widget :: "string \<Rightarrow> widget" where
  "log_widget s =
     (case split_colons s of
        content # level # _ \<Rightarrow> Line (if level = [] then ''info'' else level) content
      | content # [] \<Rightarrow> Line ''info'' content
      | [] \<Rightarrow> Line ''info'' [])"

definition logs_screen :: "(nat \<Rightarrow> string) \<Rightarrow> string \<Rightarrow> dashboard \<Rightarrow> widget list" where
  "logs_screen stamps filterQuery d =
     [Input Filter filterQuery, Button ''Clear Screen'' ClearScreen] @
     map log_widget (filter (\<lambda>line. filterQuery = [] \<or> js_includes (js_lower line) (js_lower filterQuery)) (stored_lines stamps d))"

definition render :: "(nat \<Rightarrow> string) \<Rightarrow> ui \<Rightarrow> widget list option" where
  "render stamps u =
     (let d = ui_console u
      in if \<not> truthy_str (token d) then Some (login_screen u)
         else do {
           content \<leftarrow> (case ui_tab u of
               Overview \<Rightarrow> overview_screen d
             | Servers \<Rightarrow> servers_screen d
             | Security \<Rightarrow> security_screen d
             | Caching \<Rightarrow> cache_screen d
             | Logs \<Rightarrow> Some (logs_screen stamps (ui_filter u) d));
           Some (frame d @ content)
         })"

section \<open>Pressing and polling\<close>

text \<open>
  Both refreshes start at once: the second one looks at the gateway status from before the first. Ids and addresses
  are strings in everything the gateway or the demonstration data provide.
\<close>

definition refresh_both :: "network \<Rightarrow> time \<Rightarrow> dashboard \<Rightarrow> dashboard" where
  "refresh_both net now d =
     (let d' = refreshGatewayData net now d
      in if \<not> gatewayOnline d \<and> enableMockFallback d then d' else run_telemetry net telemetry_calls d')"

fun press :: "network \<Rightarrow> time \<Rightarrow> action \<Rightarrow> ui \<Rightarrow> ui" where
  "press net now SignIn u = u\<lparr>ui_console := handleLogin net (ui_username u) (ui_password u) (ui_console u)\<rparr>"
| "press net now LogOut u = u\<lparr>ui_console := handleLogout (ui_console u)\<rparr>"
| "press net now Refresh u =
     u\<lparr>ui_console := refresh_both net now (addLogLine ''Manual telemetry refresh triggered.'' ''debug'' (ui_console u))\<rparr>"
| "press net now (OpenTab t) u = u\<lparr>ui_tab := t\<rparr>"
| "press net now (Override v st) u =
     (case text_of v of
        Some i \<Rightarrow> u\<lparr>ui_console := handleNodeOverride net now i st (ui_console u)\<rparr>
      | None \<Rightarrow> u)"
| "press net now (PrepareBan v) u =
     (case text_of v of
        Some ip \<Rightarrow> u\<lparr>ui_console := addLogLine (''[Firewall] Preparing block trigger for ip: '' @ ip) ''info''
                                  ((ui_console u)\<lparr>targetBlockIp := ip\<rparr>)\<rparr>
      | None \<Rightarrow> u)"
| "press net now BlockIp u = u\<lparr>ui_console := handleBlockIp net (ui_console u)\<rparr>"
| "press net now (UnblockIp v) u =
     (case text_of v of Some ip \<Rightarrow> u\<lparr>ui_console := handleUnblockIp net ip (ui_console u)\<rparr> | None \<Rightarrow> u)"
| "press net now EvictCache u = u\<lparr>ui_console := handleClearCache net (ui_console u)\<rparr>"
| "press net now Invalidate u = u\<lparr>ui_console := handleInvalidateCache net (ui_console u)\<rparr>"
| "press net now ClearScreen u = u\<lparr>ui_console := (ui_console u)\<lparr>customLogs := []\<rparr>\<rparr>"

fun type_text :: "input \<Rightarrow> string \<Rightarrow> ui \<Rightarrow> ui" where
  "type_text Username s u = u\<lparr>ui_username := s\<rparr>"
| "type_text Password s u = u\<lparr>ui_password := s\<rparr>"
| "type_text TargetIp s u = u\<lparr>ui_console := (ui_console u)\<lparr>targetBlockIp := s\<rparr>\<rparr>"
| "type_text Pattern s u = u\<lparr>ui_console := (ui_console u)\<lparr>invalidateInput := s\<rparr>\<rparr>"
| "type_text Filter s u = u\<lparr>ui_filter := s\<rparr>"

text \<open>
  What happens to the console: a control is pressed, text is typed, an algorithm is chosen, the three-second timer
  fires, or the effect of mounting runs (at the start and whenever token or status change).
\<close>

datatype ui_event = Press action | Type input string | Choose string | Poll | Mount

fun ui_step :: "network \<Rightarrow> time \<times> ui_event \<Rightarrow> ui \<Rightarrow> ui" where
  "ui_step net (now, Press a) u = press net now a u"
| "ui_step net (now, Type i s) u = type_text i s u"
| "ui_step net (now, Choose a) u = u\<lparr>ui_console := handleAlgorithmChange net now a (ui_console u)\<rparr>"
| "ui_step net (now, Poll) u = u\<lparr>ui_console := refresh_both net now (ui_console u)\<rparr>"
| "ui_step net (now, Mount) u =
     u\<lparr>ui_console := refresh_both net now
         (addLogLine ''SentinelADC Management console initialized.'' ''info'' (ui_console u))\<rparr>"

section \<open>Offline the console always renders\<close>

definition unreachable :: "network \<Rightarrow> bool" where
  "unreachable net \<longleftrightarrow> (\<forall>req. \<exists>m. net req = NetworkError m)"

definition fields_ok :: "string list \<Rightarrow> js_value \<Rightarrow> bool" where
  "fields_ok names v \<longleftrightarrow> readable v \<and> list_all (\<lambda>n. renderable (field v n)) names"

definition array_of :: "(js_value \<Rightarrow> bool) \<Rightarrow> js_value \<Rightarrow> bool" where
  "array_of P v = (case v of JArr vs \<Rightarrow> list_all P vs | _ \<Rightarrow> False)"

text \<open>What the screens need of the state; offline nothing else can arise.\<close>

definition showable :: "dashboard \<Rightarrow> bool" where
  "showable d \<longleftrightarrow>
     fields_ok [''throughputRps'', ''averageLatencyMs'', ''successRate'', ''cacheHitRatio'', ''totalRequests''] (telemetry d) \<and>
     array_of (fields_ok [''name'', ''url'', ''weight'', ''activeConnections'', ''performanceScore'']) (d_backends d) \<and>
     array_of (fields_ok [''requestCount'']) (backendStats d) \<and>
     array_of (fields_ok [''ip'', ''method'', ''path'', ''type'']) (wafLogs d) \<and>
     array_of renderable (d_blockedIps d) \<and> array_of (\<lambda>v. True) (historicalTimeline d)"

lemma show_value_ok: "renderable v \<Longrightarrow> show_value l v = Some [Show l v]"
  by (simp add: show_value_def)

lemma show_fields_eq:
  "fields_ok (map snd fs) v \<Longrightarrow> show_fields v fs = Some (map (\<lambda>(label, name). Show label (field v name)) fs)"
  by (induction fs) (auto simp: fields_ok_def js_read_def show_value_def)

lemma show_fields_None: "\<not> readable v \<Longrightarrow> fs \<noteq> [] \<Longrightarrow> show_fields v fs = None"
  by (cases fs) (auto simp: js_read_def)

declare show_fields.simps [simp del]

lemma each_ok: "list_all (\<lambda>x. f x \<noteq> None) xs \<Longrightarrow> each f xs \<noteq> None"
  by (induction xs) auto

lemma find_stat_ok:
  "list_all (fields_ok names) xs \<Longrightarrow>
   \<exists>r. find_stat i xs = Some r \<and> (case r of Some x \<Rightarrow> x \<in> set xs | None \<Rightarrow> True)"
  by (induction xs) (auto simp: fields_ok_def js_read_def split: option.splits)

lemma array_ofD:
  assumes "array_of P v"
  obtains vs where "v = JArr vs" "list_all P vs" "js_items v = Some vs" "js_length v = Some (JNum (of_nat (length vs)))"
  using assms by (cases v) (auto simp: array_of_def)

lemma each_Some:
  assumes "list_all P xs" "\<And>x. P x \<Longrightarrow> f x \<noteq> None" obtains ws where "each f xs = Some ws"
  using each_ok [of f xs] assms by (auto simp: list_all_iff)

lemma overview_ok:
  assumes "showable d" shows "overview_screen d \<noteq> None"
proof -
  from assms obtain ms where ms: "js_length (historicalTimeline d) = Some (JNum ms)"
    unfolding showable_def by (elim conjE array_ofD) auto
  from assms obtain bs where bs: "js_length (d_backends d) = Some (JNum bs)"
    unfolding showable_def by (elim conjE array_ofD) auto
  from assms obtain ks where ks: "js_length (d_blockedIps d) = Some (JNum ks)"
    unfolding showable_def by (elim conjE array_ofD) auto
  with ms bs assms show ?thesis
    by (simp add: overview_screen_def show_fields_eq showable_def fields_ok_def show_value_def)
qed

lemma server_card_ok:
  assumes "array_of (fields_ok [''requestCount'']) stats"
    "fields_ok [''name'', ''url'', ''weight'', ''activeConnections'', ''performanceScore''] srv"
  shows "server_card stats srv \<noteq> None"
proof -
  from assms(1) obtain vs where vs: "js_items stats = Some vs" "list_all (fields_ok [''requestCount'']) vs"
    by (elim array_ofD)
  from find_stat_ok [OF vs(2), of "field srv ''id''"] obtain r where
    r: "find_stat (field srv ''id'') vs = Some r" "case r of Some x \<Rightarrow> x \<in> set vs | None \<Rightarrow> True" by blast
  have "renderable (case r of Some x \<Rightarrow> field x ''requestCount'' | None \<Rightarrow> JNum 0)"
    using r(2) vs(2) by (auto simp: list_all_iff fields_ok_def split: option.splits)
  moreover have "js_read srv ''id'' = Some (field srv ''id'')" using assms(2) by (simp add: js_read_def fields_ok_def)
  ultimately show ?thesis
    using vs(1) r(1) assms(2) by (simp add: server_card_def show_value_ok show_fields_eq)
qed

lemma servers_ok:
  assumes "showable d" shows "servers_screen d \<noteq> None"
proof -
  from assms obtain vs where vs: "js_items (d_backends d) = Some vs"
    "list_all (fields_ok [''name'', ''url'', ''weight'', ''activeConnections'', ''performanceScore'']) vs"
    unfolding showable_def by (elim conjE array_ofD) auto
  have card: "server_card (backendStats d) srv \<noteq> None"
    if "fields_ok [''name'', ''url'', ''weight'', ''activeConnections'', ''performanceScore''] srv" for srv
    using assms server_card_ok that by (simp add: showable_def)
  obtain ws where "each (server_card (backendStats d)) vs = Some ws" by (rule each_Some [OF vs(2) card])
  with vs(1) show ?thesis by (simp add: servers_screen_def)
qed

lemma event_row_ok: "fields_ok [''ip'', ''method'', ''path'', ''type''] e \<Longrightarrow> event_row e \<noteq> None"
  by (simp add: event_row_def show_fields_eq) (simp add: js_read_def fields_ok_def)

lemma security_ok:
  assumes "showable d" shows "security_screen d \<noteq> None"
proof -
  from assms obtain es where es: "js_items (wafLogs d) = Some es" "js_length (wafLogs d) = Some (JNum (of_nat (length es)))"
    "list_all (fields_ok [''ip'', ''method'', ''path'', ''type'']) es"
    unfolding showable_def by (elim conjE array_ofD) auto
  from assms obtain ips where ips: "js_items (d_blockedIps d) = Some ips"
    "js_length (d_blockedIps d) = Some (JNum (of_nat (length ips)))" "list_all renderable ips"
    unfolding showable_def by (elim conjE array_ofD) auto
  obtain ws where "each event_row es = Some ws"
    by (rule each_Some [OF es(3) event_row_ok])
  then have "event_panel d \<noteq> None" using es by (simp add: event_panel_def)
  moreover obtain bs where "each ban_row ips = Some bs"
    by (rule each_Some [OF ips(3), of ban_row]) (simp_all add: ban_row_def show_value_ok)
  then have "ban_panel d \<noteq> None" using ips by (simp add: ban_panel_def show_value_ok)
  ultimately show ?thesis by (auto simp: security_screen_def)
qed

lemma cache_ok: "showable d \<Longrightarrow> cache_screen d \<noteq> None"
  by (simp add: cache_screen_def showable_def show_fields_eq fields_ok_def)

lemma showable_renders: "showable (ui_console u) \<Longrightarrow> render stamps u \<noteq> None"
  using overview_ok [of "ui_console u"] servers_ok [of "ui_console u"] security_ok [of "ui_console u"] cache_ok [of "ui_console u"]
  by (auto simp: render_def Let_def split: tab.split)

definition offline_ok :: "dashboard \<Rightarrow> bool" where
  "offline_ok d \<longleftrightarrow> \<not> gatewayOnline d \<and> enableMockFallback d \<and> showable d"

lemma offline_frame [simp]:
  "offline_ok (addLogLine l v d) = offline_ok d"
  "offline_ok (d\<lparr>token := tk\<rparr>) = offline_ok d"
  "offline_ok (d\<lparr>stored_jwt := tk\<rparr>) = offline_ok d"
  "offline_ok (d\<lparr>loginError := le\<rparr>) = offline_ok d"
  "offline_ok (d\<lparr>d_algorithm := al\<rparr>) = offline_ok d"
  "offline_ok (d\<lparr>targetBlockIp := ip\<rparr>) = offline_ok d"
  "offline_ok (d\<lparr>invalidateInput := ip\<rparr>) = offline_ok d"
  "offline_ok (d\<lparr>customLogs := ls\<rparr>) = offline_ok d"
  by (simp_all add: offline_ok_def showable_def addLogLine_def)

lemma fields_ok_simps:
  "fields_ok names (JObj es) = list_all (\<lambda>n. renderable (field (JObj es) n)) names"
  by (simp add: fields_ok_def readable_def)

lemma offline_init: "offline_ok (init_dashboard jwt)"
  by (simp add: offline_ok_def showable_def init_dashboard_def fields_ok_simps array_of_def)

lemma offline_mock: "\<not> gatewayOnline d \<Longrightarrow> enableMockFallback d \<Longrightarrow> offline_ok (loadMockData now d)"
  by (simp add: offline_ok_def showable_def loadMockData_def mock_node_def mock_split_def mock_event_def fields_ok_simps array_of_def)

lemma field_set_field: "n \<noteq> m \<Longrightarrow> field (set_field m x v) n = field v n"
  by (cases v) (simp_all add: update_conv')

lemma readable_set_field [simp]: "readable (set_field m x v) = readable v"
  by (cases v) (simp_all add: readable_def)

lemma fields_ok_override:
  assumes "''overrideStatus'' \<notin> set names" "''healthy'' \<notin> set names" "fields_ok names v"
  shows "fields_ok names (override_local i st v)"
proof -
  have "field (set_field ''overrideStatus'' x (set_field ''healthy'' y v)) n = field v n"
    "field (set_field ''overrideStatus'' x v) n = field v n" if "n \<in> set names" for n x y
    using that assms(1,2) by (metis field_set_field)+
  with assms(3) show ?thesis by (auto simp: override_local_def fields_ok_def list_all_iff)
qed

lemma array_of_map: "array_of P v \<Longrightarrow> (\<And>x. P x \<Longrightarrow> P (f x)) \<Longrightarrow> array_of P (map_array f v)"
  by (cases v) (auto simp: array_of_def list_all_iff)

lemma array_of_edit:
  "array_of P v \<Longrightarrow> P x \<Longrightarrow> array_of P (array_push x v)"
  "array_of P v \<Longrightarrow> array_of P (array_remove x v)"
  by (cases v; auto simp: array_of_def list_all_iff)+

lemma offline_refresh:
  assumes "unreachable net" "offline_ok d"
  shows "offline_ok (refreshGatewayData net now d)" "offline_ok (refresh_both net now d)"
proof -
  obtain m where "net status_request = NetworkError m" using assms(1) by (auto simp: unreachable_def)
  moreover have "offline_ok (gateway_lost now d)"
    using assms(2) by (auto simp: gateway_lost_def Let_def offline_ok_def intro!: offline_mock [unfolded offline_ok_def])
  ultimately show "offline_ok (refreshGatewayData net now d)" by (simp add: refreshGatewayData_def)
  with assms(2) show "offline_ok (refresh_both net now d)" by (simp add: refresh_both_def Let_def) (simp add: offline_ok_def)
qed

lemma offline_handlers:
  assumes "unreachable net" "offline_ok d"
  shows "offline_ok (handleLogin net user pass d)" "offline_ok (handleLogout d)"
    "offline_ok (handleAlgorithmChange net now a d)" "offline_ok (handleNodeOverride net now i st d)"
    "offline_ok (handleBlockIp net d)" "offline_ok (handleUnblockIp net ip d)"
    "offline_ok (handleClearCache net d)" "offline_ok (handleInvalidateCache net d)"
proof -
  have off: "\<not> gatewayOnline d" using assms(2) by (simp add: offline_ok_def)
  then have log: "\<not> gatewayOnline (addLogLine l v d)" for l v by (simp add: addLogLine_def)
  have edits: "offline_ok (e\<lparr>d_backends := map_array (override_local i st) (d_backends e)\<rparr>)"
    "offline_ok (e\<lparr>d_blockedIps := array_push (JStr x) (d_blockedIps e)\<rparr>)"
    "offline_ok (e\<lparr>d_blockedIps := array_remove (JStr x) (d_blockedIps e)\<rparr>)" if "offline_ok e" for e x
    using that by (auto simp: offline_ok_def showable_def intro!: array_of_map fields_ok_override array_of_edit)
  show "offline_ok (handleLogin net user pass d)"
    using assms by (simp add: handleLogin_def Let_def split: http_answer.split bool.split)
  show "offline_ok (handleLogout d)" using assms(2) by (simp add: handleLogout_def)
  show "offline_ok (handleAlgorithmChange net now a d)"
    using assms(2) off by (simp add: handleAlgorithmChange_def Let_def addLogLine_def)
  show "offline_ok (handleNodeOverride net now i st d)"
    using assms(2) by (simp add: handleNodeOverride_def Let_def log edits)
  show "offline_ok (handleBlockIp net d)"
    using assms(2) edits(2) by (simp add: handleBlockIp_def Let_def log)
  show "offline_ok (handleUnblockIp net ip d)"
    using assms(2) by (simp add: handleUnblockIp_def Let_def log edits)
  show "offline_ok (handleClearCache net d)" using assms(2) by (simp add: handleClearCache_def Let_def log)
  show "offline_ok (handleInvalidateCache net d)" using assms(2) by (simp add: handleInvalidateCache_def Let_def log)
qed

lemma offline_step:
  assumes "unreachable net" "offline_ok (ui_console u)"
  shows "offline_ok (ui_console (ui_step net ev u))"
proof (cases ev)
  case (Pair now x)
  show ?thesis
  proof (cases x)
    case (Press a)
    with Pair assms show ?thesis
      by (cases a) (auto simp: offline_handlers offline_refresh split: option.split)
  next
    case (Type i s)
    with Pair assms show ?thesis by (cases i) auto
  qed (use Pair assms in \<open>auto simp: offline_handlers offline_refresh\<close>)
qed

text \<open>
  The console works without its gateway. As long as no request gets through, whatever the user does and however
  often the timer fires, every screen renders: none of them reads a property of something missing or shows an object,
  and the console goes on calling itself offline.
\<close>

theorem offline_console_renders:
  assumes "unreachable net"
  shows "let u = fold (ui_step net) evs (init_ui jwt)
         in render stamps (u\<lparr>ui_tab := t\<rparr>) \<noteq> None \<and> \<not> gatewayOnline (ui_console u)"
proof -
  have "offline_ok (ui_console (fold (ui_step net) evs u))" if "offline_ok (ui_console u)" for u
    using that by (induction evs arbitrary: u) (auto simp: offline_step [OF assms])
  then have "offline_ok (ui_console (fold (ui_step net) evs (init_ui jwt)))"
    by (simp add: init_ui_def offline_init)
  then show ?thesis
    using showable_renders [of "fold (ui_step net) evs (init_ui jwt)\<lparr>ui_tab := t\<rparr>" stamps] by (simp add: Let_def offline_ok_def)
qed

theorem offline_console_renders_witness:
  "render (\<lambda>k. []) (fold (ui_step (\<lambda>r. NetworkError ''down''))
       [(5, Mount), (9, Press (Override (JStr ''backend-1'') (Some ''unhealthy'')))]
       (init_ui (Some ''t''))\<lparr>ui_tab := Servers\<rparr>) \<noteq> None"
proof -
  have "unreachable (\<lambda>r. NetworkError ''down'')" by (simp add: unreachable_def)
  from offline_console_renders [OF this] show ?thesis unfolding Let_def by blast
qed

section \<open>Online it does not\<close>

text \<open>
  The screens against the answers of the gateway itself: the body of \<open>GET /api/security/blocklist\<close> is an object with
  the list in it.
\<close>

definition blocklist_json :: "js_value \<Rightarrow> 'a adc_sec_scheme \<Rightarrow> js_value" where
  "blocklist_json stamp s = JObj [(''blocklist'', JArr (getBlockedList s)), (''timestamp'', stamp)]"

lemma run_telemetry_blocked:
  assumes "\<And>r. \<exists>ok v. net r = Answer ok v"
    and "\<And>d. net (apiFetch ''GET'' ''/api/security/blocklist'' JUndefined d) = Answer True v"
    and "\<And>d. net (apiFetch ''GET'' ''/api/security/logs'' JUndefined d) = Answer False w"
  shows "d_blockedIps (run_telemetry net telemetry_calls d) = v"
proof -
  have skip: "\<exists>d'. run_telemetry net calls d = run_telemetry net (tl calls) d'" for calls d
  proof (cases calls)
    case (Cons c cs)
    obtain path "use" where c: "c = (path, use)" by (cases c)
    obtain ok x where "net (apiFetch ''GET'' path JUndefined d) = Answer ok x" using assms(1) by blast
    with Cons c show ?thesis by (cases ok) auto
  qed auto
  obtain d1 where 1: "run_telemetry net telemetry_calls d = run_telemetry net (tl telemetry_calls) d1"
    using skip by blast
  obtain d2 where 2: "run_telemetry net (tl telemetry_calls) d1 = run_telemetry net (tl (tl telemetry_calls)) d2"
    using skip by blast
  obtain d3 where 3: "run_telemetry net (tl (tl telemetry_calls)) d2 = run_telemetry net (tl (tl (tl telemetry_calls))) d3"
    using skip by blast
  show ?thesis unfolding 1 2 3 by (simp add: telemetry_calls_def assms(2,3))
qed

text \<open>
  C36: the online console shows none of what the gateway protects. With a session, once the gateway's own answer to the
  status request has arrived the overview and the list of servers throw; and after a telemetry refresh in which the
  gateway returns its blocklist, the firewall panel says that no address is blocked, whatever the blocklist holds,
  and offers no way to release one.
\<close>

theorem online_console_blind:
  assumes "net status_request = Answer True (status_json uptime stamp sys (fst (getStatus cb now s)))"
    and "\<And>r. \<exists>ok v. net r = Answer ok v"
    and "\<And>d. net (apiFetch ''GET'' ''/api/security/blocklist'' JUndefined d) = Answer True (blocklist_json t s)"
    and "\<And>d. net (apiFetch ''GET'' ''/api/security/logs'' JUndefined d) = Answer False w"
  shows "let d' = run_telemetry net telemetry_calls (refreshGatewayData net now d)
         in overview_screen (refreshGatewayData net now d) = None \<and> servers_screen (refreshGatewayData net now d) = None \<and>
            ban_panel d' = Some [Show ''Active Blocklisted IPs'' JUndefined,
                                 Note ''No client IPs currently blocked in the firewall.'']"
proof -
  have "gatewayOnline (refreshGatewayData net now d)" "d_backends (refreshGatewayData net now d) = JUndefined"
    using assms(1) by (simp_all add: refreshGatewayData_def status_json_def readable_def)
  then have "overview_screen (refreshGatewayData net now d) = None" "servers_screen (refreshGatewayData net now d) = None"
    by (simp_all add: overview_screen_def servers_screen_def js_read_def readable_def bind_eq_None_conv)
  moreover have "d_blockedIps (run_telemetry net telemetry_calls d'') = blocklist_json t s" for d''
    by (rule run_telemetry_blocked [OF assms(2-4)])
  ultimately show ?thesis
    by (simp add: ban_panel_def blocklist_json_def js_read_def readable_def show_value_def positive_def)
qed

definition demo_gateway_net :: network where
  "demo_gateway_net r =
     (if r = status_request then Answer True (status_json JNull JNull JNull (fst (getStatus (g_cb demo_gw) 0 demo_sec)))
      else if hr_target r = ''/api/security/blocklist'' then Answer True (blocklist_json JNull demo_sec)
      else Answer False JNull)"

theorem online_console_blind_witness:
  "blockedIps demo_sec = [JStr ''10.6.6.6''] \<and>
   ban_panel (run_telemetry demo_gateway_net telemetry_calls
       (refreshGatewayData demo_gateway_net 0 (init_dashboard (Some ''t'')))) =
     Some [Show ''Active Blocklisted IPs'' JUndefined, Note ''No client IPs currently blocked in the firewall.'']"
proof -
  have "demo_gateway_net status_request = Answer True (status_json JNull JNull JNull (fst (getStatus (g_cb demo_gw) 0 demo_sec)))"
    "\<And>d. demo_gateway_net (apiFetch ''GET'' ''/api/security/blocklist'' JUndefined d) = Answer True (blocklist_json JNull demo_sec)"
    "\<And>d. demo_gateway_net (apiFetch ''GET'' ''/api/security/logs'' JUndefined d) = Answer False JNull"
    "\<And>r. \<exists>ok v. demo_gateway_net r = Answer ok v"
    by (auto simp: demo_gateway_net_def apiFetch_def status_request_def)
  from online_console_blind [OF this(1,4,2,3), of "init_dashboard (Some ''t'')"] show ?thesis
    by (simp add: Let_def demo_sec_fields)
qed

section \<open>Log lines and overrides\<close>

text \<open>Where the first separator of a line is.\<close>

lemma split_colons_ne: "split_colons s \<noteq> []"
  by (induction s rule: split_colons.induct) (auto split: list.split)

fun clean :: "string \<Rightarrow> bool" where
  "clean (a # b # cs) \<longleftrightarrow> \<not> (a = CHR '':'' \<and> b = CHR '':'') \<and> clean (b # cs)"
| "clean [a] \<longleftrightarrow> a \<noteq> CHR '':''"
| "clean [] = True"

lemma split_clean:
  "clean s \<Longrightarrow> split_colons (s @ ''::'' @ t) = s # split_colons t"
proof (induction s rule: clean.induct)
  case (1 a b cs)
  then show ?case by (auto split: list.split)
next
  case (2 a)
  then show ?case by (auto split: list.split)
qed simp

lemma clean_iff: "clean s \<longleftrightarrow> \<not> (\<exists>a b. s @ '':'' = a @ ''::'' @ b)"
proof (induction s rule: clean.induct)
  case (1 a b cs)
  show ?case
  proof (cases "a = CHR '':'' \<and> b = CHR '':''")
    case True
    then have "(a # b # cs) @ '':'' = [] @ ''::'' @ (cs @ '':'')" by simp
    with True show ?thesis by (metis clean.simps(1))
  next
    case False
    have "(\<exists>u v. (a # b # cs) @ '':'' = u @ ''::'' @ v) \<longleftrightarrow> (\<exists>u v. (b # cs) @ '':'' = u @ ''::'' @ v)"
    proof
      assume "\<exists>u v. (a # b # cs) @ '':'' = u @ ''::'' @ v"
      then obtain u v where "a # b # cs @ '':'' = u @ ''::'' @ v" by auto
      with False show "\<exists>u v. (b # cs) @ '':'' = u @ ''::'' @ v" by (cases u) auto
    next
      assume "\<exists>u v. (b # cs) @ '':'' = u @ ''::'' @ v"
      then obtain u v where "(b # cs) @ '':'' = u @ ''::'' @ v" by blast
      then have "(a # b # cs) @ '':'' = (a # u) @ ''::'' @ v" by simp
      then show "\<exists>u v. (a # b # cs) @ '':'' = u @ ''::'' @ v" by blast
    qed
    with 1 False show ?thesis by simp
  qed
qed (auto simp: Cons_eq_append_conv)

lemma split_unclean: "\<not> clean s \<Longrightarrow> length (hd (split_colons (s @ ''::'' @ t))) < length s"
proof (induction s rule: clean.induct)
  case (1 a b cs)
  then show ?case by (auto split: list.split)
qed simp_all

lemma js_includes_iff: "js_includes s q \<longleftrightarrow> (\<exists>a b. s = a @ q @ b)"
proof (induction s)
  case (Cons c s)
  have "js_startsWith (c # s) q \<longleftrightarrow> (\<exists>b. c # s = q @ b)"
    unfolding js_startsWith_def by (metis append_eq_conv_conj append_take_drop_id)
  with Cons show ?case by (auto simp: Cons_eq_append_conv)
qed simp

definition levels :: "string list" where
  "levels = [''info'', ''warn'', ''error'', ''debug'']"

text \<open>
  What the console writes to its log is what it shows, unless the text contains the separator. A line is shown
  with its level and its whole text exactly when text and separator together have no two adjacent colons before the
  separator itself; otherwise the text is cut at the first such pair, as for any message that names a
  compressed IPv6 address.
\<close>

theorem log_line_shown:
  assumes "level \<in> set levels"
  shows "log_widget (stored_line stamp (line, level)) = Line level (''['' @ stamp @ ''] '' @ line) \<longleftrightarrow>
         \<not> (\<exists>a b. ''['' @ stamp @ ''] '' @ line @ '':'' = a @ ''::'' @ b)"
proof -
  let ?s = "''['' @ stamp @ ''] '' @ line"
  have lv: "split_colons level = [level] \<and> level \<noteq> []" using assms by (auto simp: levels_def)
  have stored: "stored_line stamp (line, level) = ?s @ ''::'' @ level" by (simp add: stored_line_def)
  have "log_widget (?s @ ''::'' @ level) = Line level ?s \<longleftrightarrow> clean ?s"
  proof (cases "clean ?s")
    case True
    from split_clean [OF this, of level] lv True show ?thesis
      by (simp only: log_widget_def list.case if_False simp_thms)
  next
    case False
    from split_unclean [OF this, of level] split_colons_ne [of "?s @ ''::'' @ level"] False show ?thesis
      by (auto simp: log_widget_def split: list.splits)
  qed
  then show ?thesis unfolding stored clean_iff by simp
qed

theorem log_line_shown_witness:
  "log_widget (stored_line ''10:00'' (''[Cache] Invaliding pattern: /a'', ''info'')) =
     Line ''info'' ''[10:00] [Cache] Invaliding pattern: /a'' \<and>
   log_widget (stored_line ''10:00'' (''[Firewall] Blocklist failed: fe80::1'', ''error'')) \<noteq>
     Line ''error'' (''[10:00] [Firewall] Blocklist failed: fe80::1'')"
proof -
  have "clean ''[10:00] [Cache] Invaliding pattern: /a''" "\<not> clean ''[10:00] [Firewall] Blocklist failed: fe80::1''"
    by simp_all
  then show ?thesis
    using log_line_shown [of "''info''" "''10:00''" "''[Cache] Invaliding pattern: /a''"]
      log_line_shown [of "''error''" "''10:00''" "''[Firewall] Blocklist failed: fe80::1''"]
    unfolding clean_iff by (simp add: levels_def)
qed

text \<open>
  The override buttons offline: a node taken out and let back in stays offline until it is forced up, since \<open>null\<close>
  leaves its health as it was.
\<close>

lemma override_cycle:
  assumes "srv = JObj es" "field srv ''id'' = JStr i" "srv' \<in> {srv, override_local i (Some ''unhealthy'') srv}"
  shows "server_badge (override_local i (Some ''unhealthy'') srv) = ''Offline''"
    and "server_badge (override_local i None (override_local i (Some ''unhealthy'') srv)) = ''Offline''"
    and "server_controls (override_local i (Some ''unhealthy'') srv) =
      [Button ''Rejoin Pool'' (Override (JStr i) None), Button ''Force Up'' (Override (JStr i) (Some ''healthy''))]"
    and "server_controls (override_local i None srv') =
      [Button ''Drain / Kill'' (Override (JStr i) (Some ''unhealthy'')), Button ''Force Up'' (Override (JStr i) (Some ''healthy''))]"
    and "server_badge (override_local i (Some ''healthy'') srv') = ''Online''"
  using assms by (auto simp: override_local_def server_badge_def server_controls_def update_conv')

text \<open>Every algorithm the console offers is one of the gateway's; the consistent hash is not offered.\<close>

lemma offered_algorithms: "set getAvailableAlgorithms = insert ''consistent-hash'' (set algorithm_options)"
  by code_simp

end
