(* ===== verification/Interleaving.thy ===== *)
theory Interleaving
  imports System
begin

text \<open>
  Many proxied requests at once. While a request waits for its backend, or for the delay before a retry, Node runs
  other callbacks; \<open>Proxy\<close> follows one request from start to end, here a request in flight takes one step at a
  time (\<open>flight\<close>), interleaved with those of the others and with all background steps (\<open>world_step\<close>). A client may
  leave at any moment, which ends its response: Node emits \<open>close\<close> (or \<open>finish\<close>, then \<open>close\<close>) once, and
  listeners registered afterwards are never called.
\<close>

section \<open>A request in flight\<close>

text \<open>
  \<open>Ready\<close>: the proxy library is about to be called, for the first time or (with the backend that failed) again;
  \<open>Awaiting\<close>: the router has run and the outcome is pending, an error already when there was no target.
  \<open>fl_closed\<close> is how many listeners the response had when it ended.
\<close>

datatype phase =
    Ready "backend_id option option"
  | Awaiting "backend_id option option" "string option"
  | Settled

record flight =
  fl_req :: proxy_req
  fl_phase :: phase
  fl_closed :: "nat option"

definition new_flight :: "proxy_req \<Rightarrow> flight" where
  "new_flight req =
     \<lparr>fl_req = req\<lparr>attempts := (if attempts req = 0 then 1 else attempts req)\<rparr>, fl_phase = Ready None, fl_closed = None\<rparr>"

definition set_flight :: "proxy_req \<Rightarrow> phase \<Rightarrow> flight \<Rightarrow> flight" where
  "set_flight req p f = f\<lparr>fl_req := req, fl_phase := p\<rparr>"

text \<open>The call of the proxy library up to the point where it waits.\<close>

definition route_flight ::
  "cb_config \<Rightarrow> (string \<Rightarrow> 8 word list) \<Rightarrow> string option \<Rightarrow> time \<Rightarrow> flight \<Rightarrow> 'a adc_rt_scheme \<Rightarrow> flight \<times> 'a adc_rt_scheme"
  where
  "route_flight cfg md5 no_target now f s =
     (case fl_phase f of
        Ready prev \<Rightarrow>
          (case router cfg md5 now (fl_req f) s of
             (RouterThrows, req, s) \<Rightarrow>
               (set_flight
                  (case prev of
                     None \<Rightarrow> reply NextError req
                   | Some b \<Rightarrow> if headersSent req then req else reply (BadGateway bad_gateway b None) req) Settled f, s)
           | (NoTarget, req, s) \<Rightarrow>
               (set_flight req (case no_target of None \<Rightarrow> Settled | Some e \<Rightarrow> Awaiting prev (Some e)) f, s)
           | (Target u, req, s) \<Rightarrow>
               (set_flight (req\<lparr>forwarded := forwarded req @ [(the (targetBackend req), addProxyHeaders req)]\<rparr>)
                  (Awaiting prev None) f, s))
      | _ \<Rightarrow> (f, s))"

text \<open>The outcome arrives.\<close>

definition error_flight ::
  "cb_config \<Rightarrow> attempt_env \<Rightarrow> string \<Rightarrow> proxy_req \<Rightarrow> flight \<Rightarrow> 'a adc_mt_scheme \<Rightarrow> flight \<times> 'a adc_mt_scheme" where
  "error_flight cfg env err req f s =
     (case handleProxyError cfg (e_done env) (e_ns env) (e_random env) err req s of
        (Retry d b, req, s) \<Rightarrow> (set_flight req (Ready (Some b)) f, s)
      | (Finished, req, s) \<Rightarrow> (set_flight req Settled f, s))"

definition result_flight ::
  "cb_config \<Rightarrow> attempt_env \<Rightarrow> flight \<Rightarrow> 'a adc_mt_scheme \<Rightarrow> flight \<times> 'a adc_mt_scheme" where
  "result_flight cfg env f s =
     (case fl_phase f of
        Awaiting prev (Some e) \<Rightarrow> error_flight cfg env e (fl_req f) f s
      | Awaiting prev None \<Rightarrow>
          (case e_upstream env of
             UpResponse statusCode \<Rightarrow>
               (case proxyRes cfg (e_done env) (e_ns env) statusCode (fl_req f) s of
                  (req, s) \<Rightarrow> (set_flight req Settled f, s))
           | UpError err sent \<Rightarrow>
               error_flight cfg env err ((fl_req f)\<lparr>headersSent := headersSent (fl_req f) \<or> sent\<rparr>) f s)
      | _ \<Rightarrow> (f, s))"

text \<open>The response ends: every \<open>decrement\<close> registered so far runs.\<close>

definition close_flight :: "time \<Rightarrow> flight \<Rightarrow> 'a adc_dr_scheme \<Rightarrow> flight \<times> 'a adc_dr_scheme" where
  "close_flight now f s =
     (case fl_closed f of
        Some k \<Rightarrow> (f, s)
      | None \<Rightarrow> (f\<lparr>fl_closed := Some (length (listeners (fl_req f)))\<rparr>, response_ends now (listeners (fl_req f)) s))"

section \<open>The atomic run is one of the interleavings\<close>

text \<open>One attempt of \<open>proxyInstance\<close> is a routing step followed by a result step.\<close>

definition end_phase :: "attempt_end \<Rightarrow> phase" where
  "end_phase e = (case e of Retry d b \<Rightarrow> Ready (Some b) | Finished \<Rightarrow> Settled)"

lemma proxyInstance_steps:
  assumes "fl_phase f = Ready prev"
  shows "(case route_flight cfg md5 no_target (e_routed env) f s of (f', s') \<Rightarrow> result_flight cfg env f' s') =
         (case proxyInstance cfg md5 no_target prev env (fl_req f) s of
            (e, req, s') \<Rightarrow> (set_flight req (end_phase e) f, s'))"
proof -
  obtain r req s' where r: "router cfg md5 (e_routed env) (fl_req f) s = (r, req, s')" by (metis prod_cases3)
  show ?thesis
    using assms r
    by (cases r; cases no_target; cases prev; cases "e_upstream env")
      (auto simp: route_flight_def result_flight_def error_flight_def proxyInstance_def set_flight_def end_phase_def Let_def
        split: prod.split attempt_end.split)
qed

text \<open>A request that is never interrupted: it takes its steps one after the other.\<close>

fun flight_run ::
  "cb_config \<Rightarrow> (string \<Rightarrow> 8 word list) \<Rightarrow> string option \<Rightarrow> attempt_env list \<Rightarrow> flight \<Rightarrow> 'a adc_rt_scheme \<Rightarrow>
   flight \<times> 'a adc_rt_scheme" where
  "flight_run cfg md5 no_target [] f s = (f, s)"
| "flight_run cfg md5 no_target (env # envs) f s =
     (case route_flight cfg md5 no_target (e_routed env) f s of (f, s) \<Rightarrow>
      case result_flight cfg env f s of (f, s) \<Rightarrow> flight_run cfg md5 no_target envs f s)"

lemma flight_run_settled: "fl_phase f = Settled \<Longrightarrow> flight_run cfg md5 no_target envs f s = (f, s)"
  by (induction envs) (simp_all add: route_flight_def result_flight_def)

lemma flight_run_proxy_run:
  assumes "fl_phase f = Ready prev" "proxy_run cfg md5 no_target prev envs (fl_req f) s = (fin, req, s')"
  shows "\<exists>p. flight_run cfg md5 no_target envs f s = (set_flight req p f, s') \<and> (p = Settled \<longleftrightarrow> fin)"
  using assms
proof (induction envs arbitrary: f prev s)
  case Nil
  then show ?case by (cases f) (auto simp: set_flight_def)
next
  case (Cons env envs)
  obtain e req1 s1 where pass: "proxyInstance cfg md5 no_target prev env (fl_req f) s = (e, req1, s1)"
    by (metis prod_cases3)
  have step: "flight_run cfg md5 no_target (env # envs) f s =
      flight_run cfg md5 no_target envs (set_flight req1 (end_phase e) f) s1"
    using proxyInstance_steps [OF Cons.prems(1), of cfg env md5 no_target s] pass
    by (auto split: prod.splits)
  show ?case
  proof (cases e)
    case (Retry d b)
    with Cons.prems(2) pass have run: "proxy_run cfg md5 no_target (Some b) envs req1 s1 = (fin, req, s')" by simp
    let ?f = "set_flight req1 (end_phase e) f"
    have "fl_phase ?f = Ready (Some b)" "fl_req ?f = req1" using Retry by (simp_all add: set_flight_def end_phase_def)
    with Cons.IH [of ?f "Some b" s1] run obtain p where
      p: "flight_run cfg md5 no_target envs ?f s1 = (set_flight req p ?f, s')" "p = Settled \<longleftrightarrow> fin" by auto
    then show ?thesis unfolding step by (intro exI [of _ p]) (simp add: set_flight_def)
  next
    case Finished
    with Cons.prems(2) pass have "fin" "req1 = req" "s1 = s'" by auto
    then show ?thesis
      unfolding step using Finished by (simp add: flight_run_settled set_flight_def end_phase_def)
  qed
qed



section \<open>The world\<close>

text \<open>
  The shared state and the requests proxied so far, numbered by arrival. A request becomes a flight when every
  filter has admitted it, the cache has no answer and its path is not one of the API.
\<close>

definition fresh_request :: "proxy_req \<Rightarrow> bool" where
  "fresh_request req \<longleftrightarrow>
     attempts req = 0 \<and> failedBackends req = [] \<and> targetBackend req = None \<and> \<not> headersSent req \<and>
     replies req = [] \<and> listeners req = [] \<and> forwarded req = []"

fun goes_on :: "cache_decision \<Rightarrow> bool" where
  "goes_on (CacheHit _ _ _) = False"
| "goes_on _ = True"

inductive world_step ::
  "gw_config \<Rightarrow> jwt_lib \<Rightarrow> 'r redis_client \<Rightarrow> api_env \<Rightarrow> (string \<Rightarrow> 8 word list) \<Rightarrow> (proxy_req \<Rightarrow> bool) \<Rightarrow> string option \<Rightarrow>
   'r adc_ca \<times> flight list \<Rightarrow> 'r adc_ca \<times> flight list \<Rightarrow> bool"
  for cfg :: gw_config and jwt :: jwt_lib and rc :: "'r redis_client" and e :: api_env
    and md5 :: "string \<Rightarrow> 8 word list" and cors :: "proxy_req \<Rightarrow> bool" and no_target :: "string option" where
  turn: "gw_background cfg jwt rc e cors s t \<Longrightarrow> world_step cfg jwt rc e md5 cors no_target (s, fs) (t, fs)"
| arrive: "fresh_request req \<Longrightarrow>
    edge_filters cfg cors now rd req q s = (Admitted hs, s1) \<Longrightarrow>
    cacheMiddleware (g_cache cfg) rc now ns ns' req hs' s1 = (d, s2) \<Longrightarrow> goes_on d \<Longrightarrow>
    \<not> js_startsWith (req_path req) ''/api'' \<Longrightarrow>
    world_step cfg jwt rc e md5 cors no_target (s, fs) (s2, fs @ [new_flight req])"
| route: "n < length fs \<Longrightarrow> route_flight (g_cb cfg) md5 no_target now (fs ! n) s = (f, t) \<Longrightarrow>
    world_step cfg jwt rc e md5 cors no_target (s, fs) (t, fs[n := f])"
| result: "n < length fs \<Longrightarrow> result_flight (g_cb cfg) env (fs ! n) s = (f, t) \<Longrightarrow>
    world_step cfg jwt rc e md5 cors no_target (s, fs) (t, fs[n := f])"
| close: "n < length fs \<Longrightarrow> close_flight now (fs ! n) s = (f, t) \<Longrightarrow>
    world_step cfg jwt rc e md5 cors no_target (s, fs) (t, fs[n := f])"

end
