(* ===== verification/Connections.thy ===== *)
theory Connections
  imports Interleaving
begin

text \<open>
  The connection counters under interleaving: in every reachable world each backend's \<open>activeConnections\<close> is the
  number of \<open>decrement\<close> listeners still waiting for the end of a response, and what follows when a listener is
  registered on a response that has ended already.
\<close>

section \<open>Connections held by a flight\<close>

text \<open>Listeners registered after the response ended are counted, since nothing will ever call them.\<close>

definition held :: "backend_id \<Rightarrow> flight \<Rightarrow> nat" where
  "held j f = count_list (drop (case fl_closed f of None \<Rightarrow> 0 | Some k \<Rightarrow> k) (listeners (fl_req f))) j"

definition stranded :: "flight \<Rightarrow> backend_id list" where
  "stranded f = (case fl_closed f of None \<Rightarrow> [] | Some k \<Rightarrow> drop k (listeners (fl_req f)))"

text \<open>The budget of a request, phase by phase.\<close>

fun in_budget :: "phase \<Rightarrow> proxy_req \<Rightarrow> bool" where
  "in_budget (Ready p) req \<longleftrightarrow>
     \<not> headersSent req \<and> replies req = [] \<and> 1 \<le> attempts req \<and> length (forwarded req) < attempts req \<and>
     attempts req \<le> (if isIdempotent req then 3 else 1)"
| "in_budget (Awaiting p e) req \<longleftrightarrow>
     \<not> headersSent req \<and> replies req = [] \<and> 1 \<le> attempts req \<and> length (forwarded req) \<le> attempts req \<and>
     attempts req \<le> (if isIdempotent req then 3 else 1)"
| "in_budget Settled req \<longleftrightarrow>
     length (replies req) \<le> 1 \<and> length (forwarded req) \<le> (if isIdempotent req then 3 else 1)"

definition flight_ok :: "flight \<Rightarrow> bool" where
  "flight_ok f \<longleftrightarrow>
     in_budget (fl_phase f) (fl_req f) \<and>
     (case fl_closed f of None \<Rightarrow> True | Some k \<Rightarrow> k \<le> length (listeners (fl_req f)))"

text \<open>What a step of one flight does to the counters: it opens the connections \<open>ls\<close>.\<close>

definition opens :: "backend_id list \<Rightarrow> flight \<Rightarrow> 'a adc_scheme \<Rightarrow> flight \<Rightarrow> 'a adc_scheme \<Rightarrow> bool" where
  "opens ls f s f' s' \<longleftrightarrow>
     listeners (fl_req f') = listeners (fl_req f) @ ls \<and> fl_closed f' = fl_closed f \<and> set ls \<subseteq> set (ids s) \<and>
     (\<forall>j. active j s' = map_option (\<lambda>n. n + count_list ls j) (active j s))"

lemma opens_none: "listeners (fl_req f') = listeners (fl_req f) \<Longrightarrow> fl_closed f' = fl_closed f \<Longrightarrow>
    (\<And>j. active j s' = active j s) \<Longrightarrow> opens [] f s f' s'"
  by (simp add: opens_def option.map_ident)

lemma held_opens: "flight_ok f \<Longrightarrow> opens ls f s f' s' \<Longrightarrow> held j f' = held j f + count_list ls j"
  by (auto simp: held_def opens_def flight_ok_def split: option.splits)

lemma router_opens:
  assumes "router cfg md5 now req s = (r, req', s')" "routable s"
  shows "\<exists>ls. listeners req' = listeners req @ ls \<and> set ls \<subseteq> set (ids s) \<and>
    (\<forall>j. active j s' = map_option (\<lambda>n. n + count_list ls j) (active j s))"
proof -
  have "selectBackend cfg md5 now req (failedBackends req) s = (x, t) \<Longrightarrow> active j t = active j s" for x t j
    by (metis active_selectBackend snd_conv)
  moreover have "i \<in> set (ids s)" if "selectBackend cfg md5 now req (failedBackends req) s = (Selected i a x, t)" for i a x t
    using selectBackend_cases [OF assms(2), of cfg now "failedBackends req" md5 req] that
    by (auto simp: candidate_ids_def Let_def split: if_splits)
  ultimately show ?thesis using assms(1)
    by (auto simp: router_def option.map_comp comp_def option.map_ident split: option.splits prod.splits selection.splits)
qed

lemma set_flight_simps [simp]:
  "fl_req (set_flight req p f) = req"
  "fl_phase (set_flight req p f) = p"
  "fl_closed (set_flight req p f) = fl_closed f"
  by (simp_all add: set_flight_def)

lemma listeners_reply [simp]:
  "listeners (reply r req) = listeners req" "forwarded (reply r req) = forwarded req"
  "replies (reply r req) = replies req @ [r]" "isIdempotent (reply r req) = isIdempotent req"
  by (simp_all add: reply_def)

lemma route_flight_opens:
  assumes "route_flight cfg md5 no_target now f s = (f', s')" "routable s"
  shows "\<exists>ls. opens ls f s f' s'"
proof (cases "fl_phase f")
  case (Ready prev)
  obtain r req' t where r: "router cfg md5 now (fl_req f) s = (r, req', t)" by (metis prod_cases3)
  have "listeners (fl_req f') = listeners req' \<and> fl_closed f' = fl_closed f \<and> s' = t"
    using assms Ready r
    by (cases r) (auto simp: route_flight_def split: option.splits if_splits)
  with router_opens [OF r assms(2)] show ?thesis by (auto simp: opens_def)
qed (use assms in \<open>auto simp: route_flight_def intro!: exI [of _ "[]"] opens_none\<close>)

lemma active_proxy_hooks:
  "active j (snd (snd (handleProxyError cfg now ns rnd err req s))) = active j s"
  "active j (snd (proxyRes cfg now ns c req s)) = active j s"
  by (auto simp: handleProxyError_eq proxyRes_def Let_def split: option.splits)

lemma error_flight_opens:
  assumes "error_flight cfg env err req f s = (f', s')" "listeners req = listeners (fl_req f)"
  shows "opens [] f s f' s'"
proof -
  obtain e req' t where h: "handleProxyError cfg (e_done env) (e_ns env) (e_random env) err req s = (e, req', t)"
    by (metis prod_cases3)
  have "listeners req' = listeners req"
    using h [symmetric] by (auto simp: handleProxyError_eq Let_def split: if_splits)
  moreover have "active j t = active j s" for j
    using active_proxy_hooks(1) [of j cfg "e_done env" "e_ns env" "e_random env" err req s] h by simp
  ultimately show ?thesis
    using assms h by (intro opens_none) (auto simp: error_flight_def split: attempt_end.splits)
qed

lemma result_flight_opens:
  assumes "result_flight cfg env f s = (f', s')"
  shows "opens [] f s f' s'"
proof (cases "fl_phase f")
  case (Awaiting prev err)
  show ?thesis
  proof (cases err)
    case None
    show ?thesis
    proof (cases "e_upstream env")
      case (UpResponse c)
      with assms Awaiting None active_proxy_hooks(2) [of _ cfg "e_done env" "e_ns env" c "fl_req f" s] show ?thesis
        by (intro opens_none) (auto simp: result_flight_def proxyRes_def Let_def)
    next
      case (UpError e sent)
      with assms Awaiting None show ?thesis by (auto simp: result_flight_def elim!: error_flight_opens)
    qed
  qed (use assms Awaiting in \<open>auto simp: result_flight_def elim!: error_flight_opens\<close>)
qed (use assms in \<open>auto simp: result_flight_def intro!: opens_none\<close>)

section \<open>The budget is kept\<close>

lemma in_budget_final:
  "in_budget p q \<Longrightarrow> length (forwarded q) \<le> (if isIdempotent q then 3 else 1) \<and> length (replies q) \<le> 1"
  by (cases p) (auto split: if_splits)

lemma route_flight_ok:
  assumes "route_flight cfg md5 no_target now f s = (f', s')" "flight_ok f" "routable s"
  shows "flight_ok f'"
proof (cases "fl_phase f")
  case (Ready prev)
  obtain r req' t where r: "router cfg md5 now (fl_req f) s = (r, req', t)" by (metis prod_cases3)
  have "in_budget (fl_phase f') (fl_req f')"
    using assms Ready r router_request [OF r]
    by (cases r; cases prev; cases no_target) (auto simp: route_flight_def flight_ok_def)
  with route_flight_opens [OF assms(1,3)] assms(2) show ?thesis
    by (auto simp: flight_ok_def opens_def split: option.splits)
qed (use assms in \<open>simp_all add: route_flight_def\<close>)

lemma error_flight_ok:
  assumes "error_flight cfg env err req f s = (f', s')"
    "\<not> headersSent req \<longrightarrow> in_budget (Awaiting prev None) req" "in_budget Settled (reply NextError (req\<lparr>replies := []\<rparr>))"
    "replies req = []"
  shows "in_budget (fl_phase f') (fl_req f')"
  using assms(1) [symmetric] assms(2-)
  by (auto simp: error_flight_def handleProxyError_eq Let_def max_def split: option.splits if_splits)

lemma result_flight_ok:
  assumes "result_flight cfg env f s = (f', s')" "flight_ok f"
  shows "flight_ok f'"
proof -
  have "in_budget (fl_phase f') (fl_req f')"
  proof (cases "fl_phase f")
    case (Awaiting prev err)
    show ?thesis
    proof (cases err)
      case None
      show ?thesis
      proof (cases "e_upstream env")
        case (UpResponse c)
        with assms Awaiting None show ?thesis
          by (auto simp: result_flight_def proxyRes_def Let_def flight_ok_def split: if_splits)
      next
        case (UpError e sent)
        with assms Awaiting None show ?thesis
          by (auto simp: result_flight_def flight_ok_def reply_def elim!: error_flight_ok split: if_splits)
      qed
    qed (use assms Awaiting in \<open>auto simp: result_flight_def flight_ok_def reply_def elim!: error_flight_ok split: if_splits\<close>)
  qed (use assms in \<open>auto simp: result_flight_def flight_ok_def\<close>)
  with result_flight_opens [OF assms(1)] assms(2) show ?thesis
    by (auto simp: flight_ok_def opens_def split: option.splits)
qed

lemma close_flight_ok:
  assumes "close_flight now f s = (f', s')" "flight_ok f"
  shows "flight_ok f'" "held j f' = (if fl_closed f = None then 0 else held j f)"
    "active j s' = map_option (\<lambda>n. n - (held j f - held j f')) (active j s)"
  using assms
  by (auto simp: close_flight_def flight_ok_def held_def active_response_ends option.map_ident split: option.splits)

section \<open>The invariant of the world\<close>

definition all_held :: "backend_id \<Rightarrow> flight list \<Rightarrow> nat" where
  "all_held j fs = sum_list (map (held j) fs)"

definition world_ok :: "(backend_id \<times> string) list \<Rightarrow> 'r adc_ca \<times> flight list \<Rightarrow> bool" where
  "world_ok ms w \<longleftrightarrow>
     well_formed (\<lambda>b. (bid b, url b)) ms (fst w) \<and>
     list_all (\<lambda>f. flight_ok f \<and> set (listeners (fl_req f)) \<subseteq> set (map fst ms)) (snd w) \<and>
     (\<forall>j n. active j (fst w) = Some n \<longrightarrow> n = all_held j (snd w))"

lemma all_held_update:
  assumes "n < length fs"
  shows "all_held j (fs[n := f]) = all_held j fs + held j f - held j (fs ! n)"
  using assms by (simp add: all_held_def map_update sum_list_update)

lemma held_le: "n < length fs \<Longrightarrow> held j (fs ! n) \<le> all_held j fs"
  unfolding all_held_def by (rule member_le_sum_list) simp_all

lemma list_all_put: "list_all P xs \<Longrightarrow> P x \<Longrightarrow> list_all P (xs[n := x])"
  by (auto simp: list_all_iff dest!: set_update_subset_insert [THEN subsetD])

text \<open>A background step moves no counter.\<close>

lemma find_same_counter:
  "map (\<lambda>b. (bid b, url b, activeConnections b)) xs = map (\<lambda>b. (bid b, url b, activeConnections b)) ys \<Longrightarrow>
   map_option activeConnections (find_backend j xs) = map_option activeConnections (find_backend j ys)"
proof (induction xs arbitrary: ys)
  case (Cons x xs)
  then show ?case by (cases ys) (auto simp: find_backend_def)
qed (simp add: find_backend_def)

lemma active_background:
  assumes "gw_background cfg jwt rc e cors s t" "well_formed (\<lambda>b. (bid b, url b)) ms s"
  shows "active j t = active j s"
proof -
  let ?v = "\<lambda>b. (bid b, url b, activeConnections b)"
  have "well_formed ?v (map ?v (pool s)) s" using assms(2) by (simp add: well_formed_def)
  from counted.wf_background [OF assms(1) this] have "map ?v (pool t) = map ?v (pool s)" by (simp add: well_formed_def)
  then have "map_option activeConnections (find_backend j (pool t)) = map_option activeConnections (find_backend j (pool s))"
    by (rule find_same_counter)
  then show ?thesis by (simp add: active_def get_backend_def)
qed

lemma wf_identity:
  assumes "well_formed (\<lambda>b. (bid b, url b)) ms s" "distinct (map fst ms)"
  shows "gw_step cfg jwt rc e md5 cors s t \<Longrightarrow> well_formed (\<lambda>b. (bid b, url b)) ms t"
  using identity.wf_step [OF _ assms(1) identity_pool_ok [OF assms]] by blast

text \<open>Each step of a flight is a sequence of steps of the state machine of \<open>System\<close>.\<close>

lemma route_flight_state:
  "snd (route_flight cfg md5 no_target now f s) \<in> {s, snd (snd (router cfg md5 now (fl_req f) s))}"
  by (auto simp: route_flight_def split: phase.split prod.split routed.split option.split)

lemma result_flight_state:
  assumes "snd (result_flight cfg env f s) = t"
  shows "t = s \<or> (\<exists>err (req :: proxy_req). t = snd (snd (handleProxyError cfg (e_done env) (e_ns env) (e_random env) err req s))) \<or>
         (\<exists>c. t = snd (proxyRes cfg (e_done env) (e_ns env) c (fl_req f) s))"
proof -
  have e: "snd (error_flight cfg env x r f s) =
      snd (snd (handleProxyError cfg (e_done env) (e_ns env) (e_random env) x r s))" for x r
    by (simp add: error_flight_def split: prod.split attempt_end.split)
  have p: "snd (case proxyRes cfg (e_done env) (e_ns env) c (fl_req f) s of (req, s) \<Rightarrow> (set_flight req Settled f, s)) =
      snd (proxyRes cfg (e_done env) (e_ns env) c (fl_req f) s)" for c
    by (simp split: prod.split)
  show ?thesis
    using assms by (auto simp: result_flight_def p e split: phase.splits option.splits upstream.splits)
qed

lemma world_wf:
  assumes "world_step cfg jwt rc e md5 cors no_target w w'" "well_formed (\<lambda>b. (bid b, url b)) ms (fst w)"
    "distinct (map fst ms)"
  shows "well_formed (\<lambda>b. (bid b, url b)) ms (fst w')"
  using assms(1)
proof cases
  case (turn s t fs)
  with assms(2) identity.wf_background show ?thesis by simp
next
  case (arrive req now rd q s hs s1 ns ns' hs' d s2 fs)
  have "gw_background cfg jwt rc e cors s s1" "gw_background cfg jwt rc e cors s1 s2"
    using arrive(4,5) by (metis gw_background.edge snd_conv) (metis gw_background.lookup arrive(5) snd_conv)
  then show ?thesis using arrive(1,2) assms(2) identity.wf_background by simp blast
next
  case (route n fs now s f t)
  with route_flight_state [of "g_cb cfg" md5 no_target now "fs ! n" s] wf_identity [OF assms(2,3) gw_step.route]
  show ?thesis using assms(2) by auto
next
  case (result n fs env s f t)
  with result_flight_state [of "g_cb cfg" env "fs ! n" s t]
    wf_identity [OF assms(2,3) gw_step.failed] wf_identity [OF assms(2,3) gw_step.passed]
  show ?thesis using assms(2) by auto
next
  case (close n fs now s f t)
  with assms(2) show ?thesis by (auto simp: close_flight_def intro: identity.wf_response_ends split: option.splits)
qed

text \<open>The invariant, step by step.\<close>

lemma world_step_ok:
  assumes "world_step cfg jwt rc e md5 cors no_target w w'" "world_ok ms w" "distinct (map fst ms)"
  shows "world_ok ms w'"
proof -
  have wf: "well_formed (\<lambda>b. (bid b, url b)) ms (fst w')"
    using world_wf [OF assms(1) _ assms(3)] assms(2) by (simp add: world_ok_def)
  note wok = assms(2) [unfolded world_ok_def]
  have routable: "routable s" "ids s = map fst ms" if "w = (s, fs)" for s fs
    using that wok assms(3) identity.well_formed_routable [of ms s] identity_pool_ok [of ms s]
    by (auto simp: well_formed_def ids_def)
  let ?P = "\<lambda>f. flight_ok f \<and> set (listeners (fl_req f)) \<subseteq> set (map fst ms)"
  have counts: "list_all ?P (fs[n := f]) \<and> (active j t = Some m \<longrightarrow> m = all_held j (fs[n := f]))"
    if "n < length fs" "w = (s, fs)" "flight_ok f" "opens ls (fs ! n) s f t" for n fs f s t ls j m
  proof -
    have fok: "?P (fs ! n)" using that wok by (simp add: list_all_length)
    then have "?P f" using that routable(2) by (auto simp: opens_def)
    then have "list_all ?P (fs[n := f])" using that wok by (intro list_all_put) simp_all
    with fok held_opens [of "fs ! n" ls s f t j] that wok show ?thesis
      by (auto simp: opens_def all_held_update)
  qed
  from assms(1) have "list_all ?P (snd w') \<and> (\<forall>j n. active j (fst w') = Some n \<longrightarrow> n = all_held j (snd w'))"
  proof cases
    case (turn s t fs)
    then have "active j t = active j s" for j using active_background [OF turn(3)] wok by auto
    then show ?thesis using turn wok by simp
  next
    case (arrive req now rd q s hs s1 ns ns' hs' d s2 fs)
    have b: "gw_background cfg jwt rc e cors s s1" "gw_background cfg jwt rc e cors s1 s2"
      using arrive(4,5) by (metis gw_background.edge snd_conv) (metis gw_background.lookup arrive(5) snd_conv)
    have wf0: "well_formed (\<lambda>b. (bid b, url b)) ms s" using arrive(1) wok by simp
    have "active j s2 = active j s" for j
      using active_background [OF b(2) identity.wf_background [OF b(1) wf0]] active_background [OF b(1) wf0] by simp
    moreover have "?P (new_flight req)" "held j (new_flight req) = 0" for j
      using arrive(3) by (simp_all add: fresh_request_def new_flight_def flight_ok_def held_def)
    ultimately show ?thesis using arrive(1,2) wok by (simp add: all_held_def)
  next
    case (route n fs now s f t)
    have fok: "flight_ok (fs ! n)" using route wok by (simp add: list_all_length)
    obtain ls where "opens ls (fs ! n) s f t" using route_flight_opens [OF route(4)] routable(1) route(1) by blast
    then show ?thesis using counts route(1-3) route_flight_ok [OF route(4) fok] routable(1) by auto
  next
    case (result n fs env s f t)
    have fok: "flight_ok (fs ! n)" using result wok by (simp add: list_all_length)
    show ?thesis
      using counts result(1-3) result_flight_opens [OF result(4)] result_flight_ok [OF result(4) fok] by auto
  next
    case (close n fs now s f t)
    have fok: "?P (fs ! n)" using close wok by (simp add: list_all_length)
    note c = close_flight_ok [OF close(4) conjunct1 [OF fok]]
    have "m = all_held j (fs[n := f])" if "active j t = Some m" for j m
      using that close wok c(2,3) [of j] by (auto simp: all_held_update)
    moreover have "?P f" using c(1) fok close(4) by (auto simp: close_flight_def split: option.splits)
    ultimately show ?thesis using close wok by (simp add: list_all_put)
  qed
  with wf show ?thesis by (simp add: world_ok_def)
qed

lemma world_reach_ok:
  assumes "(world_step cfg jwt rc e md5 cors no_target)\<^sup>*\<^sup>* w w'" "world_ok ms w" "distinct (map fst ms)"
  shows "world_ok ms w'"
  using assms(1) by (induction rule: rtranclp_induct) (use assms(2,3) world_step_ok in blast)+

lemma boot_pool:
  assumes "boot cfg now urls alg threshold enforce offline r = Inr s"
  shows "pool s = createBackendPool urls"
  using assms
  by (auto simp: boot_def init_routing_def setAlgorithm_def Let_def init_lb_def initBreakers_frame init_history_def
      init_hstats_def init_cache_def modules_loaded_def split: sum.splits if_splits)

lemma boot_ok:
  assumes "boot cfg now urls alg threshold enforce offline r = Inr s" "alg \<notin> set object_prototype"
  shows "world_ok (configured urls) (s, [])"
proof -
  have "activeConnections b = 0" if "b \<in> set (createBackendPool urls)" for b
    using that by (auto simp: createBackendPool_def mk_backend_def)
  then have "active j s = Some n \<Longrightarrow> n = 0" for j n
    by (auto simp: active_def get_backend_def boot_pool [OF assms(1)] find_backend_def find_Some_iff)
  with wf_boot [OF assms] show ?thesis by (simp add: world_ok_def all_held_def)
qed

lemma active_pool: "distinct (map bid (pool s)) \<Longrightarrow> b \<in> set (pool s) \<Longrightarrow> active (bid b) s = Some (activeConnections b)"
  by (auto simp: active_def get_backend_def find_backend_def find_key_distinct)


section \<open>A connection that is never given back\<close>

lemma count_stranded: "count_list (stranded f) j \<le> held j f"
  by (auto simp: stranded_def held_def split: option.split)

lemma opens_stranded: "opens ls f s f' s' \<Longrightarrow> flight_ok f \<Longrightarrow> set (stranded f) \<subseteq> set (stranded f')"
  by (auto simp: opens_def stranded_def flight_ok_def split: option.splits)

lemma stranded_step:
  assumes "world_step cfg jwt rc e md5 cors no_target w w'" "world_ok ms w" "distinct (map fst ms)" "n < length (snd w)"
  shows "n < length (snd w') \<and> set (stranded (snd w ! n)) \<subseteq> set (stranded (snd w' ! n))"
proof -
  have routable: "routable s" if "w = (s, fs)" for s fs
    using that assms(2,3) identity.well_formed_routable [of ms s] identity_pool_ok [of ms s] by (auto simp: world_ok_def)
  have fok: "flight_ok (snd w ! m)" if "m < length (snd w)" for m
    using that assms(2) by (simp add: world_ok_def list_all_length)
  from assms(1) show ?thesis
  proof cases
    case (route m fs now s f t)
    obtain ls where "opens ls (fs ! m) s f t" using route_flight_opens [OF route(4)] routable route(1) by blast
    with opens_stranded [OF this] route fok [of m] assms(4) show ?thesis by (auto simp: nth_list_update)
  next
    case (result m fs env s f t)
    with opens_stranded [OF result_flight_opens [OF result(4)]] fok [of m] assms(4) show ?thesis by (auto simp: nth_list_update)
  next
    case (close m fs now s f t)
    then have "set (stranded (fs ! m)) \<subseteq> set (stranded f)"
      by (auto simp: close_flight_def stranded_def split: option.splits)
    with close assms(4) show ?thesis by (auto simp: nth_list_update)
  qed (use assms(4) in \<open>auto simp: nth_append\<close>)
qed

lemma stranded_reach:
  assumes "(world_step cfg jwt rc e md5 cors no_target)\<^sup>*\<^sup>* w w'" "world_ok ms w" "distinct (map fst ms)" "n < length (snd w)"
  shows "n < length (snd w') \<and> set (stranded (snd w ! n)) \<subseteq> set (stranded (snd w' ! n))"
  using assms(1)
proof (induction rule: rtranclp_induct)
  case (step v v')
  from world_reach_ok [OF step(1) assms(2,3)] stranded_step [OF step(2) _ assms(3)] step.IH show ?case by blast
qed (use assms(4) in simp)

text \<open>
  C35: a client that leaves during the delay before a retry costs its next backend a connection for good. The retry
  registers its \<open>decrement\<close> on a response that has already ended, where nothing calls it; from then on the backend's
  counter is at least one in every later world, whatever happens and however idle the gateway is, so the
  least-connections strategy is biased for ever and a drain of that backend can only end by its deadline.
\<close>

theorem leak_is_permanent:
  assumes "boot cfg now urls alg threshold enforce offline r = Inr s0" "alg \<notin> set object_prototype"
    and "(world_step cfg jwt rc e md5 cors no_target)\<^sup>*\<^sup>* (s0, []) w" "n < length (snd w)" "j \<in> set (stranded (snd w ! n))"
    and "(world_step cfg jwt rc e md5 cors no_target)\<^sup>*\<^sup>* w w'"
  shows "\<exists>m. active j (fst w') = Some (Suc m)"
proof -
  note ok = world_reach_ok [OF assms(3) boot_ok [OF assms(1,2)] distinct_configured]
  note ok' = world_reach_ok [OF assms(6) ok distinct_configured]
  from stranded_reach [OF assms(6) ok distinct_configured assms(4)] assms(5)
  have n: "n < length (snd w')" "j \<in> set (stranded (snd w' ! n))" by auto
  then have "0 < count_list (stranded (snd w' ! n)) j" by (metis count_list_0_iff gr0I)
  with count_stranded [of "snd w' ! n" j] held_le [OF n(1), of j] have pos: "0 < all_held j (snd w')" by simp
  have "j \<in> set (listeners (fl_req (snd w' ! n)))"
    using n(2) by (auto simp: stranded_def dest: in_set_dropD split: option.splits)
  with ok' n(1) have "j \<in> set (ids (fst w'))"
    by (auto simp: world_ok_def list_all_length ids_members members_def well_formed_def)
  then obtain m where "active j (fst w') = Some m" using get_backend_None [of j "fst w'"] by (auto simp: active_def)
  with ok' pos show ?thesis by (cases m) (auto simp: world_ok_def)
qed

section \<open>A concrete story\<close>

text \<open>One backend. A client asks for a page; the attempt fails, the client leaves during the delay, the retry succeeds.\<close>

definition demo_booted :: "nat adc_ca" where
  "demo_booted = projr (boot demo_gw 0 [''http://a/''] ''round-robin'' 3 True True 0)"

definition demo_admitted :: "edge \<times> nat adc_ca" where
  "demo_admitted = edge_filters demo_gw (\<lambda>q. False) 10 RedisInactive demo_edge_req (JObj []) demo_booted"

definition demo_looked_up :: "cache_decision \<times> nat adc_ca" where
  "demo_looked_up =
     (case demo_admitted of (v, s) \<Rightarrow> cacheMiddleware (g_cache demo_gw) demo_redis 10 0 1 demo_edge_req [] s)"

definition demo_routed :: "flight \<times> nat adc_ca" where
  "demo_routed = (case demo_looked_up of (d, s) \<Rightarrow>
     route_flight (g_cb demo_gw) demo_md5 None 10 (new_flight demo_edge_req) s)"

definition demo_failed :: "flight \<times> nat adc_ca" where
  "demo_failed = (case demo_routed of (f, s) \<Rightarrow>
     result_flight (g_cb demo_gw) (demo_env (UpError ''ECONNREFUSED'' False)) f s)"

definition demo_left :: "flight \<times> nat adc_ca" where
  "demo_left = (case demo_failed of (f, s) \<Rightarrow> close_flight 30 f s)"

definition demo_again :: "flight \<times> nat adc_ca" where
  "demo_again = (case demo_left of (f, s) \<Rightarrow> route_flight (g_cb demo_gw) demo_md5 None 40 f s)"

definition demo_served :: "flight \<times> nat adc_ca" where
  "demo_served = (case demo_again of (f, s) \<Rightarrow> result_flight (g_cb demo_gw) (demo_env (UpResponse 200)) f s)"

lemma demo_admits: "\<exists>hs. fst demo_admitted = Admitted hs"
proof -
  have "(case fst demo_admitted of Admitted h \<Rightarrow> True | _ \<Rightarrow> False)" by code_simp
  then show ?thesis by (cases "fst demo_admitted") simp_all
qed

lemma demo_misses: "goes_on (fst demo_looked_up)"
  by code_simp

lemma demo_strands: "stranded (fst demo_again) = [''backend-1'']"
  by code_simp

lemma demo_boots: "boot demo_gw 0 [''http://a/''] ''round-robin'' 3 True True (0::nat) = Inr demo_booted"
proof -
  have "''round-robin'' \<in> set getAvailableAlgorithms" by code_simp
  then show ?thesis using boot_starts by (metis demo_booted_def sum.sel(2))
qed

lemma demo_name: "''round-robin'' \<notin> set object_prototype"
  by code_simp

text \<open>The steps of the story: arrive, route, fail, leave, route again; then serve.\<close>

lemma demo_steps:
  "(world_step demo_gw demo_jwt demo_redis demo_api_env demo_md5 (\<lambda>q. False) None)\<^sup>*\<^sup>*
     (demo_booted, []) (snd demo_again, [fst demo_again])"
  "(world_step demo_gw demo_jwt demo_redis demo_api_env demo_md5 (\<lambda>q. False) None)\<^sup>*\<^sup>*
     (snd demo_again, [fst demo_again]) (snd demo_served, [fst demo_served])"
proof -
  let ?W = "world_step demo_gw demo_jwt demo_redis demo_api_env demo_md5 (\<lambda>q. False) None"
  obtain hs where adm: "demo_admitted = (Admitted hs, snd demo_admitted)" using demo_admits by (metis prod.collapse)
  have "fresh_request demo_edge_req" "\<not> js_startsWith (req_path demo_edge_req) ''/api''" by code_simp+
  then have arrive: "?W (demo_booted, []) (snd demo_looked_up, [new_flight demo_edge_req])"
    using world_step.arrive [OF _ adm [unfolded demo_admitted_def], where fs = "[]" and rc = demo_redis and d = "fst demo_looked_up"]
      demo_misses by (fastforce simp: demo_looked_up_def split_def demo_admitted_def)
  have route: "?W (s, [f]) (snd (route_flight demo_cfg demo_md5 None t f s), [fst (route_flight demo_cfg demo_md5 None t f s)])"
    for s f t
    using world_step.route [of 0 "[f]" demo_gw demo_md5 None t s] by (simp add: demo_gw_def)
  have result: "?W (s, [f]) (snd (result_flight demo_cfg env f s), [fst (result_flight demo_cfg env f s)])" for s f env
    using world_step.result [of 0 "[f]" demo_gw env s] by (simp add: demo_gw_def)
  have close: "?W (s, [f]) (snd (close_flight t f s), [fst (close_flight t f s)])" for s f t
    using world_step.close [of 0 "[f]" t s] by simp
  have cb: "g_cb demo_gw = demo_cfg" by (simp add: demo_gw_def)
  have r: "?W (snd demo_looked_up, [new_flight demo_edge_req]) (snd demo_routed, [fst demo_routed])"
    using route [of "snd demo_looked_up" "new_flight demo_edge_req" 10] by (simp add: demo_routed_def split_def cb)
  have f: "?W (snd demo_routed, [fst demo_routed]) (snd demo_failed, [fst demo_failed])"
    using result [of "snd demo_routed" "fst demo_routed"] by (simp add: demo_failed_def split_def cb)
  have l: "?W (snd demo_failed, [fst demo_failed]) (snd demo_left, [fst demo_left])"
    using close [of "snd demo_failed" "fst demo_failed" 30] by (simp add: demo_left_def split_def)
  have a: "?W (snd demo_left, [fst demo_left]) (snd demo_again, [fst demo_again])"
    using route [of "snd demo_left" "fst demo_left" 40] by (simp add: demo_again_def split_def cb)
  have s: "?W (snd demo_again, [fst demo_again]) (snd demo_served, [fst demo_served])"
    using result [of "snd demo_again" "fst demo_again"] by (simp add: demo_served_def split_def cb)
  show "?W\<^sup>*\<^sup>* (demo_booted, []) (snd demo_again, [fst demo_again])"
    using arrive r f l a by (meson rtranclp.rtrancl_refl rtranclp.rtrancl_into_rtrancl)
  show "?W\<^sup>*\<^sup>* (snd demo_again, [fst demo_again]) (snd demo_served, [fst demo_served])"
    using s by (meson r_into_rtranclp)
qed


theorem leak_is_permanent_witness:
  "\<exists>m. active ''backend-1'' (snd demo_served) = Some (Suc m)"
  using leak_is_permanent [OF demo_boots demo_name demo_steps(1) _ _ demo_steps(2), of 0 "''backend-1''"]
  by (simp add: demo_strands)

end
