(* ===== verification/Lifecycle.thy ===== *)
theory Lifecycle
  imports Connections Analytics
begin

text \<open>
  \<^verbatim>\<open>src/index.js\<close> with the timers of \<^verbatim>\<open>src/health/healthMonitor.js\<close> and \<^verbatim>\<open>src/analytics/aggregationWorker.js\<close>:
  the process from listening to its exit code. Time is part of every event; before an event is handled the timers
  that are due fire, as in Node's event loop, so a due forced exit comes first.
\<close>

section \<open>The process\<close>

text \<open>What each callback of \<open>server.close\<close> is waiting for.\<close>

datatype closer = AwaitClose | ClosingCache | ClosingDb

record ('r, 'm) process =
  p_gateway :: "'r adc_ca"
  p_analytics :: "'m analytics"
  p_http :: bool
  p_https :: bool
  p_connections :: nat
  p_tls_connections :: nat
  p_monitor :: bool
  p_worker :: bool
  p_probes :: "backend_id list"
  p_closers :: "closer list"
  p_forced :: "time list"
  p_exit :: "nat option"

definition init_process :: "'r adc_ca \<Rightarrow> 'm analytics \<Rightarrow> ('r, 'm) process" where
  "init_process g db =
     \<lparr>p_gateway = g, p_analytics = db, p_http = False, p_https = False, p_connections = 0, p_tls_connections = 0,
      p_monitor = False, p_worker = False, p_probes = [], p_closers = [], p_forced = [], p_exit = None\<rparr>"

text \<open>\<open>healthMonitor\<close>: a run of \<open>checkAll\<close> starts one probe per member.\<close>

definition start_probes :: "('r, 'm) process \<Rightarrow> ('r, 'm) process" where
  "start_probes p = p\<lparr>p_probes := p_probes p @ ids (p_gateway p)\<rparr>"

definition monitor_start :: "('r, 'm) process \<Rightarrow> ('r, 'm) process" where
  "monitor_start p = (if p_monitor p then p else (start_probes p)\<lparr>p_monitor := True\<rparr>)"

definition monitor_stop :: "('r, 'm) process \<Rightarrow> ('r, 'm) process" where
  "monitor_stop p = p\<lparr>p_monitor := False\<rparr>"

definition worker_start :: "('r, 'm) process \<Rightarrow> ('r, 'm) process" where
  "worker_start p = p\<lparr>p_worker := True\<rparr>"

definition worker_stop :: "('r, 'm) process \<Rightarrow> ('r, 'm) process" where
  "worker_stop p = p\<lparr>p_worker := False\<rparr>"

text \<open>The callback of \<open>server.listen\<close>; \<open>certs\<close>: key and certificate can be read and are accepted.\<close>

definition listening :: "gw_config \<Rightarrow> bool \<Rightarrow> ('r, 'm) process \<Rightarrow> ('r, 'm) process" where
  "listening cfg certs p =
     worker_start (monitor_start (p\<lparr>p_http := True, p_https := tls_enabled (g_tls cfg) \<and> certs\<rparr>))"

text \<open>A closed server without connections emits \<open>close\<close>, which starts every callback waiting for it.\<close>

definition emit_close :: "('r, 'm) process \<Rightarrow> ('r, 'm) process" where
  "emit_close p =
     (if \<not> p_http p \<and> p_connections p = 0
      then p\<lparr>p_closers := map (\<lambda>c. if c = AwaitClose then ClosingCache else c) (p_closers p)\<rparr>
      else p)"

definition gracefulShutdown :: "time \<Rightarrow> ('r, 'm) process \<Rightarrow> ('r, 'm) process" where
  "gracefulShutdown now p =
     (let p = worker_stop (monitor_stop p);
          p = emit_close (p\<lparr>p_http := False, p_closers := p_closers p @ [AwaitClose]\<rparr>)
      in p\<lparr>p_forced := p_forced p @ [now + 10000]\<rparr>)"

definition exit_with :: "nat \<Rightarrow> ('r, 'm) process \<Rightarrow> ('r, 'm) process" where
  "exit_with code p = p\<lparr>p_exit := Some code\<rparr>"

text \<open>\<open>analyticsDb.close\<close>: an error is logged and leaves \<open>connected\<close> as it was.\<close>

definition db_close :: "bool \<Rightarrow> 'm analytics \<Rightarrow> 'm analytics" where
  "db_close success s = (if success then s\<lparr>db_connected := False\<rparr> else s)"

section \<open>Events\<close>

text \<open>
  \<open>Listening\<close> is emitted once and never after a \<open>close\<close>.
  \<open>CacheClosed n\<close> and \<open>DbClosed n\<close>: what the \<open>n\<close>-th callback awaits has settled (both \<open>close\<close> methods catch their
  errors). \<open>Uncaught\<close> stands for any exception or rejection that no handler of the gateway catches, such as a
  failing \<open>listen\<close>; an API request whose handler rejects is one by itself.
\<close>

datatype proc_event =
    Listening bool
  | Connect | Disconnect
  | TlsConnect | TlsDisconnect
  | ApiRequest proxy_req api_call
  | MonitorTick
  | ProbeDone nat rat fetch_outcome
  | WorkerTick
  | Signal
  | CacheClosed nat
  | DbClosed nat bool
  | Uncaught

definition stage_is :: "closer list \<Rightarrow> nat \<Rightarrow> closer \<Rightarrow> bool" where
  "stage_is cs n c \<longleftrightarrow> n < length cs \<and> cs ! n = c"

fun proc_handle ::
  "gw_config \<Rightarrow> jwt_lib \<Rightarrow> 'r redis_client \<Rightarrow> api_env \<Rightarrow> 'm mongo \<Rightarrow> time \<Rightarrow> proc_event \<Rightarrow>
   ('r, 'm) process \<Rightarrow> ('r, 'm) process" where
  "proc_handle cfg jwt rc e mg now (Listening certs) p =
     (if p_http p \<or> p_closers p \<noteq> [] then p else listening cfg certs p)"
| "proc_handle cfg jwt rc e mg now Connect p =
     (if p_http p then p\<lparr>p_connections := p_connections p + 1\<rparr> else p)"
| "proc_handle cfg jwt rc e mg now Disconnect p =
     (if 0 < p_connections p then emit_close (p\<lparr>p_connections := p_connections p - 1\<rparr>) else p)"
| "proc_handle cfg jwt rc e mg now TlsConnect p =
     (if p_https p then p\<lparr>p_tls_connections := p_tls_connections p + 1\<rparr> else p)"
| "proc_handle cfg jwt rc e mg now TlsDisconnect p = p\<lparr>p_tls_connections := p_tls_connections p - 1\<rparr>"
| "proc_handle cfg jwt rc e mg now (ApiRequest req call) p =
     (case api cfg jwt rc e now req call (p_gateway p) of
        (Some code, g) \<Rightarrow> p\<lparr>p_gateway := g\<rparr>
      | (None, g) \<Rightarrow> exit_with 1 (p\<lparr>p_gateway := g\<rparr>))"
| "proc_handle cfg jwt rc e mg now MonitorTick p = (if p_monitor p then start_probes p else p)"
| "proc_handle cfg jwt rc e mg now (ProbeDone n elapsed outcome) p =
     (if n < length (p_probes p)
      then p\<lparr>p_gateway := checkBackend (g_cb cfg) now elapsed (p_probes p ! n) outcome (p_gateway p),
             p_probes := take n (p_probes p) @ drop (Suc n) (p_probes p)\<rparr>
      else p)"
| "proc_handle cfg jwt rc e mg now WorkerTick p =
     (if p_worker p then p\<lparr>p_analytics := runRollup mg now (p_analytics p)\<rparr> else p)"
| "proc_handle cfg jwt rc e mg now Signal p = gracefulShutdown now p"
| "proc_handle cfg jwt rc e mg now (CacheClosed n) p =
     (if stage_is (p_closers p) n ClosingCache then p\<lparr>p_closers := (p_closers p)[n := ClosingDb]\<rparr> else p)"
| "proc_handle cfg jwt rc e mg now (DbClosed n success) p =
     (if stage_is (p_closers p) n ClosingDb then exit_with 0 (p\<lparr>p_analytics := db_close success (p_analytics p)\<rparr>) else p)"
| "proc_handle cfg jwt rc e mg now Uncaught p = exit_with 1 p"

definition timers_due :: "time \<Rightarrow> ('r, 'm) process \<Rightarrow> bool" where
  "timers_due now p \<longleftrightarrow> list_ex (\<lambda>d. d \<le> now) (p_forced p)"

definition proc_step ::
  "gw_config \<Rightarrow> jwt_lib \<Rightarrow> 'r redis_client \<Rightarrow> api_env \<Rightarrow> 'm mongo \<Rightarrow> time \<times> proc_event \<Rightarrow>
   ('r, 'm) process \<Rightarrow> ('r, 'm) process" where
  "proc_step cfg jwt rc e mg ev p =
     (if p_exit p \<noteq> None then p
      else if timers_due (fst ev) p then exit_with 1 p
      else proc_handle cfg jwt rc e mg (fst ev) (snd ev) p)"

definition proc_run ::
  "gw_config \<Rightarrow> jwt_lib \<Rightarrow> 'r redis_client \<Rightarrow> api_env \<Rightarrow> 'm mongo \<Rightarrow> (time \<times> proc_event) list \<Rightarrow>
   ('r, 'm) process \<Rightarrow> ('r, 'm) process" where
  "proc_run cfg jwt rc e mg evs p = fold (proc_step cfg jwt rc e mg) evs p"

lemma proc_run_simps [simp]:
  "proc_run cfg jwt rc e mg [] p = p"
  "proc_run cfg jwt rc e mg (ev # evs) p = proc_run cfg jwt rc e mg evs (proc_step cfg jwt rc e mg ev p)"
  "proc_run cfg jwt rc e mg (evs @ evs') p = proc_run cfg jwt rc e mg evs' (proc_run cfg jwt rc e mg evs p)"
  by (simp_all add: proc_run_def)

lemma exited_stays [simp]: "p_exit p = Some c \<Longrightarrow> proc_run cfg jwt rc e mg evs p = p"
  by (induction evs) (simp_all add: proc_step_def)

lemmas process_defs = listening_def monitor_start_def monitor_stop_def worker_start_def worker_stop_def start_probes_def
  emit_close_def gracefulShutdown_def exit_with_def db_close_def stage_is_def

section \<open>Shutdown\<close>

text \<open>After a signal nothing new starts, and the forced exit is pending.\<close>

definition winding_down :: "time \<Rightarrow> ('r, 'm) process \<Rightarrow> ('r, 'm) process \<Rightarrow> bool" where
  "winding_down t p q \<longleftrightarrow>
     \<not> p_http q \<and> \<not> p_monitor q \<and> \<not> p_worker q \<and> p_closers q \<noteq> [] \<and> t + 10000 \<in> set (p_forced q) \<and>
     p_connections q \<le> p_connections p \<and> set (p_probes q) \<subseteq> set (p_probes p)"

lemma winding_down_signal: "winding_down t p (proc_handle cfg jwt rc e mg t Signal p)"
  by (auto simp: winding_down_def process_defs Let_def)

lemma winding_down_step: "winding_down t p q \<Longrightarrow> winding_down t p (proc_step cfg jwt rc e mg ev q)"
proof (cases ev)
  case (Pair now x)
  assume w: "winding_down t p q"
  have "winding_down t p (proc_handle cfg jwt rc e mg now x q)"
  proof (cases x)
    case (ApiRequest req call)
    with w show ?thesis by (auto simp: winding_down_def process_defs split: prod.split option.split)
  next
    case (ProbeDone n elapsed outcome)
    with w show ?thesis
      by (auto simp: winding_down_def dest: in_set_takeD in_set_dropD)
  qed (use w in \<open>auto simp: winding_down_def process_defs Let_def\<close>)
  with w show ?thesis by (simp add: Pair proc_step_def) (simp add: winding_down_def exit_with_def)
qed

lemma winding_down_run: "winding_down t p q \<Longrightarrow> winding_down t p (proc_run cfg jwt rc e mg evs q)"
  by (induction evs arbitrary: q) (simp_all add: winding_down_step)

text \<open>An exit with code 0 means that the HTTP server had no connection left.\<close>

definition orderly :: "('r, 'm) process \<Rightarrow> bool" where
  "orderly p \<longleftrightarrow>
     (list_ex (\<lambda>c. c \<noteq> AwaitClose) (p_closers p) \<or> p_exit p = Some 0 \<longrightarrow> \<not> p_http p \<and> p_connections p = 0) \<and>
     (p_closers p \<noteq> [] \<longrightarrow> \<not> p_http p)"

lemma stage_started: "stage_is cs n c \<Longrightarrow> c \<noteq> AwaitClose \<Longrightarrow> list_ex (\<lambda>c. c \<noteq> AwaitClose) cs"
  by (auto simp: stage_is_def list_ex_iff intro: bexI [of _ c])

lemma orderly_step:
  assumes "orderly p" shows "orderly (proc_step cfg jwt rc e mg ev p)"
proof (cases ev)
  case (Pair now x)
  have "orderly (proc_handle cfg jwt rc e mg now x p)" if "p_exit p = None"
  proof (cases x)
    case (ApiRequest req call)
    with assms that show ?thesis by (auto simp: orderly_def process_defs split: prod.split option.split)
  next
    case (CacheClosed n)
    with assms that stage_started [of "p_closers p" n ClosingCache] show ?thesis by (auto simp: orderly_def)
  next
    case (DbClosed n success)
    with assms that stage_started [of "p_closers p" n ClosingDb] show ?thesis by (auto simp: orderly_def exit_with_def)
  qed (use assms that in \<open>auto simp: orderly_def process_defs list_ex_iff Let_def\<close>)
  with assms show ?thesis by (auto simp: Pair proc_step_def exit_with_def orderly_def)
qed

lemma orderly_run: "orderly p \<Longrightarrow> orderly (proc_run cfg jwt rc e mg evs p)"
  by (induction evs arbitrary: p) (simp_all add: orderly_step)


definition demo_process :: "(nat, unit) process" where
  "demo_process = init_process demo_ca demo_db"


text \<open>The callbacks of a drained server run one after the other, to exit code 0.\<close>

lemma run_connects:
  assumes "p_exit p = None" "\<not> timers_due t p" "p_https p"
  shows "proc_run cfg jwt rc e mg (replicate k (t, TlsConnect)) p = p\<lparr>p_tls_connections := p_tls_connections p + k\<rparr>"
  using assms by (induction k arbitrary: p) (simp_all add: proc_step_def timers_due_def)

lemma run_refused:
  assumes "p_exit p = None" "\<not> timers_due t p" "\<not> p_https p"
  shows "proc_run cfg jwt rc e mg (replicate k (t, TlsConnect)) p = p"
  using assms by (induction k) (simp_all add: proc_step_def)

lemma run_disconnects:
  assumes "p_exit p = None" "\<not> timers_due t p" "\<not> p_http p" "p_closers p = [AwaitClose]"
  shows "proc_run cfg jwt rc e mg (replicate (Suc k) (t, Disconnect)) (p\<lparr>p_connections := Suc k\<rparr>) =
         p\<lparr>p_connections := 0, p_closers := [ClosingCache]\<rparr>"
  using assms
proof (induction k)
  case (Suc k)
  then show ?case by (simp add: proc_step_def timers_due_def emit_close_def)
qed (simp add: proc_step_def timers_due_def emit_close_def)

lemma run_closes:
  assumes "p_exit q = None" "\<not> timers_due t q" "p_closers q = [ClosingCache]"
  shows "proc_run cfg jwt rc e mg [(t, CacheClosed 0), (t, DbClosed 0 ok)] q =
    exit_with 0 (q\<lparr>p_closers := [ClosingDb], p_analytics := db_close ok (p_analytics q)\<rparr>)"
  using assms by (simp add: proc_step_def timers_due_def stage_is_def exit_with_def)

text \<open>
  C33: the way out with code 0, and who is left behind. After a signal to a serving process, once its HTTP connections
  have ended and both clients are closed before the forced exit, the process exits with code 0 and MongoDB is marked
  disconnected when its client closed. But only the HTTP server is closed: the TLS listener goes on accepting, and
  every TLS connection, old or accepted after the signal, is still open when the process exits.
\<close>

theorem graceful_exit:
  assumes "p_exit p = None" "p_http p" "p_closers p = []" "\<not> timers_due t p" "\<not> timers_due t1 p" "t1 < t + 10000"
  shows "let q = proc_run cfg jwt rc e mg
                   ([(t, Signal)] @ replicate k (t1, TlsConnect) @ replicate (p_connections p) (t1, Disconnect) @
                    [(t1, CacheClosed 0), (t1, DbClosed 0 ok)]) p
         in p_exit q = Some 0 \<and> p_connections q = 0 \<and> db_connected (p_analytics q) = (\<not> ok \<and> db_connected (p_analytics p)) \<and>
            p_tls_connections q = p_tls_connections p + (if p_https p then k else 0)"
proof -
  let ?run = "proc_run cfg jwt rc e mg"
  let ?s = "gracefulShutdown t p" and ?k = "if p_https p then k else 0"
  have s: "?run [(t, Signal)] p = ?s" using assms(1,4) by (simp add: proc_step_def)
  have tls: "?run (replicate k (t1, TlsConnect)) ?s = ?s\<lparr>p_tls_connections := p_tls_connections ?s + ?k\<rparr>"
    if "p_exit ?s = None" "\<not> timers_due t1 ?s"
    using that by (cases "p_https p") (simp_all add: run_connects run_refused process_defs Let_def)
  let ?t = "?s\<lparr>p_tls_connections := p_tls_connections ?s + ?k\<rparr>"
  let ?d = "?t\<lparr>p_connections := 0, p_closers := [ClosingCache]\<rparr>"
  have due: "p_exit ?s = None" "\<not> timers_due t1 ?s" "\<not> timers_due t1 ?d"
    using assms by (simp_all add: process_defs timers_due_def Let_def)
  have "?run (replicate (p_connections p) (t1, Disconnect)) ?t = ?d"
  proof (cases "p_connections p")
    case 0
    then show ?thesis using assms(3) by (simp add: process_defs Let_def)
  next
    case (Suc c)
    have "\<not> timers_due t1 ?t" "p_exit ?t = None" using due by (simp_all add: timers_due_def)
    moreover have "\<not> p_http ?t" "p_closers ?t = [AwaitClose]" "?t\<lparr>p_connections := Suc c\<rparr> = ?t"
      using assms(3) Suc by (simp_all add: process_defs Let_def)
    ultimately show ?thesis using run_disconnects [of ?t t1 cfg jwt rc e mg c] Suc by metis
  qed
  then have "?run ([(t, Signal)] @ replicate k (t1, TlsConnect) @ replicate (p_connections p) (t1, Disconnect) @
      [(t1, CacheClosed 0), (t1, DbClosed 0 ok)]) p = ?run [(t1, CacheClosed 0), (t1, DbClosed 0 ok)] ?d"
    unfolding proc_run_simps(3) s tls [OF due(1,2)] by simp
  moreover have "p_exit ?d = None" "p_tls_connections ?d = p_tls_connections p + ?k" "p_analytics ?d = p_analytics p"
    "p_connections ?d = 0" "p_closers ?d = [ClosingCache]"
    using due(1) by (simp_all add: process_defs Let_def)
  ultimately show ?thesis
    using run_closes [OF _ due(3), of cfg jwt rc e mg ok] by (simp only: Let_def) (simp add: exit_with_def db_close_def)
qed

definition demo_serving :: "(nat, unit) process" where
  "demo_serving = demo_process\<lparr>p_http := True, p_https := True, p_connections := 2\<rparr>"

theorem graceful_exit_witness:
  "let q = proc_run demo_gw demo_jwt demo_redis demo_api_env demo_mongo
             ([(5000, Signal)] @ replicate 3 (6000, TlsConnect) @ replicate (p_connections demo_serving) (6000, Disconnect) @
              [(6000, CacheClosed 0), (6000, DbClosed 0 True)]) demo_serving
   in p_exit q = Some 0 \<and> p_tls_connections q = 3"
proof -
  have p: "p_exit demo_serving = None" "p_http demo_serving" "p_closers demo_serving = []"
    "\<not> timers_due 5000 demo_serving" "\<not> timers_due 6000 demo_serving" "p_https demo_serving = True" "p_tls_connections demo_serving = 0"
    by (simp_all add: demo_serving_def demo_process_def init_process_def timers_due_def)
  have "6000 < 5000 + (10000 :: time)" by simp
  from graceful_exit [OF p(1-5) this, of demo_gw demo_jwt demo_redis demo_api_env demo_mongo 3 True] show ?thesis
    unfolding Let_def p(6,7) by (elim conjE) (intro conjI, simp_all only: simp_thms if_True add_0)
qed

section \<open>One request that stops the gateway\<close>

lemma valid_token_passes: "valid_token jwt now req \<Longrightarrow> \<exists>u. jwtMiddleware jwt now req s = (Inr u, s)"
  by (auto simp: valid_token_def jwtMiddleware_def Let_def js_startsWith_def split: option.splits sum.splits)

lemma run_route_rejects:
  "fst (run_route cfg jwt rc e now req call s) = None \<longleftrightarrow>
   (\<exists>pattern. call = DeleteInvalidate (Some pattern) \<and> pattern \<noteq> [] \<and> isActive (g_cache cfg) rc s \<and>
      useMemoryFallback s \<and> pattern_test (env_regexp e) pattern = None)"
proof (cases call)
  case (DeleteInvalidate p)
  then show ?thesis
    by (cases p) (auto simp: deleteInvalidate_def invalidatePattern_def split: option.split sum.split prod.split)
qed (auto simp: case_prod_unfold split: sum.split)


definition demo_admin :: proxy_req where
  "demo_admin = demo_edge_req\<lparr>headers := [(''authorization'', ''Bearer hdr.admin.s3cret'')]\<rparr>"


end
