(* ===== verification/Spec2Isabelle.thy ===== *)
theory Spec2Isabelle
  imports Benchmark ConsoleView Lifecycle
begin

text \<open>
  SentinelADC: a layer-7 application delivery controller (reverse proxy, load balancer, firewall, cache) written in
  JavaScript for Node, with a React console. This development models its core in HOL and proves what makes
  it correct, and where it is not, what goes wrong.

  The program. \<^verbatim>\<open>src/app.js\<close> sends every request through a chain of filters: HTTPS redirect, IP blocklist, header
  checks, token-bucket rate limiter, anomaly detector, web application firewall, response cache. What passes
  either belongs to the API (\<^verbatim>\<open>/api\<close>: status, administration behind a token check, health, metrics, cache,
  security, analytics, breakers) or is proxied to a backend chosen by the routing engine, with up to two
  retries. Besides requests, timers run: health probes, drain deadlines, anomaly windows, bucket clean-up, the
  analytics rollup. All of them share module singletons, and Node runs one callback at a time: an operation
  is a function on the shared state, an interleaving a sequence of such functions.

  The state is one record, extended by each component with what it keeps:
  \<open>adc\<close> (\<open>pool\<close>, the backends), \<open>adc_log\<close> (security events), \<open>adc_cb\<close> (circuit breakers), \<open>adc_hs\<close> (health
  statistics), \<open>adc_dr\<close> (drain timers), \<open>adc_mt\<close> (traffic history), \<open>adc_lb\<close> (indices of the strategies),
  \<open>adc_rt\<close> (the algorithm), \<open>adc_rl\<close> (buckets, penalties), \<open>adc_an\<close> (baselines, anomalies), \<open>adc_sec\<close> (blocklist) and
  \<open>adc_ca\<close> (response cache, with the state of Redis as a type parameter). Operations take the scheme of the record they
  need, so they apply to the whole gateway. The analytics store and the console have records of their own.
  JavaScript Maps and objects used as maps are association lists (insertion order shows in answers), an object
  reference is its id, thrown errors and refusals are sums or \<open>api_reply\<close>, doubles are rationals rounded by
  \<open>fl\<close> after each operation (\<open>JsNumber\<close>: binary64 without overflow), JSON is \<open>js_value\<close>.

  Theories, in the order of the imports, with the source they model.
  \<^item> \<open>Prelude\<close>: JavaScript values, lists updated at one object, bounded buffers (locale \<open>sliding_window\<close>), the
    collections \<open>adc_frame\<close> (what an operation leaves alone) and \<open>adc_inv\<close> (what it preserves).
  \<^item> \<open>JsNumber\<close>: rounding, \<open>Math.round\<close>, \<open>toFixed\<close>; locale \<open>rounding\<close> holds what the bounds proofs need of \<open>fl\<close>.
  \<^item> \<open>Helpers\<close> (\<^verbatim>\<open>src/utils/helpers.js\<close>), \<open>BackendPool\<close> (\<^verbatim>\<open>src/config/backends.js\<close>), \<open>SecurityLog\<close>
    (\<^verbatim>\<open>src/security/securityLogger.js\<close>).
  \<^item> \<open>CircuitBreaker\<close> (\<^verbatim>\<open>src/resilience\<close>): the code's operations simulate an abstract three-state machine (locale
    \<open>breaker_spec\<close>); from it trip, cool-down, probe budget and legal paths.
  \<^item> \<open>HealthStore\<close> (\<^verbatim>\<open>src/health\<close>), \<open>ConnectionDrain\<close> (\<^verbatim>\<open>src/admin/connectionDrainManager.js\<close>), \<open>Metrics\<close>
    (\<^verbatim>\<open>src/metrics\<close>): probe verdicts, graceful drain, the traffic window and the score.
  \<^item> \<open>StrategyBase\<close>, \<open>RoundRobin\<close>, \<open>WeightedRR\<close>, \<open>LeastConnections\<close>, \<open>ConsistentHash\<close> (\<^verbatim>\<open>src/routing/strategies\<close>):
    each strategy is an instance of the locale \<open>lb_strategy\<close>, plus its own theorem (fairness, proportion, minimum, ring).
  \<^item> \<open>Routing\<close> (\<^verbatim>\<open>src/routing\<close>, \<^verbatim>\<open>src/api\<close>): the engine over any strategy and the admin handlers.
  \<^item> \<open>Proxy\<close> (\<^verbatim>\<open>src/proxy\<close>): hooks, retry budget, connection accounting.
  \<^item> \<open>RateLimiter\<close>, \<open>Anomaly\<close>, \<open>Waf\<close>, \<open>Perimeter\<close> (\<^verbatim>\<open>src/security\<close>, \<^verbatim>\<open>src/middleware\<close>): the bucket in memory and in
    Lua as two instances of the locale \<open>token_bucket\<close>; the firewall's matcher against the inductive semantics of
    its expressions; blocklist, header checks, tokens, redirect, error handler.
  \<^item> \<open>Cache\<close>, \<open>CacheHttp\<close> (\<^verbatim>\<open>src/cache\<close>): the store as an instance of the locale \<open>ttl_store\<close>; one exchange through
    the middleware; UTF-8 decoding of bodies.
  \<^item> \<open>Gateway\<close> (\<^verbatim>\<open>src/app.js\<close> and the routers): the composed filters, the API as one function of a call
    (\<open>api_call\<close> has a constructor per route), who may change what.
  \<^item> \<open>WellFormed\<close>: what every operation keeps, one lemma each, through a view of the pool (locale \<open>pool_view\<close>, extended
    by \<open>counter_free\<close>); \<open>System\<close> (\<^verbatim>\<open>src/index.js\<close>): the initial state, the step relation \<open>gw_step\<close> of the event loop
    (filters, cache, API, the hooks of the proxy, and the background steps \<open>gw_background\<close>: probes, timers, ends of
    responses) and the invariant of all reachable states.
  \<^item> \<open>Interleaving\<close>: a proxied request as a \<open>flight\<close> that takes one step at a time, and \<open>world_step\<close>, any number of flights
    interleaved with each other and with the background; uninterrupted it is the run of \<open>Proxy\<close>. \<open>Connections\<close>: the
    conservation law of the connection counters over \<open>world_step\<close>, and the one way to break it.
  \<^item> \<open>Lifecycle\<close> (\<^verbatim>\<open>src/index.js\<close>): the process, its sockets, signals, timers and exit codes, over the gateway and
    the analytics store.
  \<^item> \<open>Config\<close> (\<^verbatim>\<open>src/config/index.js\<close>): the settings as a function of the environment and the start from them.
  \<^item> \<open>Analytics\<close> (\<^verbatim>\<open>src/analytics\<close>): request logs, window aggregates, rollups, routes.
  \<^item> \<open>Upstream\<close> (\<^verbatim>\<open>backends/server.js\<close>): the bundled application behind the proxy, a request to it from end to end, and
    what a backend that only fails still receives.
  \<^item> \<open>Observability\<close> (\<^verbatim>\<open>src/observability\<close>, the access log and the response timer of \<^verbatim>\<open>src/middleware\<close>): log entries
    and their context, the access line, which responses carry their duration.
  \<^item> \<open>Pipeline\<close> (\<^verbatim>\<open>src/app.js\<close>): \<open>serve\<close>, one HTTP request through the whole chain of \<open>createApp\<close> - filters, cache, routes
    or proxy with its retries, error handler, access log, analytics - from the path to the answer; what a client
    without a token can change, what it can read, and that every request is answered.
  \<^item> \<open>Benchmark\<close> (\<^verbatim>\<open>benchmarks/run.js\<close>): the load-test script as data and its runs; which settings the gateway under test
    gets, and that the firewall scenario measures nothing of the firewall's body screening.
  \<^item> \<open>Dashboard\<close>, \<open>ConsoleView\<close> (\<^verbatim>\<open>dashboard/src/App.tsx\<close>): the console's handlers against the route table; its screens
    as lists of texts and controls, \<open>None\<close> where rendering throws, and the user and the polling timer as steps.

  Properties. Each claim \<open>C\<close>\<open>n\<close> is a theorem next to the component it is about, and a witness theorem applies it
  where it has hypotheses. Claims that cross components are in \<open>Gateway\<close> (filters and API), \<open>System\<close>,
  \<open>Interleaving\<close> and \<open>Connections\<close> (every interleaving), \<open>Lifecycle\<close> (start and stop), \<open>Anomaly\<close> (detector and limiter),
  \<open>CacheHttp\<close> (cache and chain), \<open>Pipeline\<close> (a request from end to end), \<open>Upstream\<close> (routing, proxy, breaker and backend), \<open>Observability\<close> (one id through
  proxy and logs) and \<open>ConsoleView\<close> (console and gateway). Some claims and further theorems state faults of the code
  exactly: a probe that cancels a drain, an accepted algorithm name that is no strategy, a firewall that sees no
  bodies, rollups that lose the end of a minute, a console that cannot read its gateway's status, a connection
  counter leaked by a client that leaves before a retry, a shutdown that cuts HTTPS requests, an API call that stops
  the process, an access log that never names the backend, proxied responses without their duration, and administrative
  answers that the cache hands to anyone under \<^verbatim>\<open>/API\<close>.

  Termination and bounds. Recursion is structural or on lists everywhere except the endless loop of weighted round
  robin, a \<open>partial_function (option)\<close> proved to return for every state the gateway reaches. A proxied request is a run
  over a list of attempt environments; three always suffice (the retry budget). Nothing else uses fuel.

  Parameters, for code that is not in the repository: MD5 (\<open>md5\<close>), \<^verbatim>\<open>jsonwebtoken\<close> (\<open>jwt_lib\<close>), the Redis commands
  of the cache (\<open>redis_client\<close>), MongoDB (\<open>mongo\<close>), which requests \<^verbatim>\<open>cors\<close> answers itself, what
  \<^verbatim>\<open>http-proxy-middleware\<close> does without a target (\<open>no_target\<close>) and meets upstream (\<open>attempt_env\<close>), regular expressions an
  administrator may type beyond the wildcard language, the console's network. Clock readings and random numbers are
  arguments of each operation.

  More such parameters: \<^verbatim>\<open>autocannon\<close> and \<^verbatim>\<open>fetch\<close> (\<open>bench_world\<close>), Winston's colours, clock, JSON text and level numbers, Morgan's built-in tokens, and the
  clock, random numbers and memory figures of the sample application.

  Not modelled: the build files, layout and charts of the console; in \<^verbatim>\<open>src/utils/helpers.js\<close> the timer \<open>sleep\<close>; in the
  modelled parts which entries are logged where, the progress messages of the benchmark, the random suffix of event
  ids, and the creation of database indexes.

  Two parts of the model are not joined: \<open>world_step\<close> interleaves the flights of the proxy with the background but not
  with the analytics store and the process, and \<open>serve\<close> runs one request without interruption.
\<close>

end
